(* ===== verification/Prelude.thy ===== *)
theory Prelude
  imports Main "HOL-Library.Word" "HOL-Library.Char_ord"
begin

text \<open>
  What every component shares: the lemma collections of the development and the generic facts
  about lists, searches and numbers that the component proofs use. Nothing here models code.
\<close>

text \<open>
  \<^item> \<open>returns\<close>: when a computation of a sum type returns a value, one equivalence per operation;
  \<^item> \<open>wire\<close>: what the reader of a response body makes of the text an encoder wrote.
\<close>

named_theorems returns \<open>when a computation that may fail returns a value\<close>
named_theorems wire \<open>what a reader makes of encoded text\<close>

subsection \<open>Lists in step\<close>

lemma list_all2_member:
  assumes "list_all2 R xs ys" and "x \<in> set xs"
  obtains y where "y \<in> set ys" "R x y"
  using assms by (induction arbitrary: thesis rule: list_all2_induct) auto

subsection \<open>The first position where a predicate holds\<close>

fun index_where :: "('a \<Rightarrow> bool) \<Rightarrow> 'a list \<Rightarrow> nat option" where
  "index_where P [] = None"
| "index_where P (x # xs) = (if P x then Some 0 else map_option Suc (index_where P xs))"

lemma index_where_None [simp]: "index_where P xs = None \<longleftrightarrow> (\<forall>x \<in> set xs. \<not> P x)"
  by (induction xs) auto

lemma index_where_Some:
  assumes "index_where P xs = Some i"
  shows "i < length xs" and "P (xs ! i)" and "\<forall>x \<in> set (take i xs). \<not> P x"
  using assms by (induction xs arbitrary: i) (auto split: if_splits)

lemma index_where_take_drop:
  assumes "index_where P xs = Some i"
  shows "take i xs = takeWhile (\<lambda>x. \<not> P x) xs" and "drop i xs = dropWhile (\<lambda>x. \<not> P x) xs"
  using assms by (induction xs arbitrary: i) (auto split: if_splits)

subsection \<open>Bytes\<close>

lemma of_char_less_256: "(of_char c :: nat) < 256"
  by (metis mod_less_divisor of_char_mod_256 zero_less_numeral)

subsection \<open>Lists of results\<close>

lemma filter_upt_cong:
  assumes "\<And>i. i < n \<Longrightarrow> P i = Q i"
  shows "filter P [0..<n] = filter Q [0..<n]"
  using assms by (intro filter_cong) auto

subsection \<open>Sums as results\<close>

lemma sum_case_Inr [returns]:
  "(case r of Inl e \<Rightarrow> Inl e | Inr x \<Rightarrow> f x) = Inr y \<longleftrightarrow> (\<exists>x. r = Inr x \<and> f x = Inr y)"
  by (cases r) auto

lemma if_Inl_Inr [returns]:
  "(if b then Inl e else r) = Inr y \<longleftrightarrow> \<not> b \<and> r = Inr y"
  by simp

lemma option_case_Inr [returns]:
  "(case r of None \<Rightarrow> Inl e | Some x \<Rightarrow> f x) = Inr y \<longleftrightarrow> (\<exists>x. r = Some x \<and> f x = Inr y)"
  by (cases r) auto

end
