(* ===== verification/Cpp_Std.thy ===== *)
theory Cpp_Std
  imports Prelude
begin

text \<open>
  The parts of the C++ standard library the program uses on text: the searches and the substring
  of \<open>std::string_view\<close>, and \<open>std::to_string\<close>. A string is a list of bytes (\<open>char list\<close>).
  A position is a \<open>nat option\<close>: \<open>None\<close> is \<open>std::string_view::npos\<close>, whose numeric value
  \<open>npos\<close> is written out where the code computes with it.
\<close>

subsection \<open>std::string_view\<close>

definition npos :: nat where
  "npos = 2 ^ 64 - 1"

text \<open>A search from a position; a search from \<open>npos\<close> finds nothing.\<close>

definition find_from :: "(char \<Rightarrow> bool) \<Rightarrow> string \<Rightarrow> nat option \<Rightarrow> nat option" where
  "find_from P text pos =
     (case pos of None \<Rightarrow> None
      | Some p \<Rightarrow> map_option (\<lambda>i. p + i) (index_where P (drop p text)))"

definition find_first_of :: "string \<Rightarrow> string \<Rightarrow> nat option \<Rightarrow> nat option" where
  "find_first_of text chars pos = find_from (\<lambda>c. c \<in> set chars) text pos"

definition find_first_not_of :: "string \<Rightarrow> string \<Rightarrow> nat option \<Rightarrow> nat option" where
  "find_first_not_of text chars pos = find_from (\<lambda>c. c \<notin> set chars) text pos"

definition find_last_not_of :: "string \<Rightarrow> string \<Rightarrow> nat option" where
  "find_last_not_of text chars =
     map_option (\<lambda>i. length text - 1 - i) (index_where (\<lambda>c. c \<notin> set chars) (rev text))"

definition find_char :: "string \<Rightarrow> char \<Rightarrow> nat option" where
  "find_char text c = find_from (\<lambda>d. d = c) text (Some 0)"

text \<open>The number a position is when the code subtracts from it.\<close>

definition pos_value :: "nat option \<Rightarrow> nat" where
  "pos_value pos = (case pos of None \<Rightarrow> npos | Some p \<Rightarrow> p)"

text \<open>
  \<open>substr(pos, count)\<close> clamps the count to what is left. It throws only when \<open>pos\<close> is past the
  end, which no call of the program is.
\<close>

definition substr :: "string \<Rightarrow> nat \<Rightarrow> nat \<Rightarrow> string" where
  "substr text pos count = take count (drop pos text)"

lemma find_from_None [simp]: "find_from P text None = None"
  by (simp add: find_from_def)

lemma find_from_bounds:
  assumes "find_from P text (Some p) = Some q"
  shows "p \<le> q" and "q < length text" and "P (text ! q)"
    and "\<forall>i. p \<le> i \<and> i < q \<longrightarrow> \<not> P (text ! i)"
proof -
  from assms obtain i where i: "index_where P (drop p text) = Some i" and q: "q = p + i"
    by (auto simp: find_from_def)
  note facts = index_where_Some [OF i]
  show "p \<le> q" using q by simp
  show "q < length text" using facts(1) q by simp
  then show "P (text ! q)" using facts(2) q by simp
  show "\<forall>j. p \<le> j \<and> j < q \<longrightarrow> \<not> P (text ! j)"
  proof (intro allI impI)
    fix j assume j: "p \<le> j \<and> j < q"
    then have "text ! j = take i (drop p text) ! (j - p)" and "j - p < length (take i (drop p text))"
      using q facts(1) by auto
    then have "text ! j \<in> set (take i (drop p text))"
      by (metis nth_mem)
    then show "\<not> P (text ! j)" using facts(3) by blast
  qed
qed

text \<open>A search seen on what is left of the text.\<close>

lemma find_from_drop:
  assumes "find_from P text (Some p) = Some q"
  shows "drop q text = dropWhile (\<lambda>c. \<not> P c) (drop p text)"
    and "take (q - p) (drop p text) = takeWhile (\<lambda>c. \<not> P c) (drop p text)"
proof -
  from assms obtain i where i: "index_where P (drop p text) = Some i" and q: "q = p + i"
    by (auto simp: find_from_def)
  show "drop q text = dropWhile (\<lambda>c. \<not> P c) (drop p text)"
    using index_where_take_drop(2) [OF i] q by (simp add: add.commute)
  show "take (q - p) (drop p text) = takeWhile (\<lambda>c. \<not> P c) (drop p text)"
    using index_where_take_drop(1) [OF i] q by simp
qed

lemma find_from_none_left:
  "find_from P text (Some p) = None \<longleftrightarrow> (\<forall>c \<in> set (drop p text). \<not> P c)"
  by (simp add: find_from_def)

subsection \<open>std::to_string\<close>

definition digit_char :: "nat \<Rightarrow> char" where
  "digit_char d = char_of (48 + d)"

fun to_string :: "nat \<Rightarrow> string" where
  "to_string n = (if n < 10 then [digit_char n] else to_string (n div 10) @ [digit_char (n mod 10)])"

declare to_string.simps [simp del]

definition to_string_int :: "int \<Rightarrow> string" where
  "to_string_int i = (if i < 0 then ''-'' @ to_string (nat (- i)) else to_string (nat i))"

definition is_digit :: "char \<Rightarrow> bool" where
  "is_digit c \<longleftrightarrow> CHR ''0'' \<le> c \<and> c \<le> CHR ''9''"

definition digit_value :: "char \<Rightarrow> nat" where
  "digit_value c = of_char c - 48"

definition decimal_value :: "string \<Rightarrow> nat" where
  "decimal_value s = foldl (\<lambda>a c. 10 * a + digit_value c) 0 s"

lemma of_char_digit_char [simp]: "d < 10 \<Longrightarrow> of_char (digit_char d) = 48 + d"
  by (simp add: digit_char_def)

lemma digit_value_digit_char [simp]: "d < 10 \<Longrightarrow> digit_value (digit_char d) = d"
  by (simp add: digit_value_def)

lemma is_digit_digit_char [simp]: "d < 10 \<Longrightarrow> is_digit (digit_char d)"
  by (simp add: is_digit_def less_eq_char_def)

lemma digit_char_digit_value [simp]:
  assumes "is_digit c" shows "digit_char (digit_value c) = c"
proof -
  have "48 \<le> (of_char c :: nat)" using assms by (simp add: is_digit_def less_eq_char_def)
  then show ?thesis by (simp add: digit_char_def digit_value_def)
qed

lemma to_string_small: "n < 10 \<Longrightarrow> to_string n = [digit_char n]"
  by (simp add: to_string.simps)

lemma to_string_step: "10 \<le> n \<Longrightarrow> to_string n = to_string (n div 10) @ [digit_char (n mod 10)]"
  by (simp add: to_string.simps [of n])

lemma to_string_digits: "list_all is_digit (to_string n)"
proof (induction n rule: to_string.induct)
  case (1 n)
  then show ?case by (cases "n < 10") (simp_all add: to_string_small to_string_step)
qed

lemma to_string_nonempty [simp]: "to_string n \<noteq> []"
  by (cases "n < 10") (simp_all add: to_string_small to_string_step)

lemma decimal_value_append_digit:
  "decimal_value (s @ [c]) = 10 * decimal_value s + digit_value c"
  by (simp add: decimal_value_def)

lemma decimal_value_to_string [simp]: "decimal_value (to_string n) = n"
proof (induction n rule: to_string.induct)
  case (1 n)
  then show ?case
    by (cases "n < 10")
      (simp_all add: to_string_small to_string_step decimal_value_append_digit,
       simp add: decimal_value_def)
qed

lemma to_string_inject [simp]: "to_string m = to_string n \<longleftrightarrow> m = n"
  by (metis decimal_value_to_string)

lemma length_to_string: "0 < k \<Longrightarrow> n < 10 ^ k \<Longrightarrow> length (to_string n) \<le> k"
proof (induction n arbitrary: k rule: to_string.induct)
  case (1 n)
  show ?case
  proof (cases "n < 10")
    case True
    with 1 show ?thesis by (simp add: to_string_small)
  next
    case False
    with 1 obtain k' where k': "k = Suc k'" "0 < k'"
      by (cases k; cases "k - 1") auto
    have "length (to_string (n div 10)) \<le> k'"
      using 1 False k' by (intro "1.IH") auto
    with False k' show ?thesis by (simp add: to_string_step)
  qed
qed

subsection \<open>std::map\<close>

text \<open>
  \<open>try_emplace(key, value)\<close> inserts only when the key is free. It returns the map, the entry now
  stored under the key, and whether it was inserted.
\<close>

definition try_emplace :: "('k \<rightharpoonup> 'v) \<Rightarrow> 'k \<Rightarrow> 'v \<Rightarrow> ('k \<rightharpoonup> 'v) \<times> 'v \<times> bool" where
  "try_emplace m k v =
     (case m k of None \<Rightarrow> (m(k \<mapsto> v), v, True) | Some w \<Rightarrow> (m, w, False))"

lemma try_emplace_free: "m k = None \<Longrightarrow> try_emplace m k v = (m(k \<mapsto> v), v, True)"
  by (simp add: try_emplace_def)

lemma try_emplace_taken: "m k = Some w \<Longrightarrow> try_emplace m k v = (m, w, False)"
  by (simp add: try_emplace_def)

end
