(* ===== verification/Errors.thy ===== *)
theory Errors
  imports Cpp_Std
begin

text \<open>
  The error vocabulary of \<open>src/core/error.hpp\<close>, \<open>error.cpp\<close> and \<open>result.hpp\<close>. A \<open>Result<T>\<close> is a
  value of the sum \<open>error + 'a\<close>: \<open>Inl\<close> the error branch, \<open>Inr\<close> the value. The code switches over
  every enumerator; the \<open>std::terminate()\<close> after each switch is for values outside the enumeration,
  which the datatypes do not have.
\<close>

datatype ErrorCode =
    MalformedRequest
  | PayloadTooLarge
  | InvalidIndexUid
  | UnknownField
  | IndexAlreadyExists
  | RouteNotFound
  | Internal

datatype ErrorType =
    InvalidRequest
  | Auth
  | NotFound
  | InternalType

record error =
  code :: ErrorCode
  message :: string

type_synonym 'a result = "error + 'a"

definition failure :: "ErrorCode \<Rightarrow> string \<Rightarrow> 'a result" where
  "failure c m = Inl \<lparr>code = c, message = m\<rparr>"

text \<open>The overload that passes on an error from a call below.\<close>

definition failure_of :: "error \<Rightarrow> 'a result" where
  "failure_of e = Inl e"

fun error_type :: "ErrorCode \<Rightarrow> ErrorType" where
  "error_type MalformedRequest = InvalidRequest"
| "error_type PayloadTooLarge = InvalidRequest"
| "error_type InvalidIndexUid = InvalidRequest"
| "error_type UnknownField = InvalidRequest"
| "error_type IndexAlreadyExists = InvalidRequest"
| "error_type RouteNotFound = NotFound"
| "error_type Internal = InternalType"

text \<open>The exceptions the program throws or lets through, by what the catch sites tell apart.\<close>

datatype cpp_exception =
    StdException string  \<comment> \<open>derived from \<open>std::exception\<close>, with its \<open>what()\<close>\<close>
  | ForeignException     \<comment> \<open>anything else that was thrown\<close>

lemma failure_not_Inr [simp]: "failure c m \<noteq> Inr x" "Inr x \<noteq> failure c m"
  by (simp_all add: failure_def)

lemma failure_of_not_Inr [simp]: "failure_of e \<noteq> Inr x" "Inr x \<noteq> failure_of e"
  by (simp_all add: failure_of_def)

lemma failure_inject [simp]: "failure c m = failure c' m' \<longleftrightarrow> c = c' \<and> m = m'"
  by (simp add: failure_def)

lemma failure_eq_Inl [simp]: "failure c m = Inl e \<longleftrightarrow> e = \<lparr>code = c, message = m\<rparr>"
  by (auto simp: failure_def)

lemma failure_of_eq_Inl [simp]: "failure_of e = Inl e' \<longleftrightarrow> e = e'"
  by (auto simp: failure_of_def)

lemma case_failure_returns [returns]:
  "(case r of Inl e \<Rightarrow> failure_of e | Inr x \<Rightarrow> f x) = Inr y \<longleftrightarrow> (\<exists>x. r = Inr x \<and> f x = Inr y)"
  by (cases r) auto

lemma if_failure_returns [returns]:
  "(if b then failure c m else r) = Inr y \<longleftrightarrow> \<not> b \<and> r = Inr y"
  by simp

lemma option_failure_returns [returns]:
  "(case r of None \<Rightarrow> failure c m | Some x \<Rightarrow> f x) = Inr y \<longleftrightarrow> (\<exists>x. r = Some x \<and> f x = Inr y)"
  by (cases r) auto

text \<open>
  No code of this version has the type \<open>Auth\<close>: the enumerator waits for the master key (the comment
  of \<open>ErrorType\<close>).
\<close>

lemma error_type_not_Auth: "error_type c \<noteq> Auth"
  by (cases c) simp_all

end
