(* ===== verification/Simdjson.thy ===== *)
theory Simdjson
  imports Errors
begin

text \<open>
  simdjson's on-demand parser, as the two parsers of request bodies use it. The library is not part
  of the repository: it is a parameter, a record of the operations the code calls on the library's
  handles (type \<open>'h\<close>: a document, an object, an array, a field or a value). A handle stands for the
  library's own at the position of the input it was made for. The code reads every handle once, in
  the order of the input, and leaves at the first error; so what an operation returns is a function
  of the handle, and a range-for over an array or an object is a list, in which \<open>None\<close> is an error
  the iterator reports. Only an object is read twice: \<open>raw_json()\<close> moves it to its end, so it returns
  the moved object, and \<open>reset()\<close> the rewound one.

  \<open>None\<close> stands for an error code that is not \<open>SUCCESS\<close>. The number \<open>get_double()\<close> reads is not used by
  the program, so only that it was read is kept.

  \<open>reads\<close> says which JSON value a handle gives when every operation on it and below it succeeds.
\<close>

datatype json_type =
    NumberType
  | StringType
  | BooleanType
  | NullType
  | ArrayType
  | ObjectType
  | UnknownType

record 'h simdjson =
  iterate :: "string \<Rightarrow> 'h option"
  document_get_object :: "'h \<Rightarrow> 'h option"
  document_get_array :: "'h \<Rightarrow> 'h option"
  document_at_end :: "'h \<Rightarrow> bool"
  array_elements :: "'h \<Rightarrow> 'h option list"
  object_fields :: "'h \<Rightarrow> 'h option list"
  object_raw_json :: "'h \<Rightarrow> (string \<times> 'h) option"
  object_reset :: "'h \<Rightarrow> 'h option"
  field_unescaped_key :: "'h \<Rightarrow> string option"
  field_value :: "'h \<Rightarrow> 'h"
  value_type :: "'h \<Rightarrow> json_type option"
  value_get_object :: "'h \<Rightarrow> 'h option"
  value_get_array :: "'h \<Rightarrow> 'h option"
  value_get_string :: "'h \<Rightarrow> string option"
  value_get_double :: "'h \<Rightarrow> unit option"
  value_get_bool :: "'h \<Rightarrow> bool option"
  value_is_null :: "'h \<Rightarrow> bool option"

subsection \<open>The JSON value of a handle\<close>

datatype json =
    Number
  | Text string
  | Boolean bool
  | Null
  | Arr "json list"
  | Obj "(string \<times> json) list"

inductive reads :: "'h simdjson \<Rightarrow> 'h \<Rightarrow> json \<Rightarrow> bool" for lib where
  reads_number: "value_type lib v = Some NumberType \<Longrightarrow> value_get_double lib v = Some u \<Longrightarrow> reads lib v Number"
| reads_text: "value_type lib v = Some StringType \<Longrightarrow> value_get_string lib v = Some s \<Longrightarrow> reads lib v (Text s)"
| reads_boolean: "value_type lib v = Some BooleanType \<Longrightarrow> value_get_bool lib v = Some b \<Longrightarrow> reads lib v (Boolean b)"
| reads_null: "value_type lib v = Some NullType \<Longrightarrow> value_is_null lib v = Some True \<Longrightarrow> reads lib v Null"
| reads_array: "value_type lib v = Some ArrayType \<Longrightarrow> value_get_array lib v = Some a \<Longrightarrow>
    list_all2 (\<lambda>e t. \<exists>w. e = Some w \<and> reads lib w t) (array_elements lib a) ts \<Longrightarrow> reads lib v (Arr ts)"
| reads_object: "value_type lib v = Some ObjectType \<Longrightarrow> value_get_object lib v = Some obj \<Longrightarrow>
    list_all2 (\<lambda>f m. \<exists>w. f = Some w \<and> field_unescaped_key lib w = Some (fst m)
        \<and> reads lib (field_value lib w) (snd m)) (object_fields lib obj) ms \<Longrightarrow> reads lib v (Obj ms)"

inductive_cases reads_arrE: "reads lib v (Arr ts)"
inductive_cases reads_objE: "reads lib v (Obj ms)"
inductive_simps reads_iff: "reads lib v t"
inductive_simps reads_text_iff: "reads lib v (Text x)"

lemma reads_not_text:
  assumes "reads lib v t" and "\<not> (\<exists>x. t = Text x)"
  obtains type where "value_type lib v = Some type" "type \<noteq> StringType"
  using assms by (cases rule: reads.cases) auto

definition reads_element :: "'h simdjson \<Rightarrow> 'h option \<Rightarrow> json \<Rightarrow> bool" where
  "reads_element lib e t \<longleftrightarrow> (\<exists>w. e = Some w \<and> reads lib w t)"

definition reads_member :: "'h simdjson \<Rightarrow> 'h option \<Rightarrow> string \<times> json \<Rightarrow> bool" where
  "reads_member lib f m \<longleftrightarrow> (\<exists>w. f = Some w \<and> field_unescaped_key lib w = Some (fst m)
     \<and> reads lib (field_value lib w) (snd m))"

lemma reads_simps:
  "value_type lib v = Some NumberType \<Longrightarrow> reads lib v t \<longleftrightarrow> t = Number \<and> value_get_double lib v \<noteq> None"
  "value_type lib v = Some StringType \<Longrightarrow> reads lib v t \<longleftrightarrow> (\<exists>s. t = Text s \<and> value_get_string lib v = Some s)"
  "value_type lib v = Some BooleanType \<Longrightarrow> reads lib v t \<longleftrightarrow> (\<exists>b. t = Boolean b \<and> value_get_bool lib v = Some b)"
  "value_type lib v = Some NullType \<Longrightarrow> reads lib v t \<longleftrightarrow> t = Null \<and> value_is_null lib v = Some True"
  "value_type lib v = Some ArrayType \<Longrightarrow> reads lib v t \<longleftrightarrow>
     (\<exists>a ts. t = Arr ts \<and> value_get_array lib v = Some a \<and> list_all2 (reads_element lib) (array_elements lib a) ts)"
  "value_type lib v = Some ObjectType \<Longrightarrow> reads lib v t \<longleftrightarrow>
     (\<exists>obj ms. t = Obj ms \<and> value_get_object lib v = Some obj
        \<and> list_all2 (reads_member lib) (object_fields lib obj) ms)"
  "value_type lib v = Some UnknownType \<Longrightarrow> \<not> reads lib v t"
  "value_type lib v = None \<Longrightarrow> \<not> reads lib v t"
  by (auto simp: reads_iff [of lib v] reads_element_def [abs_def] reads_member_def [abs_def])

text \<open>How many levels of values there are: 1 for a value with nothing inside.\<close>

fun nesting :: "json \<Rightarrow> nat" where
  "nesting (Arr ts) = Suc (foldr max (map nesting ts) 0)"
| "nesting (Obj ms) = Suc (foldr max (map (\<lambda>m. nesting (snd m)) ms) 0)"
| "nesting t = 1"

lemma add_foldr_max_le:
  "d + foldr max (map f xs) 0 \<le> (k :: nat) \<longleftrightarrow> d \<le> k \<and> list_all (\<lambda>x. d + f x \<le> k) xs"
  by (induction xs) (auto simp: max_def)

lemma nesting_pos [simp]: "0 < nesting t" "nesting t \<noteq> 0"
  by (cases t; simp)+

end
