(* ===== verification/Json_String.thy ===== *)
theory Json_String
  imports Cpp_Std
begin

unbundle bit_operations_syntax

text \<open>
  \<open>src/adapters/http/json_string.cpp\<close>: a string quoted and escaped as JSON. The functions append to
  \<open>out\<close>, as the code does. \<open>read_json_string\<close> is the other direction, the string of RFC 8259 section 7
  restricted to the escapes of ASCII characters (a \<open>\u\<close> escape beyond is refused, the encoder writes
  none): the reference the encoder is checked against.
\<close>

definition HexDigits :: string where
  "HexDigits = ''0123456789abcdef''"

definition FirstUnescapedByte :: nat where
  "FirstUnescapedByte = 0x20"

definition append_unicode_escape :: "string \<Rightarrow> nat \<Rightarrow> string" where
  "append_unicode_escape out byte =
     out @ [CHR 0x5C, CHR ''u'', CHR ''0'', CHR ''0'']
         @ [HexDigits ! drop_bit 4 byte] @ [HexDigits ! (byte AND 0x0F)]"

definition append_escaped :: "string \<Rightarrow> char \<Rightarrow> string" where
  "append_escaped out character =
     (if character = CHR 0x22 then out @ [CHR 0x5C, CHR 0x22]
      else if character = CHR 0x5C then out @ [CHR 0x5C, CHR 0x5C]
      else if character = CHR 0x08 then out @ [CHR 0x5C, CHR ''b'']
      else if character = CHR 0x0C then out @ [CHR 0x5C, CHR ''f'']
      else if character = CHR 0x0A then out @ [CHR 0x5C, CHR ''n'']
      else if character = CHR 0x0D then out @ [CHR 0x5C, CHR ''r'']
      else if character = CHR 0x09 then out @ [CHR 0x5C, CHR ''t'']
      else let byte = of_char character
           in if byte < FirstUnescapedByte then append_unicode_escape out byte
              else out @ [character])"

definition append_json_string :: "string \<Rightarrow> string \<Rightarrow> string" where
  "append_json_string out value = foldl append_escaped (out @ [CHR 0x22]) value @ [CHR 0x22]"

subsection \<open>Appending is concatenation\<close>

definition escape_char :: "char \<Rightarrow> string" where
  "escape_char c = append_escaped [] c"

definition json_string :: "string \<Rightarrow> string" where
  "json_string value = [CHR 0x22] @ concat (map escape_char value) @ [CHR 0x22]"

lemma append_escaped_append: "append_escaped out c = out @ escape_char c"
  by (simp add: escape_char_def append_escaped_def append_unicode_escape_def Let_def)

lemma foldl_append_escaped: "foldl append_escaped out v = out @ concat (map escape_char v)"
  by (induction v arbitrary: out) (simp_all add: append_escaped_append)

lemma append_json_string_append: "append_json_string out value = out @ json_string value"
  by (simp add: append_json_string_def json_string_def foldl_append_escaped)

subsection \<open>The reader\<close>

definition hex_value :: "char \<Rightarrow> nat option" where
  "hex_value c =
     (if is_digit c then Some (of_char c - 48)
      else if CHR ''a'' \<le> c \<and> c \<le> CHR ''f'' then Some (of_char c - 87)
      else if CHR ''A'' \<le> c \<and> c \<le> CHR ''F'' then Some (of_char c - 55)
      else None)"

definition short_escape :: "char \<Rightarrow> char option" where
  "short_escape c =
     map_of [(CHR 0x22, CHR 0x22), (CHR 0x5C, CHR 0x5C), (CHR ''/'', CHR ''/''), (CHR ''b'', CHR 0x08),
             (CHR ''f'', CHR 0x0C), (CHR ''n'', CHR 0x0A), (CHR ''r'', CHR 0x0D), (CHR ''t'', CHR 0x09)] c"

text \<open>One character of a string, and what is left; \<open>None\<close> where no character of a string can stand.\<close>

definition unicode_escape :: "char \<Rightarrow> char \<Rightarrow> char \<Rightarrow> char \<Rightarrow> char option" where
  "unicode_escape a b c d =
     (case (hex_value a, hex_value b, hex_value c, hex_value d) of
        (Some p, Some q, Some r, Some s) \<Rightarrow>
          (let n = ((p * 16 + q) * 16 + r) * 16 + s
           in if n < 128 then Some (char_of n) else None)
      | _ \<Rightarrow> None)"

fun read_char :: "string \<Rightarrow> (char \<times> string) option" where
  "read_char [] = None"
| "read_char (c # s) =
     (if c = CHR 0x22 \<or> of_char c < (32 :: nat) then None
      else if c \<noteq> CHR 0x5C then Some (c, s)
      else (case s of
          [] \<Rightarrow> None
        | x # s1 \<Rightarrow>
            if x \<noteq> CHR ''u'' then map_option (\<lambda>y. (y, s1)) (short_escape x)
            else (case s1 of
                a # b # d # e # s2 \<Rightarrow> map_option (\<lambda>y. (y, s2)) (unicode_escape a b d e)
              | _ \<Rightarrow> None)))"

lemma read_char_shorter: "read_char s = Some (c, rest) \<Longrightarrow> length rest < length s"
  by (cases s) (auto split: if_splits list.splits option.splits)

function read_chars :: "string \<Rightarrow> (string \<times> string) option" where
  "read_chars s =
     (if s \<noteq> [] \<and> hd s = CHR 0x22 then Some ([], tl s)
      else (case read_char s of
          None \<Rightarrow> None
        | Some (c, rest) \<Rightarrow> map_option (\<lambda>(value, after). (c # value, after)) (read_chars rest)))"
  by pat_completeness auto
termination
  by (relation "measure length") (auto intro: read_char_shorter)

declare read_chars.simps [simp del]

definition read_json_string :: "string \<Rightarrow> (string \<times> string) option" where
  "read_json_string s = (if s \<noteq> [] \<and> hd s = CHR 0x22 then read_chars (tl s) else None)"

subsection \<open>Reading back what was written\<close>

lemma hex_value_HexDigits: "n < 16 \<Longrightarrow> hex_value (HexDigits ! n) = Some n"
proof -
  have "\<forall>n \<in> set [0..<16]. hex_value (HexDigits ! n) = Some n"
    by code_simp
  then show "n < 16 \<Longrightarrow> hex_value (HexDigits ! n) = Some n" by simp
qed

lemma nibbles:
  fixes n :: nat
  assumes "n < 256"
  shows "drop_bit 4 n < 16" and "n AND 15 < 16" and "drop_bit 4 n * 16 + (n AND 15) = n"
proof -
  have low: "n AND 15 = n mod 16"
    using take_bit_eq_mask [of 4 n] by (simp add: take_bit_eq_mod mask_eq_exp_minus_1)
  have high: "drop_bit 4 n = n div 16"
    by (simp add: drop_bit_eq_div)
  show "drop_bit 4 n < 16" using assms by (simp add: high less_mult_imp_div_less)
  show "n AND 15 < 16" by (simp add: low)
  show "drop_bit 4 n * 16 + (n AND 15) = n" by (simp add: low high)
qed

lemma unicode_escape_of_byte:
  assumes "n < 128"
  shows "unicode_escape (CHR ''0'') (CHR ''0'') (HexDigits ! drop_bit 4 n) (HexDigits ! (n AND 15))
    = Some (char_of n)"
proof -
  have zero: "hex_value (CHR ''0'') = Some 0" by code_simp
  show ?thesis
    using nibbles [of n] assms
    by (simp add: unicode_escape_def zero hex_value_HexDigits Let_def)
qed

lemma read_char_escape: "read_char (escape_char c @ rest) = Some (c, rest)"
proof -
  have short: "short_escape (CHR 0x22) = Some (CHR 0x22)" "short_escape (CHR 0x5C) = Some (CHR 0x5C)"
    "short_escape (CHR ''b'') = Some (CHR 0x08)" "short_escape (CHR ''f'') = Some (CHR 0x0C)"
    "short_escape (CHR ''n'') = Some (CHR 0x0A)" "short_escape (CHR ''r'') = Some (CHR 0x0D)"
    "short_escape (CHR ''t'') = Some (CHR 0x09)"
    by (simp_all add: short_escape_def)
  consider "c \<in> {CHR 0x22, CHR 0x5C, CHR 0x08, CHR 0x0C, CHR 0x0A, CHR 0x0D, CHR 0x09}"
    | (plain) "c \<notin> {CHR 0x22, CHR 0x5C, CHR 0x08, CHR 0x0C, CHR 0x0A, CHR 0x0D, CHR 0x09}"
    by blast
  then show ?thesis
  proof cases
    case 1
    then show ?thesis by (auto simp: escape_char_def append_escaped_def short)
  next
    case plain
    then show ?thesis
      by (auto simp: escape_char_def append_escaped_def append_unicode_escape_def Let_def
          FirstUnescapedByte_def unicode_escape_of_byte)
  qed
qed

lemma escape_char_not_quote: "escape_char c \<noteq> [] \<and> hd (escape_char c) \<noteq> CHR 0x22"
  by (auto simp: escape_char_def append_escaped_def append_unicode_escape_def Let_def)

lemma read_chars_escaped:
  "read_chars (concat (map escape_char v) @ CHR 0x22 # rest) = Some (v, rest)"
proof (induction v)
  case Nil
  show ?case by (simp add: read_chars.simps)
next
  case (Cons c v)
  let ?tail = "concat (map escape_char v) @ CHR 0x22 # rest"
  have "hd (escape_char c @ ?tail) \<noteq> CHR 0x22"
    using escape_char_not_quote [of c] by (simp add: hd_append)
  then show ?case
    using Cons.IH read_char_escape [of c ?tail]
    by (subst read_chars.simps) simp
qed

lemma read_json_string_json_string [wire]:
  "read_json_string (json_string v @ rest) = Some (v, rest)"
  by (simp add: read_json_string_def json_string_def read_chars_escaped)

lemma hd_json_string [simp]: "hd (json_string v) = CHR 0x22" "json_string v \<noteq> []"
  by (simp_all add: json_string_def)

text \<open>What an encoded string is made of: no control character, nothing that could end a line.\<close>

lemma escape_char_forms:
  obtains (plain) "escape_char c = [c]" "32 \<le> (of_char c :: nat)"
    | (short) x where "escape_char c = [CHR 0x5C, x]"
        "x \<in> {CHR 0x22, CHR 0x5C, CHR ''b'', CHR ''f'', CHR ''n'', CHR ''r'', CHR ''t''}"
    | (control) "escape_char c = append_unicode_escape [] (of_char c)" "(of_char c :: nat) < 32"
proof (cases "c \<in> {CHR 0x22, CHR 0x5C, CHR 0x08, CHR 0x0C, CHR 0x0A, CHR 0x0D, CHR 0x09}")
  case True
  then have "\<exists>x. escape_char c = [CHR 0x5C, x] \<and>
      x \<in> {CHR 0x22, CHR 0x5C, CHR ''b'', CHR ''f'', CHR ''n'', CHR ''r'', CHR ''t''}"
    by (elim insertE emptyE) (simp_all add: escape_char_def append_escaped_def)
  with short show thesis by blast
next
  case False
  then have form: "escape_char c =
      (if of_char c < (32 :: nat) then append_unicode_escape [] (of_char c) else [c])"
    by (simp add: escape_char_def append_escaped_def Let_def FirstUnescapedByte_def)
  show thesis
  proof (cases "(of_char c :: nat) < 32")
    case True
    with form control show thesis by simp
  next
    case False
    with form plain show thesis by simp
  qed
qed

lemma HexDigits_printable: "n < 16 \<Longrightarrow> 32 \<le> (of_char (HexDigits ! n) :: nat)"
proof -
  have "\<forall>n \<in> set [0..<16]. 32 \<le> (of_char (HexDigits ! n) :: nat)" by code_simp
  then show "n < 16 \<Longrightarrow> 32 \<le> (of_char (HexDigits ! n) :: nat)" by simp
qed

lemma escape_char_printable:
  assumes "d \<in> set (escape_char c)"
  shows "32 \<le> (of_char d :: nat)"
proof (cases c rule: escape_char_forms)
  case plain
  with assms show ?thesis by simp
next
  case (short x)
  with assms show ?thesis by auto
next
  case control
  with nibbles [of "of_char c"] assms show ?thesis
    by (auto simp: append_unicode_escape_def HexDigits_printable)
qed

lemma json_string_printable: "d \<in> set (json_string v) \<Longrightarrow> 32 \<le> (of_char d :: nat)"
  by (auto simp: json_string_def dest: escape_char_printable)

subsection \<open>Property\<close>

text \<open>
  C31. \<open>append_json_string\<close> leaves what \<open>out\<close> holds, and appends one JSON string that an RFC 8259
  reader reads back as exactly the bytes given, whatever follows it; the text appended holds no
  control character.
\<close>

theorem append_json_string_round_trip:
  "take (length out) (append_json_string out v) = out
   \<and> read_json_string (drop (length out) (append_json_string out v) @ rest) = Some (v, rest)
   \<and> list_all (\<lambda>c. 32 \<le> (of_char c :: nat)) (drop (length out) (append_json_string out v))"
  by (simp add: append_json_string_append wire list_all_iff json_string_printable)

end
