(* ===== verification/Text_Reader.thy ===== *)
theory Text_Reader
  imports Simdjson Json_String
begin

text \<open>
  A JSON reader to put in the place of the library where a concrete one is needed. It reads a body
  by recursive descent (RFC 8259) when \<open>iterate\<close> is called and hands out what it read; a body that is
  not JSON it refuses at once, which is one of the behaviours the library may show. The \<open>fuel\<close> of the
  descent is the length of the body: every step consumes a character. It stands for no code of the
  program.
\<close>

datatype text_value =
    VNumber
  | VString string
  | VBoolean bool
  | VNull
  | VArray "text_value list"
  | VObject string "(string \<times> text_value) list"  \<comment> \<open>with the text it was read from\<close>

datatype text_handle =
    AtDocument text_value string  \<comment> \<open>the value and what follows it\<close>
  | AtValue text_value
  | AtField string text_value
  | AtEnd text_value              \<comment> \<open>an object that was read through\<close>

definition is_json_space :: "char \<Rightarrow> bool" where
  "is_json_space c \<longleftrightarrow> c \<in> set [CHR '' '', CHR 0x09, CHR 0x0A, CHR 0x0D]"

definition skip :: "string \<Rightarrow> string" where
  "skip s = dropWhile is_json_space s"

definition is_number_character :: "char \<Rightarrow> bool" where
  "is_number_character c \<longleftrightarrow> is_digit c \<or> c \<in> set ''+-.eE''"

fun read_value :: "nat \<Rightarrow> string \<Rightarrow> (text_value \<times> string) option"
  and read_elements :: "nat \<Rightarrow> string \<Rightarrow> (text_value list \<times> string) option"
  and read_members :: "nat \<Rightarrow> string \<Rightarrow> ((string \<times> text_value) list \<times> string) option" where
  "read_value 0 s = None"
| "read_value (Suc fuel) s =
     (case s of
        [] \<Rightarrow> None
      | c # rest \<Rightarrow>
          if c = CHR 0x22 then map_option (\<lambda>(v, after). (VString v, after)) (read_json_string s)
          else if take 4 s = ''null'' then Some (VNull, drop 4 s)
          else if take 4 s = ''true'' then Some (VBoolean True, drop 4 s)
          else if take 5 s = ''false'' then Some (VBoolean False, drop 5 s)
          else if is_number_character c then Some (VNumber, dropWhile is_number_character s)
          else if c = CHR ''['' then
            (if take 1 (skip rest) = '']'' then Some (VArray [], drop 1 (skip rest))
             else map_option (\<lambda>(es, after). (VArray es, after)) (read_elements fuel rest))
          else if c = CHR ''{'' then
            (if take 1 (skip rest) = ''}''
             then Some (VObject (take (Suc (length s - length (skip rest))) s) [], drop 1 (skip rest))
             else map_option (\<lambda>(ms, after). (VObject (take (length s - length after) s) ms, after))
                    (read_members fuel rest))
          else None)"
| "read_elements 0 s = None"
| "read_elements (Suc fuel) s =
     (case read_value fuel (skip s) of
        None \<Rightarrow> None
      | Some (v, after) \<Rightarrow>
          if take 1 (skip after) = '','' then
            map_option (\<lambda>(es, rest). (v # es, rest)) (read_elements fuel (drop 1 (skip after)))
          else if take 1 (skip after) = '']'' then Some ([v], drop 1 (skip after))
          else None)"
| "read_members 0 s = None"
| "read_members (Suc fuel) s =
     (case read_json_string (skip s) of
        None \<Rightarrow> None
      | Some (key, colon) \<Rightarrow>
          if take 1 (skip colon) = '':'' then
            (case read_value fuel (skip (drop 1 (skip colon))) of
               None \<Rightarrow> None
             | Some (v, after) \<Rightarrow>
                 if take 1 (skip after) = '','' then
                   map_option (\<lambda>(ms, rest). ((key, v) # ms, rest)) (read_members fuel (drop 1 (skip after)))
                 else if take 1 (skip after) = ''}'' then Some ([(key, v)], drop 1 (skip after))
                 else None)
          else None)"

fun type_of_value :: "text_value \<Rightarrow> json_type" where
  "type_of_value VNumber = NumberType"
| "type_of_value (VString s) = StringType"
| "type_of_value (VBoolean b) = BooleanType"
| "type_of_value VNull = NullType"
| "type_of_value (VArray es) = ArrayType"
| "type_of_value (VObject raw ms) = ObjectType"

fun value_at :: "text_handle \<Rightarrow> text_value" where
  "value_at (AtDocument v rest) = v"
| "value_at (AtValue v) = v"
| "value_at (AtField key v) = v"
| "value_at (AtEnd v) = v"

definition text_reader :: "text_handle simdjson" where
  "text_reader =
     \<lparr>iterate = (\<lambda>text. map_option (\<lambda>(v, rest). AtDocument v (skip rest))
         (read_value (Suc (length text)) (skip text))),
      document_get_object = (\<lambda>h. case value_at h of VObject raw ms \<Rightarrow> Some (AtValue (value_at h)) | _ \<Rightarrow> None),
      document_get_array = (\<lambda>h. case value_at h of VArray es \<Rightarrow> Some (AtValue (value_at h)) | _ \<Rightarrow> None),
      document_at_end = (\<lambda>h. case h of AtDocument v rest \<Rightarrow> rest = [] | _ \<Rightarrow> False),
      array_elements = (\<lambda>h. case value_at h of VArray es \<Rightarrow> map (\<lambda>e. Some (AtValue e)) es | _ \<Rightarrow> []),
      object_fields = (\<lambda>h. case h of AtValue (VObject raw ms) \<Rightarrow> map (\<lambda>(k, v). Some (AtField k v)) ms | _ \<Rightarrow> []),
      object_raw_json = (\<lambda>h. case h of AtValue (VObject raw ms) \<Rightarrow> Some (raw, AtEnd (VObject raw ms)) | _ \<Rightarrow> None),
      object_reset = (\<lambda>h. case h of AtEnd v \<Rightarrow> Some (AtValue v) | _ \<Rightarrow> None),
      field_unescaped_key = (\<lambda>h. case h of AtField key v \<Rightarrow> Some key | _ \<Rightarrow> None),
      field_value = (\<lambda>h. AtValue (value_at h)),
      value_type = (\<lambda>h. Some (type_of_value (value_at h))),
      value_get_object = (\<lambda>h. case value_at h of VObject raw ms \<Rightarrow> Some (AtValue (value_at h)) | _ \<Rightarrow> None),
      value_get_array = (\<lambda>h. case value_at h of VArray es \<Rightarrow> Some (AtValue (value_at h)) | _ \<Rightarrow> None),
      value_get_string = (\<lambda>h. case value_at h of VString s \<Rightarrow> Some s | _ \<Rightarrow> None),
      value_get_double = (\<lambda>h. case value_at h of VNumber \<Rightarrow> Some () | _ \<Rightarrow> None),
      value_get_bool = (\<lambda>h. case value_at h of VBoolean b \<Rightarrow> Some b | _ \<Rightarrow> None),
      value_is_null = (\<lambda>h. Some (value_at h = VNull))\<rparr>"

end
