(* ===== verification/Http_Port.thy ===== *)
theory Http_Port
  imports Errors
begin

text \<open>
  \<open>src/application/http_server.hpp\<close>: the HTTP server port. A handler may change the state of the
  services it refers to (the type \<open>'w\<close>) and may throw, so it is a function of the request and that
  state to an exception or a response, with the new state.
\<close>

datatype HttpMethod = Get | Post

record PathParameter =
  name :: string
  val :: string

record HttpRequest =
  request_method :: HttpMethod
  path :: string
  path_parameters :: "PathParameter list"
  request_body :: string
  request_id :: string

record HttpResponse =
  status :: int
  body :: string

type_synonym 'w handler = "HttpRequest \<Rightarrow> 'w \<Rightarrow> (cpp_exception + HttpResponse) \<times> 'w"

definition path_parameter :: "HttpRequest \<Rightarrow> string \<Rightarrow> string" where
  "path_parameter request wanted =
     (case find (\<lambda>p. name p = wanted) (path_parameters request) of
        None \<Rightarrow> [] | Some found \<Rightarrow> val found)"

record HttpServerOptions =
  worker_threads :: nat
  max_body_bytes :: nat
  read_timeout :: int
  write_timeout :: int

definition default_options :: HttpServerOptions where
  "default_options =
     \<lparr>worker_threads = 64, max_body_bytes = 20 * 1024 * 1024, read_timeout = 30, write_timeout = 30\<rparr>"

text \<open>
  The port itself: a server object is a value of type \<open>'s\<close>, and the operations of the class are the
  fields. \<open>run\<close> may throw, where its workers cannot be started. \<open>stop\<close>, which makes a \<open>run\<close> on another thread return, has no part in what a call computes.
  \<open>http_server_port\<close> is what a client of the port may rely on: a route it added is served, whatever is
  added after it, and \<open>stop\<close> takes no route away from the workers that are still answering.
\<close>

record ('s, 'w) http_server =
  port_add_route :: "'s \<Rightarrow> HttpMethod \<Rightarrow> string \<Rightarrow> 'w handler \<Rightarrow> 's"
  port_bind :: "'s \<Rightarrow> string \<Rightarrow> 16 word \<Rightarrow> 16 word result"
  port_run :: "'s \<Rightarrow> cpp_exception + unit result"
  port_stop :: "'s \<Rightarrow> 's"

locale http_server_port =
  fixes http :: "('s, 'w) http_server"
    and serves :: "'s \<Rightarrow> HttpMethod \<Rightarrow> string \<Rightarrow> 'w handler \<Rightarrow> bool"
  assumes serves_added: "serves (port_add_route http s verb path_text h) verb path_text h"
    and serves_kept: "serves s verb path_text h \<Longrightarrow> serves (port_add_route http s verb' path_text' h') verb path_text h"
    and serves_stopped: "serves s verb path_text h \<Longrightarrow> serves (port_stop http s) verb path_text h"
begin

lemma serves_after:
  "serves s verb path_text h \<Longrightarrow>
   serves (fold (\<lambda>(v, t, g) s. port_add_route http s v t g) routes s) verb path_text h"
  by (induction routes arbitrary: s) (auto intro: serves_kept)

lemma serves_all:
  "(verb, path_text, h) \<in> set routes \<Longrightarrow>
   serves (fold (\<lambda>(v, t, g) s. port_add_route http s v t g) routes s) verb path_text h"
  by (induction routes arbitrary: s) (auto intro: serves_added serves_after)

end

lemma path_parameter_found:
  assumes "distinct (map name (path_parameters request))" and "p \<in> set (path_parameters request)"
  shows "path_parameter request (name p) = val p"
proof -
  have "find (\<lambda>q. name q = name p) ps = Some p" if "distinct (map name ps)" "p \<in> set ps" for ps
    using that by (induction ps) (auto simp: rev_image_eqI)
  from this [OF assms] show ?thesis by (simp add: path_parameter_def)
qed

lemma path_parameter_undeclared:
  "wanted \<notin> name ` set (path_parameters request) \<Longrightarrow> path_parameter request wanted = []"
  by (auto simp: path_parameter_def find_Some_iff image_iff split: option.splits)

end
