(* ===== verification/Wire.thy ===== *)
theory Wire
  imports Json_String
begin

text \<open>
  The specification of a response body: a JSON object of RFC 8259 whose members are strings,
  integers or null, written without whitespace. \<open>read_object\<close> reads the bytes of one and returns its
  members in order; \<open>render_object\<close> says which bytes stand for which members. Every body the program
  writes is shown to be a rendering, so that reading it gives exactly the values put in. Nothing here
  models code.
\<close>

datatype json_scalar =
    JString string
  | JInt int
  | JNull

type_synonym member = "string \<times> json_scalar"

fun render_scalar :: "json_scalar \<Rightarrow> string" where
  "render_scalar (JString s) = json_string s"
| "render_scalar (JInt i) = to_string_int i"
| "render_scalar JNull = ''null''"

definition render_member :: "member \<Rightarrow> string" where
  "render_member m = json_string (fst m) @ '':'' @ render_scalar (snd m)"

fun render_members :: "member list \<Rightarrow> string" where
  "render_members [] = ''}''"
| "render_members [m] = render_member m @ ''}''"
| "render_members (m # n # ms) = render_member m @ '','' @ render_members (n # ms)"

definition render_object :: "member list \<Rightarrow> string" where
  "render_object ms = ''{'' @ render_members ms"

subsection \<open>The reader\<close>

text \<open>An integer: a minus sign or none, and digits that do not start with a needless zero.\<close>

definition read_digits :: "string \<Rightarrow> (nat \<times> string) option" where
  "read_digits s =
     (let ds = takeWhile is_digit s
      in if ds = [] \<or> (hd ds = CHR ''0'' \<and> ds \<noteq> ''0'') then None
         else Some (decimal_value ds, dropWhile is_digit s))"

definition read_scalar :: "string \<Rightarrow> (json_scalar \<times> string) option" where
  "read_scalar s =
     (if s = [] then None
      else if hd s = CHR 0x22 then map_option (\<lambda>(v, rest). (JString v, rest)) (read_json_string s)
      else if take 4 s = ''null'' then Some (JNull, drop 4 s)
      else if hd s = CHR ''-''
        then map_option (\<lambda>(n, rest). (JInt (- int n), rest)) (read_digits (tl s))
      else map_option (\<lambda>(n, rest). (JInt (int n), rest)) (read_digits s))"

definition read_member :: "string \<Rightarrow> (member \<times> string) option" where
  "read_member s =
     (case read_json_string s of
        None \<Rightarrow> None
      | Some (key, rest) \<Rightarrow>
          if rest \<noteq> [] \<and> hd rest = CHR '':''
          then map_option (\<lambda>(v, after). ((key, v), after)) (read_scalar (tl rest))
          else None)"

text \<open>The members after the opening brace; \<open>fuel\<close> bounds their number.\<close>

fun read_members :: "nat \<Rightarrow> string \<Rightarrow> (member list \<times> string) option" where
  "read_members 0 s = None"
| "read_members (Suc fuel) s =
     (case read_member s of
        None \<Rightarrow> None
      | Some (m, rest) \<Rightarrow>
          if rest \<noteq> [] \<and> hd rest = CHR '','' then
            map_option (\<lambda>(ms, after). (m # ms, after)) (read_members fuel (tl rest))
          else if rest \<noteq> [] \<and> hd rest = CHR ''}'' then Some ([m], tl rest)
          else None)"

definition read_object :: "string \<Rightarrow> member list option" where
  "read_object s =
     (if s = ''{}'' then Some []
      else if s \<noteq> [] \<and> hd s = CHR ''{'' then
        (case read_members (length s) (tl s) of
           Some (ms, []) \<Rightarrow> Some ms
         | _ \<Rightarrow> None)
      else None)"

subsection \<open>Reading a rendering\<close>

definition no_digit_next :: "string \<Rightarrow> bool" where
  "no_digit_next rest \<longleftrightarrow> rest = [] \<or> \<not> is_digit (hd rest)"

lemma takeWhile_digits:
  assumes "list_all is_digit ds" and "no_digit_next rest"
  shows "takeWhile is_digit (ds @ rest) = ds" and "dropWhile is_digit (ds @ rest) = rest"
proof -
  have "takeWhile is_digit rest = []" and "dropWhile is_digit rest = rest"
    using assms(2) by (cases rest; simp add: no_digit_next_def)+
  with assms(1) show "takeWhile is_digit (ds @ rest) = ds" "dropWhile is_digit (ds @ rest) = rest"
    by (simp_all add: list_all_iff takeWhile_append2 dropWhile_append2)
qed

lemma to_string_no_leading_zero: "0 < n \<Longrightarrow> hd (to_string n) \<noteq> CHR ''0''"
proof (induction n rule: to_string.induct)
  case (1 n)
  show ?case
  proof (cases "n < 10")
    case True
    have "(of_char (digit_char n) :: nat) \<noteq> of_char (CHR ''0'')"
      using "1.prems" True by simp
    then have "digit_char n \<noteq> CHR ''0''" by (rule contrapos_nn) simp
    with True show ?thesis by (simp add: to_string_small)
  next
    case False
    with "1.IH" show ?thesis by (simp add: to_string_step)
  qed
qed

lemma to_string_0 [simp]: "to_string 0 = ''0''"
  by (simp add: to_string_small digit_char_def) code_simp

lemma read_digits_to_string:
  assumes "no_digit_next rest"
  shows "read_digits (to_string n @ rest) = Some (n, rest)"
proof -
  have "\<not> (hd (to_string n) = CHR ''0'' \<and> to_string n \<noteq> ''0'')"
    using to_string_no_leading_zero [of n] by (cases "n = 0") auto
  then show ?thesis
    using takeWhile_digits [OF to_string_digits [of n] assms]
    by (simp add: read_digits_def Let_def)
qed

lemma hd_to_string_digit: "is_digit (hd (to_string n))"
  using to_string_digits [of n] by (cases "to_string n") auto

lemma is_digit_not_special [simp]:
  "\<not> is_digit (CHR ''-'')" "\<not> is_digit (CHR 0x22)" "\<not> is_digit (CHR ''n'')"
  "\<not> is_digit (CHR '','')" "\<not> is_digit (CHR ''}'')"
  by (simp_all add: is_digit_def less_eq_char_def)

lemma read_scalar_number:
  assumes "no_digit_next rest"
  shows "read_scalar (to_string n @ rest) = Some (JInt (int n), rest)"
proof -
  have hd: "hd (to_string n @ rest) = hd (to_string n)" by simp
  have digit: "is_digit (hd (to_string n))" by (rule hd_to_string_digit)
  have "take 4 (to_string n @ rest) \<noteq> ''null''"
  proof
    assume "take 4 (to_string n @ rest) = ''null''"
    then have "hd (take 4 (to_string n @ rest)) = CHR ''n''" by simp
    with hd digit show False by (simp add: hd_take)
  qed
  moreover have "hd (to_string n) \<noteq> CHR 0x22" "hd (to_string n) \<noteq> CHR ''-''"
    using digit by auto
  ultimately show ?thesis
    by (simp add: read_scalar_def hd read_digits_to_string [OF assms])
qed

lemma read_scalar_render [wire]:
  assumes "no_digit_next rest"
  shows "read_scalar (render_scalar v @ rest) = Some (v, rest)"
proof (cases v)
  case (JString s)
  then show ?thesis by (simp add: read_scalar_def wire)
next
  case (JInt i)
  show ?thesis
  proof (cases "i < 0")
    case True
    have "read_scalar (''-'' @ to_string (nat (- i)) @ rest) = Some (JInt i, rest)"
      using True by (simp add: read_scalar_def read_digits_to_string [OF assms])
    with JInt True show ?thesis by (simp add: to_string_int_def)
  next
    case False
    with JInt show ?thesis by (simp add: to_string_int_def read_scalar_number [OF assms])
  qed
next
  case JNull
  then show ?thesis by (simp add: read_scalar_def)
qed

lemma read_member_render [wire]:
  "no_digit_next rest \<Longrightarrow> read_member (render_member m @ rest) = Some (m, rest)"
  by (cases m) (simp add: read_member_def render_member_def wire)

lemma read_members_render:
  "ms \<noteq> [] \<Longrightarrow> length ms \<le> fuel \<Longrightarrow> read_members fuel (render_members ms @ rest) = Some (ms, rest)"
proof (induction ms arbitrary: fuel rule: render_members.induct)
  case 1
  then show ?case by simp
next
  case (2 m)
  then obtain f where "fuel = Suc f" by (cases fuel) auto
  then show ?case by (simp add: wire no_digit_next_def)
next
  case (3 m n ms)
  then obtain f where f: "fuel = Suc f" by (cases fuel) auto
  with "3.prems" have "read_members f (render_members (n # ms) @ rest) = Some (n # ms, rest)"
    by (intro "3.IH") auto
  with f show ?case by (simp add: wire no_digit_next_def)
qed

lemma length_render_members: "length ms < length (render_members ms)"
  by (induction ms rule: render_members.induct)
    (simp_all add: render_member_def json_string_def)

lemma render_members_not_close: "render_members (m # ms) \<noteq> ''}''"
proof -
  have "length (render_members (m # ms)) \<noteq> length ''}''"
    by (cases ms) (simp_all add: render_member_def json_string_def)
  then show ?thesis by metis
qed

text \<open>A rendering reads as its members.\<close>

lemma read_object_render [wire]: "read_object (render_object ms) = Some ms"
proof (cases ms)
  case Nil
  then show ?thesis by (simp add: read_object_def render_object_def)
next
  case (Cons m ms')
  have "length ms \<le> length (render_object ms)"
    using length_render_members [of ms] by (simp add: render_object_def)
  from read_members_render [OF _ this, of "[]"] Cons
  have "read_members (length (render_object ms)) (render_members ms) = Some (ms, [])" by simp
  with Cons render_members_not_close [of m ms'] show ?thesis
    by (simp add: read_object_def render_object_def)
qed

end
