(* ===== verification/Error_Response.thy ===== *)
theory Error_Response
  imports Http_Port Wire
begin

text \<open>
  \<open>src/adapters/http/error_response.cpp\<close>: the response that stands for an error, and the error that
  stands for a status the HTTP library chose by itself.
\<close>

record WireError =
  wire_code :: string
  wire_status :: int

fun wire_error :: "ErrorCode \<Rightarrow> WireError" where
  "wire_error MalformedRequest = \<lparr>wire_code = ''malformed_request'', wire_status = 400\<rparr>"
| "wire_error PayloadTooLarge = \<lparr>wire_code = ''payload_too_large'', wire_status = 413\<rparr>"
| "wire_error InvalidIndexUid = \<lparr>wire_code = ''invalid_index_uid'', wire_status = 400\<rparr>"
| "wire_error UnknownField = \<lparr>wire_code = ''unknown_field'', wire_status = 400\<rparr>"
| "wire_error IndexAlreadyExists = \<lparr>wire_code = ''index_already_exists'', wire_status = 409\<rparr>"
| "wire_error RouteNotFound = \<lparr>wire_code = ''route_not_found'', wire_status = 404\<rparr>"
| "wire_error Internal = \<lparr>wire_code = ''internal'', wire_status = 500\<rparr>"

fun wire_type :: "ErrorType \<Rightarrow> string" where
  "wire_type InvalidRequest = ''invalid_request''"
| "wire_type Auth = ''auth''"
| "wire_type NotFound = ''not_found''"
| "wire_type InternalType = ''internal''"

definition error_response :: "error \<Rightarrow> HttpResponse" where
  "error_response e =
     (let wire = wire_error (code e);
          opening = ''{\"code\":\"'' @ wire_code wire @ ''\",\"message\":'';
          with_message = append_json_string opening (message e);
          text = with_message @ '',\"type\":\"'' @ wire_type (error_type (code e)) @ ''\"}''
      in \<lparr>status = wire_status wire, body = text\<rparr>)"

definition error_for_library_status :: "int \<Rightarrow> error" where
  "error_for_library_status s =
     (if s = 404 then \<lparr>code = RouteNotFound, message = ''No route matches this method and path.''\<rparr>
      else if s = 413 then \<lparr>code = PayloadTooLarge, message = ''The request exceeds a size limit.''\<rparr>
      else if s \<ge> 500 then \<lparr>code = Internal, message = ''Internal error.''\<rparr>
      else \<lparr>code = MalformedRequest, message = ''The request could not be parsed.''\<rparr>)"

subsection \<open>The body is the object of FR-71\<close>

definition error_members :: "error \<Rightarrow> member list" where
  "error_members e =
     [(''code'', JString (wire_code (wire_error (code e)))),
      (''message'', JString (message e)),
      (''type'', JString (wire_type (error_type (code e))))]"

text \<open>The literals of the code are quoted by hand: none holds a character that would be escaped.\<close>

lemma json_string_wire_code: "json_string (wire_code (wire_error c)) = ''\"'' @ wire_code (wire_error c) @ ''\"''"
  by (cases c) (simp_all add: json_string_def escape_char_def append_escaped_def Let_def FirstUnescapedByte_def)

lemma json_string_wire_type: "json_string (wire_type t) = ''\"'' @ wire_type t @ ''\"''"
  by (cases t) (simp_all add: json_string_def escape_char_def append_escaped_def Let_def FirstUnescapedByte_def)

lemma json_string_error_keys:
  "json_string ''code'' = ''\"code\"''" "json_string ''message'' = ''\"message\"''"
  "json_string ''type'' = ''\"type\"''"
  by (simp_all add: json_string_def escape_char_def append_escaped_def Let_def FirstUnescapedByte_def)

lemma body_error_response: "body (error_response e) = render_object (error_members e)"
  by (simp add: error_response_def Let_def append_json_string_append render_object_def render_member_def
      error_members_def json_string_wire_code json_string_wire_type json_string_error_keys)

lemma status_error_response: "status (error_response e) = wire_status (wire_error (code e))"
  by (simp add: error_response_def Let_def)

lemma wire_code_inject: "wire_code (wire_error c) = wire_code (wire_error c') \<longleftrightarrow> c = c'"
  by (cases c; cases c') simp_all

lemma body_error_response_nonempty: "body (error_response e) \<noteq> []"
  by (simp add: body_error_response render_object_def)

subsection \<open>Properties\<close>

text \<open>Section 6 of the API guide: the status, the code and the type of every error.\<close>

fun api_error :: "ErrorCode \<Rightarrow> int \<times> string \<times> string" where
  "api_error MalformedRequest = (400, ''malformed_request'', ''invalid_request'')"
| "api_error PayloadTooLarge = (413, ''payload_too_large'', ''invalid_request'')"
| "api_error InvalidIndexUid = (400, ''invalid_index_uid'', ''invalid_request'')"
| "api_error UnknownField = (400, ''unknown_field'', ''invalid_request'')"
| "api_error IndexAlreadyExists = (409, ''index_already_exists'', ''invalid_request'')"
| "api_error RouteNotFound = (404, ''route_not_found'', ''not_found'')"
| "api_error Internal = (500, ''internal'', ''internal'')"

lemma api_error_wire:
  "api_error c = (wire_status (wire_error c), wire_code (wire_error c), wire_type (error_type c))"
  by (cases c) simp_all

text \<open>
  C22. FR-71: the body of an error response is a JSON object of exactly the members \<open>code\<close>,
  \<open>message\<close> and \<open>type\<close>; it decodes to the error's own message, byte for byte, and to the code, the
  type and the status that section 6 of the API guide gives the error.
\<close>

theorem error_response_contract:
  "case api_error (code e) of (api_status, api_code, api_type) \<Rightarrow>
     status (error_response e) = api_status
     \<and> read_object (body (error_response e)) =
         Some [(''code'', JString api_code), (''message'', JString (message e)), (''type'', JString api_type)]"
  by (simp add: api_error_wire body_error_response status_error_response wire error_members_def)

text \<open>
  A client can tell any two errors apart: two error responses are equal only when the errors
  are, and their bodies alone already differ when the errors do.
\<close>

theorem error_response_inject:
  "body (error_response e) = body (error_response e') \<longleftrightarrow> e = e'"
proof
  assume "body (error_response e) = body (error_response e')"
  then have "read_object (render_object (error_members e)) = read_object (render_object (error_members e'))"
    by (simp only: body_error_response)
  then have "error_members e = error_members e'" by (simp add: wire)
  then show "e = e'"
    by (intro error.equality) (simp_all add: error_members_def wire_code_inject)
qed simp

end
