(* ===== verification/Tokenizer.thy ===== *)
theory Tokenizer
  imports Cpp_Std
begin

text \<open>
  \<open>src/core/whitespace_tokenizer.cpp\<close>: the runs of characters between ASCII whitespace. The loop
  of \<open>split_on_whitespace\<close> over positions is \<open>split_loop\<close>; \<open>words\<close> is the reference it is
  compared with, and \<open>weave\<close> puts words and the separators between them back together.
\<close>

definition AsciiWhitespace :: string where
  "AsciiWhitespace = [CHR '' '', CHR 0x09, CHR 0x0A, CHR 0x0B, CHR 0x0C, CHR 0x0D]"

definition is_ascii_space :: "char \<Rightarrow> bool" where
  "is_ascii_space c \<longleftrightarrow> c \<in> set AsciiWhitespace"

text \<open>
  One run of the \<open>while\<close> body: \<open>start\<close> is \<open>None\<close> when it is \<open>npos\<close>. The length passed to
  \<open>substr\<close> is \<open>end - start\<close>, where an \<open>end\<close> of \<open>npos\<close> is its numeric value.
\<close>

function split_loop :: "string \<Rightarrow> nat option \<Rightarrow> string list \<Rightarrow> string list" where
  "split_loop text None words_so_far = words_so_far"
| "split_loop text (Some start) words_so_far =
     (let stop = find_first_of text AsciiWhitespace (Some start);
          word = substr text start (pos_value stop - start)
      in split_loop text (find_first_not_of text AsciiWhitespace stop) (words_so_far @ [word]))"
  by pat_completeness auto

text \<open>
  The loop ends: the next start lies in the text and after this one, whatever this one was.
\<close>

lemma next_start_later:
  assumes "find_first_not_of text chars (find_first_of text chars (Some start)) = Some later"
  shows "start < later" and "later < length text"
proof -
  from assms obtain stop where stop: "find_first_of text chars (Some start) = Some stop"
    by (cases "find_first_of text chars (Some start)") (auto simp: find_first_not_of_def)
  with assms have later: "find_from (\<lambda>c. c \<notin> set chars) text (Some stop) = Some later"
    by (simp add: find_first_not_of_def)
  have at_stop: "find_from (\<lambda>c. c \<in> set chars) text (Some start) = Some stop"
    using stop by (simp add: find_first_of_def)
  show "later < length text" using find_from_bounds(2) [OF later] .
  have "start \<le> stop" "text ! stop \<in> set chars" "stop \<le> later" "text ! later \<notin> set chars"
    using find_from_bounds(1,3) [OF at_stop] find_from_bounds(1,3) [OF later] by auto
  then show "start < later" by (metis le_neq_implies_less le_trans nle_le)
qed

termination split_loop
proof (relation "measure (\<lambda>(view, start, ws).
    case start of None \<Rightarrow> 0 | Some s \<Rightarrow> Suc (length view - s))", goal_cases)
  case 1
  show ?case by simp
next
  case (2 view start ws stop word)
  show ?case
  proof (cases "find_first_not_of view AsciiWhitespace stop")
    case None
    then show ?thesis by simp
  next
    case (Some later)
    have "start < later" and "later < length view"
      using next_start_later Some unfolding "2"(1) by blast+
    then show ?thesis by (simp add: Some diff_less_mono2)
  qed
qed

declare split_loop.simps(2) [simp del]

definition split_on_whitespace :: "string \<Rightarrow> string list" where
  "split_on_whitespace text = split_loop text (find_first_not_of text AsciiWhitespace (Some 0)) []"

subsection \<open>The reference\<close>

function words :: "string \<Rightarrow> string list" where
  "words cs =
     (let rest = dropWhile is_ascii_space cs
      in if rest = [] then []
         else takeWhile (\<lambda>c. \<not> is_ascii_space c) rest # words (dropWhile (\<lambda>c. \<not> is_ascii_space c) rest))"
  by pat_completeness auto
termination
proof (relation "measure length", goal_cases)
  case 1
  show ?case by simp
next
  case (2 cs rest)
  then have "rest \<noteq> []" and first: "\<not> is_ascii_space (hd rest)"
    by (auto simp: hd_dropWhile)
  then have "length (dropWhile (\<lambda>c. \<not> is_ascii_space c) rest) < length rest"
    by (cases rest) (auto simp: le_imp_less_Suc length_dropWhile_le)
  moreover have "length rest \<le> length cs"
    using "2"(1) by (simp add: length_dropWhile_le)
  ultimately show ?case by simp
qed

declare words.simps [simp del]

text \<open>Separators and words, in turn: one separator more than there are words.\<close>

fun weave :: "string list \<Rightarrow> string list \<Rightarrow> string" where
  "weave (s # ss) (w # ws) = s @ w @ weave ss ws"
| "weave ss _ = concat ss"

lemma words_space_only: "\<forall>c \<in> set cs. is_ascii_space c \<Longrightarrow> words cs = []"
  by (simp add: words.simps [of cs] dropWhile_eq_Nil_conv)

lemma words_skip: "words (dropWhile is_ascii_space cs) = words cs"
  by (simp add: words.simps [of cs] words.simps [of "dropWhile is_ascii_space cs"])

lemma words_at_word:
  assumes "cs = c # rest" and "\<not> is_ascii_space c"
  shows "words cs = takeWhile (\<lambda>c. \<not> is_ascii_space c) cs
    # words (dropWhile (\<lambda>c. \<not> is_ascii_space c) cs)"
  by (subst words.simps) (simp add: assms Let_def)

lemma words_unfold:
  assumes "dropWhile is_ascii_space cs = c # rest"
  shows "words cs = takeWhile (\<lambda>c. \<not> is_ascii_space c) (c # rest)
    # words (dropWhile (\<lambda>c. \<not> is_ascii_space c) (c # rest))"
  by (subst words.simps) (simp only: assms Let_def list.distinct if_False)

text \<open>Induction over the words: nothing but whitespace is left, or a word comes next.\<close>

lemma words_induct [case_names space word]:
  assumes space: "\<And>cs. dropWhile is_ascii_space cs = [] \<Longrightarrow> P cs"
    and word: "\<And>cs c rest. dropWhile is_ascii_space cs = c # rest \<Longrightarrow> \<not> is_ascii_space c
      \<Longrightarrow> P (dropWhile (\<lambda>c. \<not> is_ascii_space c) (c # rest)) \<Longrightarrow> P cs"
  shows "P cs"
proof (induction cs rule: words.induct)
  case (1 cs)
  show ?case
  proof (cases "dropWhile is_ascii_space cs")
    case Nil
    then show ?thesis by (rule space)
  next
    case (Cons c rest)
    then have "\<not> is_ascii_space c"
      using hd_dropWhile [of is_ascii_space cs] by simp
    moreover have "P (dropWhile (\<lambda>c. \<not> is_ascii_space c) (c # rest))"
      using "1" [OF refl] Cons by simp
    ultimately show ?thesis using word Cons by blast
  qed
qed

lemma words_are_words:
  "w \<in> set (words cs) \<Longrightarrow> w \<noteq> [] \<and> (\<forall>c \<in> set w. \<not> is_ascii_space c)"
proof (induction cs rule: words_induct)
  case (space cs)
  then show ?case by (simp add: words.simps [of cs])
next
  case (word cs c rest)
  from word.prems consider
      "w = takeWhile (\<lambda>c. \<not> is_ascii_space c) (c # rest)"
    | "w \<in> set (words (dropWhile (\<lambda>c. \<not> is_ascii_space c) (c # rest)))"
    unfolding words_unfold [OF word.hyps(1)] by auto
  then show ?case
  proof cases
    case 1
    with word.hyps(2) show ?thesis by (auto dest: set_takeWhileD)
  next
    case 2
    then show ?thesis by (rule word.IH)
  qed
qed

subsection \<open>The loop computes the reference\<close>

lemma substr_to_end:
  assumes "length text \<le> npos" and "start \<le> length text"
  shows "substr text start (npos - start) = drop start text"
  using assms by (simp add: substr_def diff_le_mono)

lemma split_loop_words:
  assumes "length view \<le> npos"
    and "\<And>s. start = Some s \<Longrightarrow> s < length view \<and> \<not> is_ascii_space (view ! s)"
  shows "split_loop view start ws =
    ws @ (case start of None \<Rightarrow> [] | Some s \<Rightarrow> words (drop s view))"
  using assms
proof (induction view start ws rule: split_loop.induct)
  case (1 view ws)
  then show ?case by simp
next
  case (2 view start ws)
  let ?stop = "find_first_of view AsciiWhitespace (Some start)"
  let ?later = "find_first_not_of view AsciiWhitespace ?stop"
  have start: "start < length view" "\<not> is_ascii_space (view ! start)"
    using "2.prems"(2) [of start] by auto
  have unfold: "words (drop start view) = takeWhile (\<lambda>c. \<not> is_ascii_space c) (drop start view)
      # words (dropWhile (\<lambda>c. \<not> is_ascii_space c) (drop start view))"
    using start by (metis Cons_nth_drop_Suc words_at_word)
  have word: "substr view start (pos_value ?stop - start)
      = takeWhile (\<lambda>c. \<not> is_ascii_space c) (drop start view)"
    and rest: "words (dropWhile (\<lambda>c. \<not> is_ascii_space c) (drop start view))
      = (case ?later of None \<Rightarrow> [] | Some s \<Rightarrow> words (drop s view))"
  proof (atomize (full), cases ?stop)
    case None
    then have none: "\<forall>c \<in> set (drop start view). \<not> is_ascii_space c"
      by (simp add: find_first_of_def find_from_none_left is_ascii_space_def)
    then have all: "takeWhile (\<lambda>c. \<not> is_ascii_space c) (drop start view) = drop start view"
      and empty: "dropWhile (\<lambda>c. \<not> is_ascii_space c) (drop start view) = []"
      by (simp_all add: takeWhile_eq_all_conv dropWhile_eq_Nil_conv)
    show "substr view start (pos_value ?stop - start)
        = takeWhile (\<lambda>c. \<not> is_ascii_space c) (drop start view)
      \<and> words (dropWhile (\<lambda>c. \<not> is_ascii_space c) (drop start view))
        = (case ?later of None \<Rightarrow> [] | Some s \<Rightarrow> words (drop s view))"
      using None start(1) "2.prems"(1)
      by (simp add: all empty pos_value_def substr_to_end find_first_not_of_def words_space_only)
  next
    case (Some stop)
    then have at_stop: "find_from (\<lambda>c. c \<in> set AsciiWhitespace) view (Some start) = Some stop"
      by (simp add: find_first_of_def)
    note split = find_from_drop [OF at_stop, folded is_ascii_space_def]
    have "words (drop stop view) = (case ?later of None \<Rightarrow> [] | Some s \<Rightarrow> words (drop s view))"
    proof (cases ?later)
      case None
      then have "\<forall>c \<in> set (drop stop view). is_ascii_space c"
        unfolding Some find_first_not_of_def find_from_none_left by (simp add: is_ascii_space_def)
      with None show ?thesis by (simp add: words_space_only)
    next
      case Later: (Some later)
      then have "find_from (\<lambda>c. c \<notin> set AsciiWhitespace) view (Some stop) = Some later"
        unfolding Some find_first_not_of_def .
      from find_from_drop(1) [OF this] have "drop later view = dropWhile is_ascii_space (drop stop view)"
        by (simp add: is_ascii_space_def [abs_def])
      with Later show ?thesis by (simp add: words_skip)
    qed
    with Some split show "substr view start (pos_value ?stop - start)
        = takeWhile (\<lambda>c. \<not> is_ascii_space c) (drop start view)
      \<and> words (dropWhile (\<lambda>c. \<not> is_ascii_space c) (drop start view))
        = (case ?later of None \<Rightarrow> [] | Some s \<Rightarrow> words (drop s view))"
      by (simp add: pos_value_def substr_def)
  qed
  have "s < length view \<and> \<not> is_ascii_space (view ! s)" if "?later = Some s" for s
  proof -
    from that obtain stop where "find_from (\<lambda>c. c \<notin> set AsciiWhitespace) view (Some stop) = Some s"
      by (cases ?stop) (auto simp: find_first_not_of_def)
    from find_from_bounds(2,3) [OF this] show ?thesis by (simp add: is_ascii_space_def)
  qed
  with "2.IH" "2.prems"(1) show ?case
    by (simp add: split_loop.simps Let_def word unfold rest)
qed

lemma split_on_whitespace_words:
  assumes "length text \<le> npos"
  shows "split_on_whitespace text = words text"
proof (cases "find_first_not_of text AsciiWhitespace (Some 0)")
  case None
  then have "\<forall>c \<in> set text. is_ascii_space c"
    unfolding find_first_not_of_def find_from_none_left by (simp add: is_ascii_space_def)
  with None show ?thesis by (simp add: split_on_whitespace_def words_space_only)
next
  case (Some start)
  then have at_start: "find_from (\<lambda>c. c \<notin> set AsciiWhitespace) text (Some 0) = Some start"
    by (simp add: find_first_not_of_def)
  have "drop start text = dropWhile is_ascii_space text"
    using find_from_drop(1) [OF at_start] by (simp add: is_ascii_space_def [abs_def])
  moreover have "start < length text \<and> \<not> is_ascii_space (text ! start)"
    using find_from_bounds(2,3) [OF at_start] by (simp add: is_ascii_space_def)
  ultimately show ?thesis
    using split_loop_words [of "text" "Some start" "[]"] assms Some
    by (simp add: split_on_whitespace_def words_skip)
qed

subsection \<open>What the words are\<close>

lemma words_weave:
  "\<exists>seps. length seps = Suc (length (words cs)) \<and> weave seps (words cs) = cs
     \<and> (\<forall>s \<in> set seps. \<forall>c \<in> set s. is_ascii_space c)
     \<and> (\<forall>s \<in> set (tl (butlast seps)). s \<noteq> [])"
proof (induction cs rule: words_induct)
  case (space cs)
  then show ?case
  by (intro exI [of _ "[cs]"]) (simp add: words_space_only dropWhile_eq_Nil_conv)
next
  case (word cs c rest)
  let ?lead = "takeWhile is_ascii_space cs"
  let ?w = "takeWhile (\<lambda>c. \<not> is_ascii_space c) (c # rest)"
  let ?after = "dropWhile (\<lambda>c. \<not> is_ascii_space c) (c # rest)"
  from word.IH obtain seps where seps: "length seps = Suc (length (words ?after))"
      "weave seps (words ?after) = ?after"
      "\<forall>s \<in> set seps. \<forall>c \<in> set s. is_ascii_space c"
      "\<forall>s \<in> set (tl (butlast seps)). s \<noteq> []"
    by auto
  have whole: "cs = ?lead @ ?w @ ?after"
    by (metis word.hyps(1) takeWhile_dropWhile_id)
  have words: "words cs = ?w # words ?after"
    by (rule words_unfold [OF word.hyps(1)])
  have lead: "\<forall>c \<in> set ?lead. is_ascii_space c"
    by (meson set_takeWhileD)
  have inner: "hd seps \<noteq> []" if "words ?after \<noteq> []"
  proof
    assume no_sep: "hd seps = []"
    from that seps(1) obtain s ss w ws where "seps = s # ss" "words ?after = w # ws"
      by (cases seps; cases "words ?after") auto
    with no_sep seps(2) have "?after = w @ weave ss ws" and "w \<in> set (words ?after)"
      by auto
    then show False
      using words_are_words [of w ?after] hd_dropWhile [of "\<lambda>c. \<not> is_ascii_space c" "c # rest"]
      by (metis append_is_Nil_conv hd_append2 list.set_sel(1))
  qed
  have inners: "\<forall>s \<in> set (tl (butlast (?lead # seps))). s \<noteq> []"
  proof (cases seps)
    case Nil
    with seps(1) show ?thesis by simp
  next
    case (Cons s ss)
    show ?thesis
    proof (cases "ss = []")
      case True
      with Cons show ?thesis by simp
    next
      case False
      with Cons seps(1) have "0 < length (words ?after)" by (cases ss) auto
      then have "s \<noteq> []" using inner Cons by simp
      with False Cons seps(4) show ?thesis by simp
    qed
  qed
  have "weave (?lead # seps) (words cs) = ?lead @ ?w @ ?after"
    by (simp only: words weave.simps seps(2))
  moreover have "length (?lead # seps) = Suc (length (words cs))"
    by (simp only: words length_Cons seps(1))
  moreover have "\<forall>s \<in> set (?lead # seps). \<forall>c \<in> set s. is_ascii_space c"
    using lead seps(3) by simp
  ultimately show ?case
    using inners whole [symmetric] by (metis (lifting))
qed

lemma words_space_prefix: "\<forall>c \<in> set s. is_ascii_space c \<Longrightarrow> words (s @ cs) = words cs"
  using words_skip [of "s @ cs"] words_skip [of cs] by simp

lemma words_word_prefix:
  assumes "w \<noteq> []" and "\<forall>c \<in> set w. \<not> is_ascii_space c"
    and "rest \<noteq> [] \<Longrightarrow> is_ascii_space (hd rest)"
  shows "words (w @ rest) = w # words rest"
proof -
  obtain c w' where w: "w = c # w'" using assms(1) by (cases w) auto
  have stop: "takeWhile (\<lambda>c. \<not> is_ascii_space c) rest = []" "dropWhile (\<lambda>c. \<not> is_ascii_space c) rest = rest"
    using assms(3) by (cases rest; simp)+
  have "takeWhile (\<lambda>c. \<not> is_ascii_space c) (w @ rest) = w"
    and "dropWhile (\<lambda>c. \<not> is_ascii_space c) (w @ rest) = rest"
    using assms(2) stop by (simp_all add: takeWhile_append2 dropWhile_append2)
  with words_at_word [of "w @ rest" c "w' @ rest"] w assms(2) show ?thesis by simp
qed

definition word_like :: "string \<Rightarrow> bool" where
  "word_like w \<longleftrightarrow> w \<noteq> [] \<and> list_all (\<lambda>c. \<not> is_ascii_space c) w"

text \<open>Separators around \<open>n\<close> words: all of whitespace, and none between two words is empty.\<close>

definition separators :: "nat \<Rightarrow> string list \<Rightarrow> bool" where
  "separators n seps \<longleftrightarrow>
     length seps = Suc n \<and> list_all (list_all is_ascii_space) seps
     \<and> list_all (\<lambda>s. s \<noteq> []) (tl (butlast seps))"

lemma weave_starts_with_space:
  assumes "separators (Suc (length ws)) (s # ss)" and "weave ss ws \<noteq> []"
  shows "is_ascii_space (hd (weave ss ws))"
proof -
  obtain t ts where ss: "ss = t # ts" using assms(1) by (cases ss) (auto simp: separators_def)
  have t: "list_all is_ascii_space t" using assms(1) ss by (simp add: separators_def)
  show ?thesis
  proof (cases ws)
    case Nil
    with assms(1) ss have "ts = []" by (simp add: separators_def)
    with Nil ss t assms(2) show ?thesis by (cases t) auto
  next
    case (Cons w ws')
    with assms(1) ss have "ts \<noteq> []" by (auto simp: separators_def)
    with assms(1) ss have "t \<noteq> []" by (simp add: separators_def)
    with Cons ss t show ?thesis by (cases t) auto
  qed
qed

lemma words_of_weave:
  "separators (length ws) seps \<Longrightarrow> list_all word_like ws \<Longrightarrow> words (weave seps ws) = ws"
proof (induction ws arbitrary: seps)
  case Nil
  then obtain s where "seps = [s]" by (cases seps) (auto simp: separators_def)
  with Nil show ?case by (simp add: separators_def list_all_iff words_space_only)
next
  case (Cons w ws)
  then obtain s ss where seps: "seps = s # ss" by (cases seps) (auto simp: separators_def)
  have s: "\<forall>c \<in> set s. is_ascii_space c"
    using Cons.prems(1) seps by (simp add: separators_def list_all_iff)
  have w: "w \<noteq> []" "\<forall>c \<in> set w. \<not> is_ascii_space c"
    using Cons.prems(2) by (simp_all add: word_like_def list_all_iff)
  have "separators (length ws) ss"
    using Cons.prems(1) seps by (cases ss; cases "tl ss") (auto simp: separators_def)
  then have "words (weave ss ws) = ws" using Cons.prems(2) by (intro Cons.IH) auto
  moreover have "is_ascii_space (hd (weave ss ws))" if "weave ss ws \<noteq> []"
    using Cons.prems(1) seps that by (intro weave_starts_with_space [of ws s ss]) auto
  ultimately show ?case
    using seps words_space_prefix [OF s] words_word_prefix [OF w] by simp
qed

lemma words_iff_weave:
  "words text = ws \<longleftrightarrow> (\<exists>seps. separators (length ws) seps \<and> list_all word_like ws \<and> weave seps ws = text)"
proof
  assume "words text = ws"
  with words_weave [of "text"] words_are_words [of _ "text"]
  show "\<exists>seps. separators (length ws) seps \<and> list_all word_like ws \<and> weave seps ws = text"
    by (auto simp: separators_def word_like_def list_all_iff)
next
  assume "\<exists>seps. separators (length ws) seps \<and> list_all word_like ws \<and> weave seps ws = text"
  then show "words text = ws" using words_of_weave by blast
qed

subsection \<open>Property\<close>

text \<open>
  C21. \<open>split_on_whitespace\<close> cuts a text into exactly its words: the result is the one list of
  non-empty, whitespace-free words that gives the text back when whitespace is put around them,
  with at least one whitespace character between two words. The bound is the largest size a
  \<open>std::string_view\<close> can have; the last word relies on \<open>substr\<close> clamping \<open>npos - start\<close>.
\<close>

theorem split_on_whitespace_exact:
  assumes "length text \<le> npos"
  shows "split_on_whitespace text = ws \<longleftrightarrow>
    (\<exists>seps. separators (length ws) seps \<and> list_all word_like ws \<and> weave seps ws = text)"
  using words_iff_weave split_on_whitespace_words [OF assms] by simp

theorem split_on_whitespace_exact_witness:
  "length '' MSI  B650'' \<le> npos \<and> split_on_whitespace '' MSI  B650'' = [''MSI'', ''B650'']"
proof -
  have bound: "length '' MSI  B650'' \<le> npos" by (simp add: npos_def)
  have "separators (length [''MSI'', ''B650'']) ['' '', ''  '', []]" "list_all word_like [''MSI'', ''B650'']"
    by code_simp+
  moreover have "weave ['' '', ''  '', []] [''MSI'', ''B650''] = '' MSI  B650''" by simp
  ultimately show ?thesis
    using split_on_whitespace_exact [OF bound, of "[''MSI'', ''B650'']"] bound by blast
qed

end
