(* ===== verification/Exact_Match.thy ===== *)
theory Exact_Match
  imports Tokenizer
begin

text \<open>
  \<open>src/core/doc_id.hpp\<close>, \<open>document.hpp\<close>, \<open>exact_match_index.hpp\<close> and \<open>.cpp\<close>: the documents of one
  index and the map from a word to the documents that contain it. \<open>document_index\<close> is what an owner
  of such an index may rely on: it answers as the list of documents added to it would. The
  interpretation shows that the code's index does.
\<close>

subsection \<open>DocId\<close>

text \<open>An \<open>enum class\<close> over \<open>std::uint32_t\<close>: a type of its own, with the order of its number.\<close>

datatype doc_id = DocId (doc_id_value: "32 word")

instantiation doc_id :: linorder
begin

definition less_eq_doc_id :: "doc_id \<Rightarrow> doc_id \<Rightarrow> bool" where
  "less_eq_doc_id a b \<longleftrightarrow> doc_id_value a \<le> doc_id_value b"

definition less_doc_id :: "doc_id \<Rightarrow> doc_id \<Rightarrow> bool" where
  "less_doc_id a b \<longleftrightarrow> doc_id_value a < doc_id_value b"

instance
  by standard (auto simp: less_eq_doc_id_def less_doc_id_def doc_id.expand)

end

text \<open>The cast of a position, which keeps its low 32 bits.\<close>

definition doc_id_of_position :: "nat \<Rightarrow> doc_id" where
  "doc_id_of_position n = DocId (of_nat n)"

lemma doc_id_of_position_less:
  "m < n \<Longrightarrow> n < 2 ^ 32 \<Longrightarrow> doc_id_of_position m < doc_id_of_position n"
  by (simp add: doc_id_of_position_def less_doc_id_def word_less_nat_alt unat_of_nat)

lemma doc_id_of_position_inject:
  "m < 2 ^ 32 \<Longrightarrow> n < 2 ^ 32 \<Longrightarrow> doc_id_of_position m = doc_id_of_position n \<longleftrightarrow> m = n"
  using doc_id_of_position_less [of m n] doc_id_of_position_less [of n m]
  by (metis linorder_neqE_nat order_less_irrefl)

lemma unat_doc_id_of_position:
  "unat (doc_id_value (doc_id_of_position n)) = n mod 2 ^ 32"
  by (simp add: doc_id_of_position_def unat_of_nat)

subsection \<open>The index\<close>

record document =
  doc_source :: string
  searchable_text :: "string list"

record exact_match_index =
  sources :: "string list"
  postings :: "string \<rightharpoonup> doc_id list"

datatype out_of_range = OutOfRange

definition empty_index :: exact_match_index where
  "empty_index = \<lparr>sources = [], postings = Map.empty\<rparr>"

text \<open>\<open>postings_[term]\<close> inserts an empty list for a word it does not hold yet.\<close>

definition record_posting :: "string \<Rightarrow> doc_id \<Rightarrow> exact_match_index \<Rightarrow> exact_match_index" where
  "record_posting word document_id ix =
     (let documents = (case postings ix word of None \<Rightarrow> [] | Some ds \<Rightarrow> ds);
          updated = (if documents = [] \<or> last documents \<noteq> document_id
                     then documents @ [document_id] else documents)
      in ix\<lparr>postings := (postings ix)(word \<mapsto> updated)\<rparr>)"

definition add_document :: "exact_match_index \<Rightarrow> document \<Rightarrow> doc_id \<times> exact_match_index" where
  "add_document ix document =
     (let document_id = doc_id_of_position (length (sources ix));
          recorded = fold (\<lambda>text ix1. fold (\<lambda>word ix2. record_posting word document_id ix2)
                                          (split_on_whitespace text) ix1)
                          (searchable_text document) ix
      in (document_id, recorded\<lparr>sources := sources recorded @ [doc_source document]\<rparr>))"

definition document_count :: "exact_match_index \<Rightarrow> nat" where
  "document_count ix = length (sources ix)"

definition documents_containing :: "exact_match_index \<Rightarrow> string \<Rightarrow> doc_id list" where
  "documents_containing ix word = (case postings ix word of None \<Rightarrow> [] | Some ds \<Rightarrow> ds)"

text \<open>\<open>sources_.at(...)\<close> throws when the position is not there.\<close>

definition source_of :: "exact_match_index \<Rightarrow> doc_id \<Rightarrow> out_of_range + string" where
  "source_of ix document_id =
     (let position = unat (doc_id_value document_id)
      in if position < length (sources ix) then Inr (sources ix ! position) else Inl OutOfRange)"

subsection \<open>The contract of a document index\<close>

definition document_words :: "document \<Rightarrow> string list" where
  "document_words d = concat (map split_on_whitespace (searchable_text d))"

text \<open>The ids of the documents of a list that contain a word, in insertion order.\<close>

definition ids_containing :: "document list \<Rightarrow> string \<Rightarrow> doc_id list" where
  "ids_containing ds word =
     map doc_id_of_position (filter (\<lambda>i. word \<in> set (document_words (ds ! i))) [0..<length ds])"

locale document_index =
  fixes new :: "'ix"
    and add :: "'ix \<Rightarrow> document \<Rightarrow> doc_id \<times> 'ix"
    and count :: "'ix \<Rightarrow> nat"
    and containing :: "'ix \<Rightarrow> string \<Rightarrow> doc_id list"
    and source_at :: "'ix \<Rightarrow> doc_id \<Rightarrow> out_of_range + string"
    and holds :: "'ix \<Rightarrow> document list \<Rightarrow> bool"
  assumes holds_new: "holds new []"
    and add_id: "holds ix ds \<Longrightarrow> fst (add ix d) = doc_id_of_position (length ds)"
    and holds_add: "holds ix ds \<Longrightarrow> length ds < 2 ^ 32 \<Longrightarrow> holds (snd (add ix d)) (ds @ [d])"
    and count_holds: "holds ix ds \<Longrightarrow> count ix = length ds"
    and containing_holds: "holds ix ds \<Longrightarrow> containing ix word = ids_containing ds word"
    and source_holds: "holds ix ds \<Longrightarrow> n < length ds \<Longrightarrow>
      source_at ix (doc_id_of_position n) = Inr (doc_source (ds ! n))"
    and holds_bound: "holds ix ds \<Longrightarrow> length ds \<le> 2 ^ 32"
begin

definition add_all :: "'ix \<Rightarrow> document list \<Rightarrow> 'ix" where
  "add_all ix ds = fold (\<lambda>d ix. snd (add ix d)) ds ix"

lemma add_all_simps [simp]:
  "add_all ix [] = ix"
  "add_all ix (d # ds) = add_all (snd (add ix d)) ds"
  by (simp_all add: add_all_def)

lemma holds_add_all:
  "holds ix ds \<Longrightarrow> length ds + length batch \<le> 2 ^ 32 \<Longrightarrow> holds (add_all ix batch) (ds @ batch)"
proof (induction batch arbitrary: ix ds)
  case Nil
  then show ?case by simp
next
  case (Cons d batch)
  then have "holds (snd (add ix d)) (ds @ [d])" by (intro holds_add) auto
  from Cons.IH [OF this] Cons.prems show ?case by simp
qed

lemma containing_sorted:
  assumes "holds ix ds"
  shows "sorted_wrt (<) (containing ix word)"
proof -
  have "sorted_wrt (<) (filter (\<lambda>i. word \<in> set (document_words (ds ! i))) [0..<length ds])"
    by (intro sorted_wrt_filter) (simp add: sorted_wrt_upt)
  then have "sorted_wrt (\<lambda>m n. doc_id_of_position m < doc_id_of_position n)
      (filter (\<lambda>i. word \<in> set (document_words (ds ! i))) [0..<length ds])"
    by (rule sorted_wrt_mono_rel [rotated])
      (use holds_bound [OF assms] in \<open>auto intro: doc_id_of_position_less\<close>)
  then show ?thesis
    by (simp add: containing_holds [OF assms] ids_containing_def sorted_wrt_map)
qed

lemma containing_has_source:
  assumes "holds ix ds" and "i \<in> set (containing ix word)"
  shows "\<exists>n < length ds. i = doc_id_of_position n \<and> word \<in> set (document_words (ds ! n))
    \<and> source_at ix i = Inr (doc_source (ds ! n))"
  using assms by (auto simp: containing_holds ids_containing_def source_holds)

lemma containing_after_add:
  assumes "holds ix ds" and "length ds < 2 ^ 32"
  shows "containing (snd (add ix d)) word =
    containing ix word @ (if word \<in> set (document_words d) then [fst (add ix d)] else [])"
proof -
  have "filter (\<lambda>i. word \<in> set (document_words ((ds @ [d]) ! i))) [0..<length ds]
      = filter (\<lambda>i. word \<in> set (document_words (ds ! i))) [0..<length ds]"
    by (intro filter_upt_cong) (simp add: nth_append)
  then show ?thesis
    using assms by (simp add: containing_holds [OF holds_add] containing_holds add_id ids_containing_def)
qed

end

subsection \<open>The code's index keeps the contract\<close>

lemma record_posting_sources [simp]: "sources (record_posting word i ix) = sources ix"
  by (simp add: record_posting_def Let_def)

lemma fold_record_sources [simp]:
  "sources (fold (\<lambda>word ix. record_posting word i ix) ws ix) = sources ix"
  by (induction ws arbitrary: ix) auto

text \<open>One id recorded for several words: each of them gets it at the back, once.\<close>

definition with_id :: "doc_id \<Rightarrow> doc_id list \<Rightarrow> doc_id list" where
  "with_id i ds = (if ds = [] \<or> last ds \<noteq> i then ds @ [i] else ds)"

lemma with_id_idem [simp]: "with_id i (with_id i ds) = with_id i ds"
  by (simp add: with_id_def)

lemma postings_record_posting:
  "postings (record_posting word i ix) =
     (postings ix)(word \<mapsto> with_id i (documents_containing ix word))"
  by (simp add: record_posting_def with_id_def documents_containing_def Let_def)

lemma postings_fold_record:
  "postings (fold (\<lambda>word ix. record_posting word i ix) ws ix) w =
     (if w \<in> set ws then Some (with_id i (documents_containing ix w)) else postings ix w)"
proof (induction ws arbitrary: ix)
  case Nil
  then show ?case by simp
next
  case (Cons v ws)
  then show ?case
    by (auto simp: postings_record_posting documents_containing_def)
qed

lemma fold_fold_concat: "fold (\<lambda>x. fold f (g x)) xs = fold f (concat (map g xs))"
  by (induction xs) (auto simp: fun_eq_iff)

lemma add_document_unfold:
  "add_document ix d =
     (let i = doc_id_of_position (length (sources ix));
          recorded = fold (\<lambda>word ix. record_posting word i ix) (document_words d) ix
      in (i, recorded\<lparr>sources := sources ix @ [doc_source d]\<rparr>))"
  by (simp add: add_document_def document_words_def fold_fold_concat Let_def)

lemma sources_add_document [simp]:
  "sources (snd (add_document ix d)) = sources ix @ [doc_source d]"
  by (simp add: add_document_unfold Let_def)

lemma fst_add_document [simp]:
  "fst (add_document ix d) = doc_id_of_position (length (sources ix))"
  by (simp add: add_document_unfold Let_def)

lemma documents_containing_add_document:
  "documents_containing (snd (add_document ix d)) word =
     (if word \<in> set (document_words d)
      then with_id (doc_id_of_position (length (sources ix))) (documents_containing ix word)
      else documents_containing ix word)"
  by (simp add: add_document_unfold Let_def documents_containing_def [of "_\<lparr>sources := _\<rparr>"]
      postings_fold_record) (simp add: documents_containing_def)

definition index_holds :: "exact_match_index \<Rightarrow> document list \<Rightarrow> bool" where
  "index_holds ix ds \<longleftrightarrow> length ds \<le> 2 ^ 32 \<and> sources ix = map doc_source ds
     \<and> (\<forall>word. documents_containing ix word = ids_containing ds word)"

lemma ids_containing_snoc:
  "ids_containing (ds @ [d]) word =
     ids_containing ds word @
       (if word \<in> set (document_words d) then [doc_id_of_position (length ds)] else [])"
proof -
  have "filter (\<lambda>i. word \<in> set (document_words ((ds @ [d]) ! i))) [0..<length ds]
      = filter (\<lambda>i. word \<in> set (document_words (ds ! i))) [0..<length ds]"
    by (intro filter_upt_cong) (simp add: nth_append)
  then show ?thesis by (simp add: ids_containing_def)
qed

lemma fresh_id:
  assumes "length ds < 2 ^ 32" and "i \<in> set (ids_containing ds word)"
  shows "i \<noteq> doc_id_of_position (length ds)"
  using assms by (auto simp: ids_containing_def doc_id_of_position_inject)

lemma index_holds_add:
  assumes "index_holds ix ds" and "length ds < 2 ^ 32"
  shows "index_holds (snd (add_document ix d)) (ds @ [d])"
proof -
  have "with_id (doc_id_of_position (length ds)) (ids_containing ds word)
      = ids_containing ds word @ [doc_id_of_position (length ds)]" for word
    using fresh_id [OF assms(2), of _ word] last_in_set by (auto simp: with_id_def)
  with assms show ?thesis
    by (simp add: index_holds_def documents_containing_add_document ids_containing_snoc)
qed

interpretation exact: document_index
  empty_index add_document document_count documents_containing source_of index_holds
proof (unfold_locales, goal_cases)
  case 1
  show ?case
    by (simp add: index_holds_def empty_index_def documents_containing_def ids_containing_def)
next
  case (2 ix ds d)
  then show ?case by (simp add: index_holds_def)
next
  case (3 ix ds d)
  then show ?case by (rule index_holds_add)
next
  case (4 ix ds)
  then show ?case by (simp add: index_holds_def document_count_def)
next
  case (5 ix ds word)
  then show ?case by (simp add: index_holds_def)
next
  case (6 ix ds n)
  then show ?case
    by (simp add: index_holds_def source_of_def Let_def unat_doc_id_of_position)
next
  case (7 ix ds)
  then show ?case by (simp add: index_holds_def)
qed

text \<open>Every index the program builds is the empty one with documents added.\<close>

definition index_of :: "document list \<Rightarrow> exact_match_index" where
  "index_of ds = fold (\<lambda>d ix. snd (add_document ix d)) ds empty_index"

lemma index_of_holds: "length ds \<le> 2 ^ 32 \<Longrightarrow> index_holds (index_of ds) ds"
  using exact.holds_add_all [OF exact.holds_new, of ds]
  by (simp add: index_of_def exact.add_all_def)

text \<open>What is held of an index with more documents than ids.\<close>

lemma index_of_snoc: "index_of (ds @ [d]) = snd (add_document (index_of ds) d)"
  by (simp add: index_of_def)

lemma sources_index_of: "sources (index_of ds) = map doc_source ds"
  by (induction ds rule: rev_induct) (simp_all add: index_of_snoc, simp add: index_of_def empty_index_def)

lemma set_with_id: "set (with_id i ids) = insert i (set ids)"
  by (auto simp: with_id_def)

lemma set_documents_containing:
  "set (documents_containing (index_of ds) word)
     = {doc_id_of_position n |n. n < length ds \<and> word \<in> set (document_words (ds ! n))}"
proof (induction ds rule: rev_induct)
  case Nil
  then show ?case by (simp add: index_of_def empty_index_def documents_containing_def)
next
  case (snoc d ds)
  have "length (sources (index_of ds)) = length ds" by (simp add: sources_index_of)
  with snoc show ?case
    by (auto simp: index_of_snoc documents_containing_add_document set_with_id nth_append less_Suc_eq)
qed

subsection \<open>Properties\<close>

text \<open>
  C14. An index to which the documents \<open>ds\<close> were added answers a word with exactly the ids of the
  documents that have it among the words of their searchable text, in insertion order, each once.
\<close>

theorem exact_match_search:
  assumes "length ds \<le> 2 ^ 32"
  shows "documents_containing (index_of ds) word =
      map doc_id_of_position
        (filter (\<lambda>i. word \<in> set (document_words (ds ! i))) [0..<length ds])
    \<and> sorted_wrt (<) (documents_containing (index_of ds) word)"
  using exact.containing_holds [OF index_of_holds [OF assms]]
    exact.containing_sorted [OF index_of_holds [OF assms]]
  by (simp add: ids_containing_def)

definition sample_documents :: "document list" where
  "sample_documents =
     [\<lparr>doc_source = ''{a}'', searchable_text = [''Corsair DDR5'']\<rparr>,
      \<lparr>doc_source = ''{b}'', searchable_text = [''MSI B650'']\<rparr>,
      \<lparr>doc_source = ''{c}'', searchable_text = [''Kingston'', ''DDR5 DDR5 kit'']\<rparr>]"

lemma sample_document_words:
  "map document_words sample_documents =
     [[''Corsair'', ''DDR5''], [''MSI'', ''B650''], [''Kingston'', ''DDR5'', ''DDR5'', ''kit'']]"
proof -
  have "length s \<le> npos" if "length s \<le> 20" for s :: string using that by (simp add: npos_def)
  note split = split_on_whitespace_words [OF this]
  have "words ''Corsair DDR5'' = [''Corsair'', ''DDR5'']" "words ''MSI B650'' = [''MSI'', ''B650'']"
    "words ''Kingston'' = [''Kingston'']" "words ''DDR5 DDR5 kit'' = [''DDR5'', ''DDR5'', ''kit'']"
    by code_simp+
  then show ?thesis
    by (simp add: sample_documents_def document_words_def split)
qed

theorem exact_match_search_witness:
  "length sample_documents \<le> 2 ^ 32
   \<and> documents_containing (index_of sample_documents) ''DDR5'' = [DocId 0, DocId 2]"
proof -
  have bound: "length sample_documents \<le> 2 ^ 32" by (simp add: sample_documents_def)
  have len: "length sample_documents = 3" by (simp add: sample_documents_def)
  have at: "document_words (sample_documents ! i) = map document_words sample_documents ! i"
    if "i < 3" for i using that by (simp only: nth_map len)
  have "filter (\<lambda>i. ''DDR5'' \<in> set (document_words (sample_documents ! i))) [0..<3] = [0, 2]"
    using at [of 0] at [of 1] at [of 2] unfolding sample_document_words
    by (simp add: upt_rec numeral_eq_Suc)
  with len show ?thesis
    using exact_match_search [OF bound, of "''DDR5''"] bound
    by (simp add: doc_id_of_position_def)
qed

text \<open>
  ADR-004: the bytes of every document added are returned as they were given, under the id
  \<open>add\<close> returned for it, and ids are the positions in insertion order.
\<close>

theorem exact_match_sources:
  assumes "length (before @ d # after) \<le> 2 ^ 32"
  shows "fst (add_document (index_of before) d) = doc_id_of_position (length before)
    \<and> source_of (index_of (before @ d # after)) (doc_id_of_position (length before)) = Inr (doc_source d)
    \<and> document_count (index_of (before @ d # after)) = length before + 1 + length after"
proof -
  have "length before \<le> 2 ^ 32" using assms by simp
  note b = index_of_holds [OF this] and all = index_of_holds [OF assms]
  show ?thesis
    using exact.add_id [OF b, of d] exact.source_holds [OF all, of "length before"]
      exact.count_holds [OF all]
    by simp
qed

theorem exact_match_sources_witness:
  "length ([] @ \<lparr>doc_source = ''{}'', searchable_text = []\<rparr> # []) \<le> 2 ^ 32
   \<and> source_of (index_of ([] @ [\<lparr>doc_source = ''{}'', searchable_text = []\<rparr>])) (doc_id_of_position 0)
     = Inr ''{}''"
  using exact_match_sources [of "[]" "\<lparr>doc_source = ''{}'', searchable_text = []\<rparr>" "[]"] by simp

text \<open>
  C40. Reading what a search answers, with no bound on the documents: the sources that a client finds
  under the ids of a word are those of the documents that have the word, as long as there are at most \<open>2 ^ 32\<close>
  documents. The ids of later ones start again from 0, so that they lead to the document that had the
  id first: the \<open>n\<close>th document with the word is answered by the source of the document at
  \<open>n mod 2 ^ 32\<close>, which need not have the word.
\<close>

theorem search_past_the_ids:
  "source_of (index_of ds) ` set (documents_containing (index_of ds) word) =
     {Inr (doc_source (ds ! (n mod 2 ^ 32))) |n. n < length ds \<and> word \<in> set (document_words (ds ! n))}"
proof -
  have found: "source_of (index_of ds) (doc_id_of_position n) = Inr (doc_source (ds ! (n mod 2 ^ 32)))"
    if "n < length ds" for n
  proof -
    have "n mod 2 ^ 32 < length ds" using that mod_less_eq_dividend [of n "2 ^ 32"] by (rule le_less_trans [rotated])
    then show ?thesis
      by (simp add: source_of_def Let_def unat_doc_id_of_position sources_index_of del: mod_less)
  qed
  show ?thesis
    by (simp add: set_documents_containing setcompr_eq_image image_image found cong: image_cong_simp)
qed

definition wrapping_documents :: "document list" where
  "wrapping_documents =
     replicate (2 ^ 32) \<lparr>doc_source = ''{a}'', searchable_text = [''old'']\<rparr>
       @ [\<lparr>doc_source = ''{b}'', searchable_text = [''kit'']\<rparr>]"

theorem search_past_the_ids_witness:
  "source_of (index_of wrapping_documents) ` set (documents_containing (index_of wrapping_documents) ''kit'')
     = {Inr ''{a}''}"
proof -
  have "words ''old'' = [''old'']" "words ''kit'' = [''kit'']" by code_simp+
  then have split: "split_on_whitespace ''old'' = [''old'']" "split_on_whitespace ''kit'' = [''kit'']"
    by (simp_all add: split_on_whitespace_words npos_def)
  have old: "wrapping_documents ! n = \<lparr>doc_source = ''{a}'', searchable_text = [''old'']\<rparr>" if "n < 2 ^ 32" for n
    using that by (simp add: wrapping_documents_def nth_append)
  have new: "wrapping_documents ! (2 ^ 32) = \<lparr>doc_source = ''{b}'', searchable_text = [''kit'']\<rparr>"
    by (simp add: wrapping_documents_def nth_append del: power_numeral)
  have "n < length wrapping_documents \<and> ''kit'' \<in> set (document_words (wrapping_documents ! n)) \<longleftrightarrow> n = 2 ^ 32" for n
  proof (cases "n < 2 ^ 32")
    case True
    then show ?thesis using old [OF True] by (simp add: document_words_def split)
  next
    case False
    then show ?thesis
      using new by (auto simp: wrapping_documents_def document_words_def split less_Suc_eq)
  qed
  then show ?thesis
    using search_past_the_ids [of wrapping_documents "''kit''"] old [of 0] by simp
qed

end
