(* ===== verification/Index_Uid.thy ===== *)
theory Index_Uid
  imports Errors
begin

text \<open>
  \<open>src/core/index_uid.hpp\<close> and \<open>index_uid.cpp\<close>: the name of an index. The constructor of
  \<open>IndexUid\<close> is private and \<open>parse\<close> the only caller; \<open>valid_uid\<close> is what that makes true of every
  value the program holds.
\<close>

definition MaxUidLength :: nat where
  "MaxUidLength = 64"

definition is_uid_character :: "char \<Rightarrow> bool" where
  "is_uid_character character \<longleftrightarrow>
     (CHR ''a'' \<le> character \<and> character \<le> CHR ''z'')
     \<or> (CHR ''A'' \<le> character \<and> character \<le> CHR ''Z'')
     \<or> (CHR ''0'' \<le> character \<and> character \<le> CHR ''9'')
     \<or> character = CHR ''_'' \<or> character = CHR ''-''"

datatype index_uid = IndexUid (uid_value: string)

definition parse_uid :: "string \<Rightarrow> index_uid result" where
  "parse_uid text =
     (let has_valid_length = text \<noteq> [] \<and> length text \<le> MaxUidLength
      in if \<not> has_valid_length \<or> \<not> list_all is_uid_character text
         then failure InvalidIndexUid
           ''An index uid is 1 to 64 characters, each an ASCII letter, digit, `_` or `-`.''
         else Inr (IndexUid text))"

definition valid_uid :: "index_uid \<Rightarrow> bool" where
  "valid_uid u \<longleftrightarrow>
     1 \<le> length (uid_value u) \<and> length (uid_value u) \<le> 64 \<and> list_all is_uid_character (uid_value u)"

subsection \<open>Laws\<close>

lemma parse_uid_returns [returns]:
  "parse_uid text = Inr u \<longleftrightarrow> uid_value u = text \<and> valid_uid u"
  by (cases u) (auto simp: parse_uid_def valid_uid_def MaxUidLength_def Let_def Suc_le_eq)

lemma parse_uid_error_code:
  "parse_uid text = Inl e \<Longrightarrow> code e = InvalidIndexUid"
  by (auto simp: parse_uid_def Let_def split: if_splits)

text \<open>
  The character test is written for a plain \<open>char\<close>, which is signed on one target of the program
  and unsigned on another. Read as two's complement the same ranges accept the same bytes.
\<close>

definition signed_byte :: "char \<Rightarrow> int" where
  "signed_byte c = (let n = int (of_char c) in if n < 128 then n else n - 256)"

definition in_signed_range :: "char \<Rightarrow> char \<Rightarrow> char \<Rightarrow> bool" where
  "in_signed_range lo hi c \<longleftrightarrow> signed_byte lo \<le> signed_byte c \<and> signed_byte c \<le> signed_byte hi"

lemma in_signed_range_ascii:
  assumes "(of_char lo :: nat) < 128" and "(of_char hi :: nat) < 128"
  shows "in_signed_range lo hi c \<longleftrightarrow> lo \<le> c \<and> c \<le> hi"
proof (cases "(of_char c :: nat) < 128")
  case True
  with assms show ?thesis
    by (simp add: in_signed_range_def signed_byte_def Let_def less_eq_char_def)
next
  case False
  have "int (of_char c) < 256"
    using of_char_less_256 [of c] by linarith
  with False have "signed_byte c < 0"
    by (simp add: signed_byte_def Let_def)
  moreover have "0 \<le> signed_byte lo"
    by (simp add: signed_byte_def Let_def assms)
  ultimately have "\<not> in_signed_range lo hi c"
    by (simp add: in_signed_range_def)
  moreover have "\<not> c \<le> hi"
    using False assms(2) by (simp add: less_eq_char_def)
  ultimately show ?thesis by simp
qed

lemma is_uid_character_signed:
  "is_uid_character c \<longleftrightarrow>
     in_signed_range (CHR ''a'') (CHR ''z'') c \<or> in_signed_range (CHR ''A'') (CHR ''Z'') c
     \<or> in_signed_range (CHR ''0'') (CHR ''9'') c \<or> c = CHR ''_'' \<or> c = CHR ''-''"
  by (simp add: is_uid_character_def in_signed_range_ascii)

text \<open>What a uid never contains, and so what echoing it can never break.\<close>

lemma is_uid_character_not_special:
  assumes "is_uid_character c"
  shows "c \<noteq> CHR ''\"''" "c \<noteq> CHR 0x5C" "c \<noteq> CHR ''/''" "c \<noteq> CHR ''.''" "CHR '' '' < c"
    "(of_char c :: nat) < 128"
  using assms by (auto simp: is_uid_character_def less_eq_char_def less_char_def)

subsection \<open>Property\<close>

definition uid_alphabet :: string where
  "uid_alphabet = ''abcdefghijklmnopqrstuvwxyzABCDEFGHIJKLMNOPQRSTUVWXYZ0123456789_-''"

lemma uid_alphabet_ranges:
  "uid_alphabet = map char_of ([97..<123] @ [65..<91] @ [48..<58] @ [95, 45 :: nat])"
  by code_simp

lemma is_uid_character_alphabet: "is_uid_character c \<longleftrightarrow> c \<in> set uid_alphabet"
proof
  assume "is_uid_character c"
  then have "of_char c \<in> set ([97..<123] @ [65..<91] @ [48..<58] @ [95, 45 :: nat])"
    by (simp only: set_append Un_iff set_upt atLeastLessThan_iff list.set)
      (auto simp: is_uid_character_def less_eq_char_def simp del: upt_rec_numeral)
  then have "char_of (of_char c :: nat) \<in> set uid_alphabet"
    unfolding uid_alphabet_ranges by (subst set_map) (rule imageI)
  then show "c \<in> set uid_alphabet" by simp
next
  have "list_all is_uid_character uid_alphabet" by code_simp
  then show "c \<in> set uid_alphabet \<Longrightarrow> is_uid_character c" by (simp add: list_all_iff)
qed

text \<open>
  C33. FR-01: \<open>IndexUid::parse\<close> accepts exactly the texts of 1 to 64 characters of the alphabet
  \<open>[a-zA-Z0-9_-]\<close>, unchanged, and refuses every other one with \<open>InvalidIndexUid\<close>.
\<close>

theorem parse_uid_exact:
  "parse_uid text =
     (if length text \<in> {1..64} \<and> set text \<subseteq> set uid_alphabet then Inr (IndexUid text)
      else failure InvalidIndexUid
        ''An index uid is 1 to 64 characters, each an ASCII letter, digit, `_` or `-`.'')"
  by (auto simp: parse_uid_def MaxUidLength_def Let_def list_all_iff is_uid_character_alphabet Suc_le_eq)

end
