(* ===== verification/Calendar.thy ===== *)
theory Calendar
  imports Prelude
begin

text \<open>
  The part of C++20's \<open><chrono>\<close> the program writes timestamps with: the proleptic Gregorian date of
  a day number (\<open>year_month_day\<close> of a \<open>sys_days\<close>), day 0 being 1970-01-01. The standard fixes the
  result, not the algorithm; \<open>civil_from_days\<close> computes it by cycles of 400, 100, 4 and 1 years that
  start in March, and is shown to be the calendar: it starts where it should, and the date of the next
  day is the next date.
\<close>

type_synonym date = "int \<times> int \<times> int"  \<comment> \<open>year, month, day\<close>

definition is_leap :: "int \<Rightarrow> bool" where
  "is_leap y \<longleftrightarrow> 4 dvd y \<and> (\<not> 100 dvd y \<or> 400 dvd y)"

definition month_length :: "int \<Rightarrow> int \<Rightarrow> int" where
  "month_length y m =
     (if m = 2 then (if is_leap y then 29 else 28)
      else if m \<in> {4, 6, 9, 11} then 30 else 31)"

definition valid_date :: "date \<Rightarrow> bool" where
  "valid_date = (\<lambda>(y, m, d). 1 \<le> m \<and> m \<le> 12 \<and> 1 \<le> d \<and> d \<le> month_length y m)"

definition next_date :: "date \<Rightarrow> date" where
  "next_date = (\<lambda>(y, m, d).
     if d < month_length y m then (y, m, d + 1)
     else if m < 12 then (y, m + 1, 1)
     else (y + 1, 1, 1))"

text \<open>Days before the month \<open>mp\<close> of a year that starts in March, and before such a year.\<close>

definition days_before_month :: "int \<Rightarrow> int" where
  "days_before_month mp = (153 * mp + 2) div 5"

definition days_before_year :: "int \<Rightarrow> int" where
  "days_before_year y = 365 * y + y div 4 - y div 100 + y div 400"

definition march_date :: "date \<Rightarrow> int \<times> int \<times> int" where
  "march_date = (\<lambda>(y, m, d). if m \<le> 2 then (y - 1, m + 9, d) else (y, m - 3, d))"

definition days_from_civil :: "date \<Rightarrow> int" where
  "days_from_civil dt = (case march_date dt of (y, mp, d) \<Rightarrow>
     days_before_year y + days_before_month mp + d - 1 - 719468)"

definition civil_from_days :: "int \<Rightarrow> date" where
  "civil_from_days n =
     (let z = n + 719468;
          era = z div 146097; day_of_era = z mod 146097;
          century = min 3 (day_of_era div 36524); day_of_century = day_of_era - century * 36524;
          cycle = day_of_century div 1461; day_of_cycle = day_of_century - cycle * 1461;
          y = min 3 (day_of_cycle div 365); day_of_year = day_of_cycle - y * 365;
          march_year = 400 * era + 100 * century + 4 * cycle + y;
          mp = (5 * day_of_year + 2) div 153;
          d = day_of_year - days_before_month mp + 1;
          m = (if mp < 10 then mp + 3 else mp - 9)
      in (if m \<le> 2 then march_year + 1 else march_year, m, d))"

subsection \<open>Years and months\<close>

lemma div_Suc_int:
  fixes k :: int
  assumes "0 < k"
  shows "(y + 1) div k = y div k + (if k dvd y + 1 then 1 else 0)"
proof -
  let ?q = "(y + 1) div k" and ?m = "(y + 1) mod k"
  have split: "y + 1 = k * ?q + ?m" by simp
  have m: "0 \<le> ?m" "?m < k" using assms by simp_all
  show ?thesis
  proof (cases "?m = 0")
    case True
    have "y = k * (?q - 1) + (k - 1)" using split True unfolding right_diff_distrib by linarith
    then have "y div k = ?q - 1" by (rule int_div_pos_eq) (use assms in auto)
    with True show ?thesis by (simp add: dvd_eq_mod_eq_0)
  next
    case False
    have "y = k * ?q + (?m - 1)" using split by linarith
    then have "y div k = ?q" by (rule int_div_pos_eq) (use m False in auto)
    with False show ?thesis by (simp add: dvd_eq_mod_eq_0)
  qed
qed

lemma leap_count:
  fixes y i j k :: int
  assumes "b \<Longrightarrow> a" and "c \<Longrightarrow> b"
  shows "365 * (y + 1) + (i + (if a then 1 else 0)) - (j + (if b then 1 else 0))
      + (k + (if c then 1 else 0)) = 365 * y + i - j + k + (if a \<and> (\<not> b \<or> c) then 366 else 365)"
  using assms by (cases a; cases b; cases c) auto

lemma days_before_year_Suc:
  "days_before_year (y + 1) = days_before_year y + (if is_leap (y + 1) then 366 else 365)"
  unfolding days_before_year_def is_leap_def
    div_Suc_int [of 4, simplified] div_Suc_int [of 100, simplified] div_Suc_int [of 400, simplified]
proof (rule leap_count)
  show "4 dvd y + 1" if "100 dvd y + 1" using that by (rule dvd_trans [rotated]) simp
  show "100 dvd y + 1" if "400 dvd y + 1" using that by (rule dvd_trans [rotated]) simp
qed

lemma div_bounds:
  fixes k :: int
  assumes "0 < k"
  shows "k * (x div k) \<le> x" and "x < k * (x div k) + k"
  using mult_div_mod_eq [of k x] pos_mod_sign [OF assms, of x] pos_mod_bound [OF assms, of x]
  by linarith+

lemma days_before_year_mono:
  assumes "y < y'" shows "days_before_year (y + 1) \<le> days_before_year y'"
proof -
  have step: "days_before_year x \<le> days_before_year (x + 1)" for x
    by (simp add: days_before_year_Suc)
  have "days_before_year (y + 1) \<le> days_before_year (y + 1 + int k)" for k
  proof (induction k)
    case 0
    show ?case by simp
  next
    case (Suc k)
    have "y + 1 + int (Suc k) = (y + 1 + int k) + 1" by simp
    with step [of "y + 1 + int k"] Suc show ?case by (simp only: order_trans)
  qed
  from this [of "nat (y' - (y + 1))"] assms show ?thesis by simp
qed

lemma month_cases:
  assumes "1 \<le> m" and "m \<le> (12 :: int)"
  obtains "m = 1" | "m = 2" | "m = 3" | "m = 4" | "m = 5" | "m = 6"
    | "m = 7" | "m = 8" | "m = 9" | "m = 10" | "m = 11" | "m = 12"
proof -
  have "m = 1 \<or> m = 2 \<or> m = 3 \<or> m = 4 \<or> m = 5 \<or> m = 6
      \<or> m = 7 \<or> m = 8 \<or> m = 9 \<or> m = 10 \<or> m = 11 \<or> m = 12"
    using assms by presburger
  with that show thesis by blast
qed

lemma days_from_civil_next_date:
  assumes "valid_date dt" shows "days_from_civil (next_date dt) = days_from_civil dt + 1"
proof -
  obtain y m d where dt: "dt = (y, m, d)" by (cases dt)
  have m: "1 \<le> m" "m \<le> 12" and d: "1 \<le> d" "d \<le> month_length y m"
    using assms by (simp_all add: dt valid_date_def)
  have year: "days_before_year y = days_before_year (y - 1) + (if is_leap y then 366 else 365)"
    using days_before_year_Suc [of "y - 1"] by simp
  show ?thesis
  proof (cases "d < month_length y m")
    case True
    then show ?thesis by (simp add: dt next_date_def days_from_civil_def march_date_def)
  next
    case False
    with d have last: "d = month_length y m" by simp
    from m show ?thesis
      by (cases rule: month_cases)
        (simp_all add: dt next_date_def days_from_civil_def march_date_def last month_length_def
          days_before_month_def year)
  qed
qed

lemma valid_next_date:
  assumes "valid_date dt" shows "valid_date (next_date dt)"
proof -
  obtain y m d where dt: "dt = (y, m, d)" by (cases dt)
  have "1 \<le> month_length y' m'" for y' m' by (simp add: month_length_def)
  with assms show ?thesis by (auto simp: dt valid_date_def next_date_def)
qed

text \<open>The day in its March year: below the length of that year, and it determines month and day.\<close>

lemma march_bounds:
  assumes "valid_date dt" and "march_date dt = (y, mp, d)"
  shows "0 \<le> mp" "mp \<le> 11" "1 \<le> d"
    "days_before_month mp + d \<le> days_before_year (y + 1) - days_before_year y"
    "mp < 11 \<Longrightarrow> days_before_month mp + d \<le> days_before_month (mp + 1)"
proof -
  obtain y0 m0 d0 where dt: "dt = (y0, m0, d0)" by (cases dt)
  have m0: "1 \<le> m0" "m0 \<le> 12" and d0: "1 \<le> d0" "d0 \<le> month_length y0 m0"
    using assms(1) by (simp_all add: dt valid_date_def)
  have len: "days_before_year (y + 1) - days_before_year y = (if is_leap (y + 1) then 366 else 365)"
    by (simp add: days_before_year_Suc)
  have "0 \<le> mp \<and> mp \<le> 11 \<and> 1 \<le> d
    \<and> days_before_month mp + d \<le> (if is_leap (y + 1) then 366 else 365)
    \<and> (mp < 11 \<longrightarrow> days_before_month mp + d \<le> days_before_month (mp + 1))"
    using m0
  proof (cases rule: month_cases)
    case 2
    with assms(2) d0 have "mp = 11" "d = d0" "y + 1 = y0" by (auto simp: dt march_date_def)
    with d0 2 show ?thesis by (auto simp: month_length_def days_before_month_def split: if_splits)
  qed (use assms(2) d0 in \<open>auto simp: dt march_date_def month_length_def days_before_month_def\<close>)
  then show "0 \<le> mp" "mp \<le> 11" "1 \<le> d"
    "days_before_month mp + d \<le> days_before_year (y + 1) - days_before_year y"
    "mp < 11 \<Longrightarrow> days_before_month mp + d \<le> days_before_month (mp + 1)"
    by (simp_all add: len)
qed

lemma days_before_month_mono: "mp \<le> mp' \<Longrightarrow> days_before_month mp \<le> days_before_month mp'"
  unfolding days_before_month_def by (intro zdiv_mono1) auto

lemma days_before_month_nonneg: "0 \<le> mp \<Longrightarrow> 0 \<le> days_before_month mp"
  by (simp add: days_before_month_def)

lemma march_date_inject: "march_date a = march_date b \<Longrightarrow> valid_date a \<Longrightarrow> valid_date b \<Longrightarrow> a = b"
  by (cases a; cases b) (auto simp: march_date_def valid_date_def split: if_splits)

lemma days_from_civil_inject:
  assumes "valid_date a" and "valid_date b" and same: "days_from_civil a = days_from_civil b"
  shows "a = b"
proof -
  obtain y mp d where a: "march_date a = (y, mp, d)" by (cases "march_date a")
  obtain y' mp' d' where b: "march_date b = (y', mp', d')" by (cases "march_date b")
  note A = march_bounds [OF assms(1) a] and B = march_bounds [OF assms(2) b]
  have eq: "days_before_year y + days_before_month mp + d
      = days_before_year y' + days_before_month mp' + d'"
    using same by (simp add: days_from_civil_def a b)
  have year: "y = y'"
  proof (rule linorder_cases [of y y'])
    assume "y < y'"
    with A(4) B(1,3) eq days_before_year_mono [of y y'] days_before_month_nonneg [of mp']
    show ?thesis by linarith
  next
    assume "y' < y"
    with B(4) A(1,3) eq days_before_year_mono [of y' y] days_before_month_nonneg [of mp]
    show ?thesis by linarith
  qed
  have month: "mp = mp'"
  proof (rule linorder_cases [of mp mp'])
    assume "mp < mp'"
    with A(5) B(2,3) eq year days_before_month_mono [of "mp + 1" mp'] show ?thesis by auto
  next
    assume "mp' < mp"
    with B(5) A(2,3) eq year days_before_month_mono [of "mp' + 1" mp] show ?thesis by auto
  qed
  with eq year a b march_date_inject [OF _ assms(1,2)] show ?thesis by simp
qed

subsection \<open>The date of a day number\<close>

lemma month_of_day:
  assumes "0 \<le> doy" and "doy \<le> (365 :: int)"
  defines "mp \<equiv> (5 * doy + 2) div 153"
  shows "0 \<le> mp" "mp \<le> 11" "days_before_month mp \<le> doy" "doy < days_before_month (mp + 1)"
proof -
  have mp: "153 * mp \<le> 5 * doy + 2" "5 * doy + 2 < 153 * mp + 153"
    unfolding mp_def using div_bounds [of 153 "5 * doy + 2"] by simp_all
  then show "0 \<le> mp" "mp \<le> 11" using assms(1,2) by linarith+
  have low: "(x + 2) div 5 \<le> doy" if "x \<le> 5 * doy + 2" for x :: int using that by presburger
  have high: "doy < (x + 2) div 5" if "5 * doy + 2 < x" for x :: int using that by presburger
  show "days_before_month mp \<le> doy" "doy < days_before_month (mp + 1)"
    unfolding days_before_month_def using low [OF mp(1)] high [of "153 * (mp + 1)"] mp(2) by simp_all
qed

lemma split_day_of_era:
  fixes e :: int
  assumes "0 \<le> e" and "e < 146097"
  defines "c \<equiv> min 3 (e div 36524)"
  defines "q \<equiv> (e - c * 36524) div 1461"
  defines "r \<equiv> e - c * 36524 - q * 1461"
  defines "y \<equiv> min 3 (r div 365)"
  defines "doy \<equiv> r - y * 365"
  shows "0 \<le> c" "c \<le> 3" "0 \<le> q" "q \<le> 24" "0 \<le> y" "y \<le> 3" "0 \<le> doy" "doy \<le> 365"
    "e = 36524 * c + 1461 * q + 365 * y + doy"
    "doy = 365 \<Longrightarrow> y = 3 \<and> (q = 24 \<longrightarrow> c = 3)"
proof -
  have c: "0 \<le> c" "c \<le> 3" "0 \<le> e - c * 36524" "e - c * 36524 \<le> 36524"
    "c < 3 \<Longrightarrow> e - c * 36524 < 36524"
    using assms(1,2) div_bounds [of 36524 e] unfolding c_def min_def by (auto split: if_splits)
  have q: "0 \<le> q" "q \<le> 24" "0 \<le> r" "r \<le> 1460" "q = 24 \<Longrightarrow> c < 3 \<Longrightarrow> r < 1460"
    using c(3,4,5) div_bounds [of 1461 "e - c * 36524"] unfolding r_def q_def [symmetric]
    by simp_all
  have y: "0 \<le> y" "y \<le> 3" "0 \<le> doy" "doy \<le> 365" "doy = 365 \<Longrightarrow> y = 3 \<and> r = 1460"
    using q(3,4) div_bounds [of 365 r] unfolding doy_def y_def min_def by (auto split: if_splits)
  show "0 \<le> c" "c \<le> 3" "0 \<le> q" "q \<le> 24" "0 \<le> y" "y \<le> 3" "0 \<le> doy" "doy \<le> 365"
    by fact+
  show "e = 36524 * c + 1461 * q + 365 * y + doy" unfolding doy_def r_def by simp
  show "doy = 365 \<Longrightarrow> y = 3 \<and> (q = 24 \<longrightarrow> c = 3)"
    using y(5) q(5) c(2) by force
qed

lemma days_before_year_cycles:
  assumes "0 \<le> c" "c \<le> 3" "0 \<le> q" "q \<le> 24" "0 \<le> y" "y \<le> (3 :: int)"
  shows "days_before_year (400 * era + 100 * c + 4 * q + y)
    = 146097 * era + 36524 * c + 1461 * q + 365 * y"
proof -
  have "(400 * era + 100 * c + 4 * q + y) div 4 = 100 * era + 25 * c + q"
    by (rule int_div_pos_eq [where r = y]) (use assms in auto)
  moreover have "(400 * era + 100 * c + 4 * q + y) div 100 = 4 * era + c"
    by (rule int_div_pos_eq [where r = "4 * q + y"]) (use assms in auto)
  moreover have "(400 * era + 100 * c + 4 * q + y) div 400 = era"
    by (rule int_div_pos_eq [where r = "100 * c + 4 * q + y"]) (use assms in auto)
  ultimately show ?thesis by (simp add: days_before_year_def)
qed

lemma leap_after_long_year:
  assumes "0 \<le> c" "c \<le> 3" "0 \<le> q" "q \<le> 24" "q = 24 \<longrightarrow> c = (3 :: int)"
  shows "is_leap (400 * era + 100 * c + 4 * q + 3 + 1)"
proof -
  have year: "400 * era + 100 * c + 4 * q + 3 + 1 = 4 * (100 * era + 25 * c + q + 1)" by simp
  show ?thesis
  proof (cases "q = 24")
    case True
    then have "400 * era + 100 * c + 4 * q + 3 + 1 = 400 * (era + 1)" using assms(5) by simp
    then have "400 dvd 400 * era + 100 * c + 4 * q + 3 + 1" by (metis dvd_triv_left)
    then show ?thesis unfolding is_leap_def using year by (metis dvd_triv_left)
  next
    case False
    then have "\<not> 100 dvd 4 * q + 4" using assms(3,4) by (intro zdvd_not_zless) auto
    moreover have "400 * era + 100 * c + 4 * q + 3 + 1 = 100 * (4 * era + c) + (4 * q + 4)" by simp
    ultimately have "\<not> 100 dvd 400 * era + 100 * c + 4 * q + 3 + 1"
      by (metis dvd_add_right_iff dvd_triv_left)
    then show ?thesis unfolding is_leap_def using year by (metis dvd_triv_left)
  qed
qed

lemma civil_from_days_correct:
  "valid_date (civil_from_days n) \<and> days_from_civil (civil_from_days n) = n"
proof -
  define e where "e = (n + 719468) mod 146097"
  define era where "era = (n + 719468) div 146097"
  define c where "c = min 3 (e div 36524)"
  define q where "q = (e - c * 36524) div 1461"
  define r where "r = e - c * 36524 - q * 1461"
  define y where "y = min 3 (r div 365)"
  define doy where "doy = r - y * 365"
  define mp where "mp = (5 * doy + 2) div 153"
  define march_year where "march_year = 400 * era + 100 * c + 4 * q + y"
  have "0 \<le> e" "e < 146097" by (simp_all add: e_def)
  note day = split_day_of_era [OF this, folded c_def, folded q_def, folded r_def, folded y_def,
      folded doy_def]
  note month = month_of_day [OF day(7,8), folded mp_def]
  have "civil_from_days n = (let m = (if mp < 10 then mp + 3 else mp - 9)
      in (if m \<le> 2 then march_year + 1 else march_year, m, doy - days_before_month mp + 1))"
    by (simp only: civil_from_days_def Let_def mp_def march_year_def doy_def y_def r_def q_def c_def
        e_def era_def)
  then have civil: "civil_from_days n =
      (if mp < 10 then (march_year, mp + 3, doy - days_before_month mp + 1)
       else (march_year + 1, mp - 9, doy - days_before_month mp + 1))"
    using month(1,2) by (simp add: Let_def)
  have march: "march_date (civil_from_days n) = (march_year, mp, doy - days_before_month mp + 1)"
    using month(1,2) by (simp add: civil march_date_def)
  have "n + 719468 = 146097 * era + e" by (simp add: e_def era_def)
  then have number: "days_from_civil (civil_from_days n) = n"
    using days_before_year_cycles [OF day(1-6), of era, folded march_year_def] day(9)
    by (simp add: days_from_civil_def march)
  have long: "is_leap (march_year + 1)" if "doy = 365"
    using leap_after_long_year [OF day(1-4), of era] day(10) [OF that] by (simp add: march_year_def)
  then have long_or_not: "is_leap (march_year + 1) \<or> doy \<le> 364"
    using day(8) by (cases "doy = 365") auto
  have "mp = 0 \<or> mp = 1 \<or> mp = 2 \<or> mp = 3 \<or> mp = 4 \<or> mp = 5 \<or> mp = 6 \<or> mp = 7 \<or> mp = 8
      \<or> mp = 9 \<or> mp = 10 \<or> mp = 11"
    using month(1,2) by presburger
  then have "valid_date (civil_from_days n)"
    using month(3,4) long_or_not day(8)
    by (elim disjE) (auto simp: civil valid_date_def month_length_def days_before_month_def)
  with number show ?thesis by simp
qed

lemma civil_from_days_from_civil: "valid_date dt \<Longrightarrow> civil_from_days (days_from_civil dt) = dt"
  using civil_from_days_correct [of "days_from_civil dt"] days_from_civil_inject by blast

lemma civil_from_days_0: "civil_from_days 0 = (1970, 1, 1)"
  by code_simp

lemma civil_from_days_Suc: "civil_from_days (n + 1) = next_date (civil_from_days n)"
  using civil_from_days_correct [of n] days_from_civil_next_date [of "civil_from_days n"]
    valid_next_date [of "civil_from_days n"] civil_from_days_from_civil [of "next_date (civil_from_days n)"]
  by simp

end
