(* ===== verification/Json_Timestamp.thy ===== *)
theory Json_Timestamp
  imports Calendar Json_String
begin

text \<open>
  \<open>src/core/timestamp.hpp\<close> and \<open>src/adapters/http/json_timestamp.cpp\<close>: an instant in milliseconds
  since 1970-01-01T00:00:00Z and the RFC 3339 string it is written as. \<open>read_timestamp\<close> is the
  reference reader of that string.
\<close>

type_synonym timestamp = int

definition YearDigits :: nat where
  "YearDigits = 4"

definition FieldDigits :: nat where
  "FieldDigits = 2"

definition MillisecondDigits :: nat where
  "MillisecondDigits = 3"

definition milliseconds_per_day :: int where
  "milliseconds_per_day = 24 * 60 * 60 * 1000"

definition append_zero_padded :: "string \<Rightarrow> nat \<Rightarrow> nat \<Rightarrow> string" where
  "append_zero_padded out number width =
     (let digits = to_string number;
          padded = (if length digits < width then out @ replicate (width - length digits) (CHR ''0'')
                    else out)
      in padded @ digits)"

text \<open>The cast of a signed value to \<open>unsigned\<close>, modulo \<open>2 ^ 32\<close>: what a year before 0 would become.\<close>

definition unsigned_cast :: "int \<Rightarrow> nat" where
  "unsigned_cast i = unat (word_of_int i :: 32 word)"

definition append_json_timestamp :: "string \<Rightarrow> timestamp \<Rightarrow> string" where
  "append_json_timestamp out instant =
     (let day = instant div milliseconds_per_day;
          time = instant - day * milliseconds_per_day;
          hours = time div 3600000;
          minutes = time div 60000 mod 60;
          seconds = time div 1000 mod 60;
          subseconds = time mod 1000
      in case civil_from_days day of (year, month, day_of_month) \<Rightarrow>
        (let o1 = out @ [CHR 0x22];
             o2 = append_zero_padded o1 (unsigned_cast year) YearDigits @ ''-'';
             o3 = append_zero_padded o2 (unsigned_cast month) FieldDigits @ ''-'';
             o4 = append_zero_padded o3 (unsigned_cast day_of_month) FieldDigits @ ''T'';
             o5 = append_zero_padded o4 (unsigned_cast hours) FieldDigits @ '':'';
             o6 = append_zero_padded o5 (unsigned_cast minutes) FieldDigits @ '':'';
             o7 = append_zero_padded o6 (unsigned_cast seconds) FieldDigits @ ''.'';
             o8 = append_zero_padded o7 (unsigned_cast subseconds) MillisecondDigits
         in o8 @ [CHR ''Z'', CHR 0x22]))"

subsection \<open>Fields of a fixed width\<close>

definition padded :: "nat \<Rightarrow> nat \<Rightarrow> string" where
  "padded width number = append_zero_padded [] number width"

lemma append_zero_padded_append: "append_zero_padded out n w = out @ padded w n"
  by (simp add: append_zero_padded_def padded_def Let_def)

lemma padded_digits: "list_all is_digit (padded w n)"
proof -
  have "is_digit (CHR ''0'')" by (simp add: is_digit_def less_eq_char_def)
  then show ?thesis
    using to_string_digits [of n]
    by (auto simp: padded_def append_zero_padded_def Let_def list_all_iff)
qed

lemma length_padded: "0 < w \<Longrightarrow> n < 10 ^ w \<Longrightarrow> length (padded w n) = w"
  using length_to_string [of w n] by (auto simp: padded_def append_zero_padded_def Let_def)

lemma decimal_value_zeros: "decimal_value (replicate k (CHR ''0'') @ s) = decimal_value s"
  by (induction k) (simp_all add: decimal_value_def digit_value_def)

lemma decimal_value_padded [simp]: "decimal_value (padded w n) = n"
  by (simp add: padded_def append_zero_padded_def Let_def decimal_value_zeros)

lemma unsigned_cast_small: "0 \<le> i \<Longrightarrow> i < 2 ^ 32 \<Longrightarrow> int (unsigned_cast i) = i"
  by (simp add: unsigned_cast_def unsigned_of_int take_bit_int_eq_self)

subsection \<open>The text and its reader\<close>

definition timestamp_text :: "timestamp \<Rightarrow> string" where
  "timestamp_text instant =
     (let day = instant div milliseconds_per_day;
          time = instant - day * milliseconds_per_day
      in case civil_from_days day of (year, month, day_of_month) \<Rightarrow>
        padded 4 (unsigned_cast year) @ ''-'' @ padded 2 (unsigned_cast month) @ ''-''
        @ padded 2 (unsigned_cast day_of_month) @ ''T'' @ padded 2 (unsigned_cast (time div 3600000))
        @ '':'' @ padded 2 (unsigned_cast (time div 60000 mod 60)) @ '':''
        @ padded 2 (unsigned_cast (time div 1000 mod 60)) @ ''.''
        @ padded 3 (unsigned_cast (time mod 1000)) @ ''Z'')"

definition number_at :: "nat \<Rightarrow> nat \<Rightarrow> string \<Rightarrow> int" where
  "number_at pos width s = int (decimal_value (take width (drop pos s)))"

definition read_timestamp :: "string \<Rightarrow> timestamp option" where
  "read_timestamp s =
     (if length s = 24 \<and> map (\<lambda>i. s ! i) [4, 7, 10, 13, 16, 19, 23] = ''--T::.Z''
         \<and> list_all (\<lambda>i. i \<in> {4, 7, 10, 13, 16, 19, 23} \<or> is_digit (s ! i)) [0..<24]
      then Some (days_from_civil (number_at 0 4 s, number_at 5 2 s, number_at 8 2 s) * milliseconds_per_day
        + ((number_at 11 2 s * 60 + number_at 14 2 s) * 60 + number_at 17 2 s) * 1000 + number_at 20 3 s)
      else None)"

lemma is_digit_not_escaped: "is_digit c \<Longrightarrow> escape_char c = [c]"
proof -
  have "\<forall>d \<in> set [0..<10]. escape_char (digit_char d) = [digit_char d]" by code_simp
  moreover assume digit: "is_digit c"
  then have "c = digit_char (digit_value c)" by simp
  moreover have "digit_value c < 10"
    using digit by (auto simp: digit_value_def is_digit_def less_eq_char_def)
  ultimately show "escape_char c = [c]" by (metis atLeastLessThan_iff atLeastLessThan_upt le0)
qed

lemma escape_digits: "list_all is_digit ds \<Longrightarrow> concat (map escape_char ds) = ds"
  by (induction ds) (auto simp: is_digit_not_escaped)

lemma escape_separators:
  "escape_char (CHR ''-'') = ''-''" "escape_char (CHR ''T'') = ''T''" "escape_char (CHR '':'') = '':''"
  "escape_char (CHR ''.'') = ''.''" "escape_char (CHR ''Z'') = ''Z''"
  by code_simp+

text \<open>The code writes the quotes itself: the text needs no escape.\<close>

lemma append_json_timestamp_append:
  "append_json_timestamp out instant = out @ json_string (timestamp_text instant)"
  by (simp add: append_json_timestamp_def timestamp_text_def Let_def append_zero_padded_append
      YearDigits_def FieldDigits_def MillisecondDigits_def json_string_def
      escape_digits padded_digits escape_separators split: prod.split)

lemma fixed_fields:
  assumes "length y = 4" "length mo = 2" "length d = 2" "length h = 2" "length mi = 2"
    "length se = 2" "length ms = 3"
    and "list_all is_digit (y @ mo @ d @ h @ mi @ se @ ms)"
  shows "read_timestamp (y @ ''-'' @ mo @ ''-'' @ d @ ''T'' @ h @ '':'' @ mi @ '':'' @ se @ ''.'' @ ms @ ''Z'')
    = Some (days_from_civil (int (decimal_value y), int (decimal_value mo), int (decimal_value d))
        * milliseconds_per_day
      + ((int (decimal_value h) * 60 + int (decimal_value mi)) * 60 + int (decimal_value se)) * 1000
      + int (decimal_value ms))"
proof -
  obtain y1 y2 y3 y4 where y: "y = [y1, y2, y3, y4]"
    using assms(1) by (auto simp: length_Suc_conv numeral_eq_Suc)
  obtain a b where mo: "mo = [a, b]" using assms(2) by (auto simp: length_Suc_conv numeral_eq_Suc)
  obtain d1 d2 where d: "d = [d1, d2]" using assms(3) by (auto simp: length_Suc_conv numeral_eq_Suc)
  obtain h1 h2 where h: "h = [h1, h2]" using assms(4) by (auto simp: length_Suc_conv numeral_eq_Suc)
  obtain i1 i2 where mi: "mi = [i1, i2]" using assms(5) by (auto simp: length_Suc_conv numeral_eq_Suc)
  obtain s1 s2 where se: "se = [s1, s2]" using assms(6) by (auto simp: length_Suc_conv numeral_eq_Suc)
  obtain m1 m2 m3 where ms: "ms = [m1, m2, m3]"
    using assms(7) by (auto simp: length_Suc_conv numeral_eq_Suc)
  show ?thesis
    using assms(8)
    by (simp add: y mo d h mi se ms read_timestamp_def number_at_def upt_rec)
qed

text \<open>The time of day, split into its fields and put together again.\<close>

lemma time_fields:
  fixes time :: int
  assumes "0 \<le> time" and "time < milliseconds_per_day"
  shows "((time div 3600000 * 60 + time div 60000 mod 60) * 60 + time div 1000 mod 60) * 1000
      + time mod 1000 = time"
    and "0 \<le> time div 3600000" "time div 3600000 < 100"
proof -
  have "time div 60000 = time div 1000 div 60" "time div 3600000 = time div 1000 div 60 div 60"
    by (simp_all add: zdiv_zmult2_eq [symmetric])
  then show "((time div 3600000 * 60 + time div 60000 mod 60) * 60 + time div 1000 mod 60) * 1000
      + time mod 1000 = time"
    by (simp add: mult.commute)
  show "0 \<le> time div 3600000" using assms(1) by (simp add: pos_imp_zdiv_nonneg_iff)
  show "time div 3600000 < 100"
    using assms(2) div_bounds(1) [of 3600000 time] by (simp add: milliseconds_per_day_def)
qed

text \<open>The field as written, read as a number.\<close>

lemma padded_field:
  assumes "0 \<le> i" and "i < int (10 ^ w)" and "0 < w" and "w \<le> 4"
  shows "length (padded w (unsigned_cast i)) = w" and "int (unsigned_cast i) = i"
proof -
  have "i < 10 ^ 4"
    using assms(2) power_increasing [OF assms(4), of "10 :: int"] by simp
  then show cast: "int (unsigned_cast i) = i"
    using assms(1) by (intro unsigned_cast_small) auto
  then have "unsigned_cast i < 10 ^ w" using assms(2) by (metis of_nat_less_iff)
  then show "length (padded w (unsigned_cast i)) = w" by (rule length_padded [OF assms(3)])
qed

lemma two_digit_field:
  assumes "0 \<le> i" and "i < 100"
  shows "length (padded 2 (unsigned_cast i)) = 2" and "int (unsigned_cast i) = i"
  using padded_field [of i 2] assms by simp_all

lemma three_digit_field:
  assumes "0 \<le> i" and "i < 1000"
  shows "length (padded 3 (unsigned_cast i)) = 3" and "int (unsigned_cast i) = i"
  using padded_field [of i 3] assms by simp_all

lemma four_digit_field:
  assumes "0 \<le> i" and "i \<le> 9999"
  shows "length (padded 4 (unsigned_cast i)) = 4" and "int (unsigned_cast i) = i"
  using padded_field [of i 4] assms by simp_all

definition year_of :: "timestamp \<Rightarrow> int" where
  "year_of instant = fst (civil_from_days (instant div milliseconds_per_day))"

lemma read_timestamp_text:
  assumes "0 \<le> year_of instant" and "year_of instant \<le> 9999"
  shows "read_timestamp (timestamp_text instant) = Some instant"
proof -
  define day where "day = instant div milliseconds_per_day"
  define time where "time = instant - day * milliseconds_per_day"
  obtain y m d where civil: "civil_from_days day = (y, m, d)" by (cases "civil_from_days day")
  have date: "1 \<le> m" "m \<le> 12" "1 \<le> d" "d \<le> month_length y m" "days_from_civil (y, m, d) = day"
    using civil_from_days_correct [of day] by (simp_all add: civil valid_date_def)
  have d: "d \<le> 31" using date(4) by (auto simp: month_length_def split: if_splits)
  have y: "0 \<le> y" "y \<le> 9999" using assms by (simp_all add: year_of_def day_def [symmetric] civil)
  have time: "0 \<le> time" "time < milliseconds_per_day"
    using div_bounds [of milliseconds_per_day instant]
    by (simp_all add: time_def day_def mult.commute milliseconds_per_day_def)
  note fields = time_fields [OF time]
  have bounds: "0 \<le> time div 60000 mod 60" "time div 60000 mod 60 < 100"
    "0 \<le> time div 1000 mod 60" "time div 1000 mod 60 < 100"
    "0 \<le> time mod 1000" "time mod 1000 < 1000"
    using pos_mod_bound [of 60 "time div 60000"] pos_mod_bound [of 60 "time div 1000"] by simp_all
  have "0 \<le> m" "m < 100" "0 \<le> d" "d < 100" using date(1-3) d by linarith+
  note month = two_digit_field [OF this(1,2)] and mday = two_digit_field [OF this(3,4)]
  note year = four_digit_field [OF y] and hour = two_digit_field [OF fields(2,3)]
    and minute = two_digit_field [OF bounds(1,2)] and second = two_digit_field [OF bounds(3,4)]
    and milli = three_digit_field [OF bounds(5,6)]
  note lengths = year(1) month(1) mday(1) hour(1) minute(1) second(1) milli(1)
    and numbers = year(2) month(2) mday(2) hour(2) minute(2) second(2) milli(2)
  have digits: "list_all is_digit (padded 4 (unsigned_cast y) @ padded 2 (unsigned_cast m)
      @ padded 2 (unsigned_cast d) @ padded 2 (unsigned_cast (time div 3600000))
      @ padded 2 (unsigned_cast (time div 60000 mod 60))
      @ padded 2 (unsigned_cast (time div 1000 mod 60)) @ padded 3 (unsigned_cast (time mod 1000)))"
    by (simp only: list_all_append padded_digits simp_thms)
  have "read_timestamp (timestamp_text instant)
      = Some (days_from_civil (y, m, d) * milliseconds_per_day
        + ((time div 3600000 * 60 + time div 60000 mod 60) * 60 + time div 1000 mod 60) * 1000
        + time mod 1000)"
    unfolding timestamp_text_def Let_def day_def [symmetric] time_def [symmetric] civil prod.case
    by (simp only: fixed_fields [OF lengths digits] decimal_value_padded numbers)
  moreover have "day * milliseconds_per_day
      + ((time div 3600000 * 60 + time div 60000 mod 60) * 60 + time div 1000 mod 60) * 1000
      + time mod 1000 = instant"
    using fields(1) time_def by linarith
  ultimately show ?thesis by (simp only: date(5))
qed

subsection \<open>Property\<close>

text \<open>
  C23. Every instant of the years 0 to 9999 is appended as one JSON string of 24 characters that
  holds a well-formed RFC 3339 instant in UTC and that reads back as the same instant, to the
  millisecond.
\<close>

theorem json_timestamp_round_trip:
  assumes "0 \<le> year_of instant" and "year_of instant \<le> 9999"
  shows "case read_json_string (drop (length out) (append_json_timestamp out instant)) of
      Some (text, rest) \<Rightarrow> length text = 24 \<and> rest = [] \<and> read_timestamp text = Some instant
    | None \<Rightarrow> False"
proof -
  have reads: "read_timestamp (timestamp_text instant) = Some instant"
    by (rule read_timestamp_text [OF assms])
  then have "length (timestamp_text instant) = 24"
    by (simp add: read_timestamp_def split: if_splits)
  with reads show ?thesis
    using read_json_string_json_string [of "timestamp_text instant" "[]"]
    by (simp add: append_json_timestamp_append)
qed

theorem json_timestamp_round_trip_witness:
  "year_of 1785067200123 = 2026
   \<and> (case read_json_string (drop (length ''x'') (append_json_timestamp ''x'' 1785067200123)) of
        Some (text, rest) \<Rightarrow> length text = 24 \<and> rest = [] \<and> read_timestamp text = Some 1785067200123
      | None \<Rightarrow> False)"
proof -
  have year: "year_of 1785067200123 = 2026" by code_simp
  show ?thesis using json_timestamp_round_trip [of 1785067200123 "''x''"] by (simp add: year)
qed

end
