(* ===== verification/Repository.thy ===== *)
theory Repository
  imports Exact_Match Index_Uid Json_Timestamp
begin

text \<open>
  \<open>src/core/index_metadata.hpp\<close>, the port \<open>src/application/index_repository.hpp\<close> and its
  implementation \<open>src/adapters/storage/in_memory_index_repository.cpp\<close>. What the port promises is
  the locale \<open>index_repository_port\<close>: the repository behaves as a catalog, a map from a uid to the
  metadata and the documents of an index. Each operation runs under one lock, so that here it is one
  function of the whole state; \<open>Concurrency\<close> looks at the steps inside.
\<close>

record index_metadata =
  uid :: index_uid
  primary_key :: "string option"
  created_at :: timestamp
  updated_at :: timestamp

subsection \<open>The port\<close>

record 'r index_repository =
  port_add :: "'r \<Rightarrow> index_metadata \<Rightarrow> unit result \<times> 'r"
  port_add_documents :: "'r \<Rightarrow> index_metadata \<Rightarrow> document list \<Rightarrow> index_metadata result \<times> 'r"

text \<open>What is stored, seen from outside.\<close>

type_synonym catalog = "string \<rightharpoonup> index_metadata \<times> document list"

definition key_of :: "index_metadata \<Rightarrow> string" where
  "key_of m = uid_value (uid m)"

definition catalog_entry :: "catalog \<Rightarrow> index_metadata \<Rightarrow> index_metadata \<times> document list" where
  "catalog_entry A m = (case A (key_of m) of None \<Rightarrow> (m, []) | Some entry \<Rightarrow> entry)"

definition catalog_add :: "catalog \<Rightarrow> index_metadata \<Rightarrow> bool \<times> catalog" where
  "catalog_add A m =
     (case A (key_of m) of None \<Rightarrow> (True, A(key_of m \<mapsto> (m, []))) | Some _ \<Rightarrow> (False, A))"

definition catalog_add_documents ::
  "catalog \<Rightarrow> index_metadata \<Rightarrow> document list \<Rightarrow> index_metadata \<times> catalog" where
  "catalog_add_documents A m ds =
     (case catalog_entry A m of (stored, old) \<Rightarrow> (stored, A(key_of m \<mapsto> (stored, old @ ds))))"

text \<open>Room for a batch: the ids of an index are 32 bits wide.\<close>

definition has_room :: "catalog \<Rightarrow> index_metadata \<Rightarrow> document list \<Rightarrow> bool" where
  "has_room A m ds \<longleftrightarrow> length (snd (catalog_entry A m)) + length ds \<le> 2 ^ 32"

locale index_repository_port =
  fixes port :: "'r index_repository"
    and new :: 'r
    and holds :: "'r \<Rightarrow> catalog \<Rightarrow> bool"
  assumes holds_new: "holds new Map.empty"
    and add_stores: "holds r A \<Longrightarrow> holds (snd (port_add port r m)) (snd (catalog_add A m))"
    and add_succeeds: "holds r A \<Longrightarrow> fst (catalog_add A m) \<Longrightarrow> fst (port_add port r m) = Inr ()"
    and add_refuses: "holds r A \<Longrightarrow> \<not> fst (catalog_add A m) \<Longrightarrow>
      \<exists>e. port_add port r m = (Inl e, r) \<and> code e = IndexAlreadyExists"
    and add_documents_stores: "holds r A \<Longrightarrow> has_room A m ds \<Longrightarrow>
      holds (snd (port_add_documents port r m ds)) (snd (catalog_add_documents A m ds))"
    and add_documents_returns: "holds r A \<Longrightarrow>
      fst (port_add_documents port r m ds) = Inr (fst (catalog_add_documents A m ds))"
begin

text \<open>A uid is taken once: after a successful \<open>add\<close> every other one fails, and changes nothing.\<close>

lemma add_twice:
  assumes "holds r A" and "key_of m' = key_of m"
  defines "r1 \<equiv> snd (port_add port r m)"
  shows "\<exists>e. port_add port r1 m' = (Inl e, r1) \<and> code e = IndexAlreadyExists"
proof -
  have "holds r1 (snd (catalog_add A m))" unfolding r1_def by (rule add_stores [OF assms(1)])
  moreover have "\<not> fst (catalog_add (snd (catalog_add A m)) m')"
    using assms(2) by (auto simp: catalog_add_def split: option.splits)
  ultimately show ?thesis by (rule add_refuses)
qed

lemma add_after_add_documents:
  assumes "holds r A" and "has_room A m ds" and "key_of m' = key_of m"
  defines "r1 \<equiv> snd (port_add_documents port r m ds)"
  shows "\<exists>e. port_add port r1 m' = (Inl e, r1) \<and> code e = IndexAlreadyExists"
proof -
  have "holds r1 (snd (catalog_add_documents A m ds))"
    unfolding r1_def by (rule add_documents_stores [OF assms(1,2)])
  moreover have "\<not> fst (catalog_add (snd (catalog_add_documents A m ds)) m')"
    using assms(3) by (auto simp: catalog_add_def catalog_add_documents_def split: option.splits prod.splits)
  ultimately show ?thesis by (rule add_refuses)
qed

end

subsection \<open>The catalog\<close>

lemma catalog_add_other: "k \<noteq> key_of m \<Longrightarrow> snd (catalog_add A m) k = A k"
  by (simp add: catalog_add_def split: option.split)

lemma catalog_add_documents_other: "k \<noteq> key_of m \<Longrightarrow> snd (catalog_add_documents A m ds) k = A k"
  by (simp add: catalog_add_documents_def split: prod.split)

subsection \<open>The in-memory repository\<close>

record stored_index =
  metadata :: index_metadata
  documents :: exact_match_index

record in_memory_repository =
  indexes :: "string \<rightharpoonup> stored_index"

definition empty_repository :: in_memory_repository where
  "empty_repository = \<lparr>indexes = Map.empty\<rparr>"

definition already_exists_message :: "index_uid \<Rightarrow> string" where
  "already_exists_message u = ''Index `'' @ uid_value u @ ''` already exists.''"

definition repository_add :: "in_memory_repository \<Rightarrow> index_metadata \<Rightarrow> unit result \<times> in_memory_repository" where
  "repository_add r index =
     (case try_emplace (indexes r) (uid_value (uid index))
             \<lparr>metadata = index, documents = empty_index\<rparr> of
        (emplaced, _, is_new) \<Rightarrow>
          (let r1 = r\<lparr>indexes := emplaced\<rparr>
           in if \<not> is_new
              then (failure IndexAlreadyExists (already_exists_message (uid index)), r1)
              else (Inr (), r1)))"

text \<open>One turn of the loop of \<open>add_documents\<close>, on the entry the reference \<open>stored\<close> names.\<close>

definition store_document :: "document \<Rightarrow> stored_index \<Rightarrow> stored_index" where
  "store_document document stored =
     stored\<lparr>documents := snd (add_document (documents stored) document)\<rparr>"

definition repository_add_documents ::
  "in_memory_repository \<Rightarrow> index_metadata \<Rightarrow> document list
     \<Rightarrow> index_metadata result \<times> in_memory_repository" where
  "repository_add_documents r index_if_missing ds =
     (case try_emplace (indexes r) (uid_value (uid index_if_missing))
             \<lparr>metadata = index_if_missing, documents = empty_index\<rparr> of
        (emplaced, stored, _) \<Rightarrow>
          (let filled = fold store_document ds stored
           in (Inr (metadata filled),
               r\<lparr>indexes := emplaced(uid_value (uid index_if_missing) \<mapsto> filled)\<rparr>)))"

definition in_memory_port :: "in_memory_repository index_repository" where
  "in_memory_port =
     \<lparr>port_add = repository_add, port_add_documents = repository_add_documents\<rparr>"

definition repository_holds :: "in_memory_repository \<Rightarrow> catalog \<Rightarrow> bool" where
  "repository_holds r A \<longleftrightarrow>
     (\<forall>k. rel_option (\<lambda>s (m, ds). metadata s = m \<and> index_holds (documents s) ds \<and> key_of m = k)
            (indexes r k) (A k))"

lemma repository_holds_at:
  "repository_holds r A \<Longrightarrow>
   rel_option (\<lambda>s (m, ds). metadata s = m \<and> index_holds (documents s) ds \<and> key_of m = k)
     (indexes r k) (A k)"
  by (simp add: repository_holds_def)

lemma repository_holds_None: "repository_holds r A \<Longrightarrow> indexes r k = None \<longleftrightarrow> A k = None"
  by (drule repository_holds_at [of r A k]) (auto elim: option.rel_cases)

lemma repository_holds_Some:
  assumes "repository_holds r A" and "indexes r k = Some s"
  obtains ds where "A k = Some (metadata s, ds)" "index_holds (documents s) ds" "key_of (metadata s) = k"
  using repository_holds_at [OF assms(1), of k] assms(2) that
  by (cases "A k") auto

lemma repository_holds_update:
  assumes "repository_holds r A" and "index_holds (documents s) ds" and "key_of (metadata s) = k"
  shows "repository_holds (r\<lparr>indexes := (indexes r)(k \<mapsto> s)\<rparr>) (A(k \<mapsto> (metadata s, ds)))"
  using assms by (simp add: repository_holds_def)

lemma fold_store_document:
  "metadata (fold store_document ds s) = metadata s"
  "documents (fold store_document ds s) = exact.add_all (documents s) ds"
  by (induction ds arbitrary: s) (simp_all add: store_document_def)

lemma repository_add_free:
  "indexes r (key_of m) = None \<Longrightarrow> repository_add r m =
     (Inr (), r\<lparr>indexes := (indexes r)(key_of m \<mapsto> \<lparr>metadata = m, documents = empty_index\<rparr>)\<rparr>)"
  by (simp add: repository_add_def key_of_def try_emplace_free)

lemma repository_add_taken:
  "indexes r (key_of m) = Some s \<Longrightarrow>
   repository_add r m = (failure IndexAlreadyExists (already_exists_message (uid m)), r)"
  by (simp add: repository_add_def key_of_def try_emplace_taken)

lemma repository_add_documents_free:
  assumes "indexes r (key_of m) = None"
  shows "repository_add_documents r m ds =
     (Inr m, r\<lparr>indexes := (indexes r)(key_of m \<mapsto>
        \<lparr>metadata = m, documents = exact.add_all empty_index ds\<rparr>)\<rparr>)"
proof -
  have "fold store_document ds \<lparr>metadata = m, documents = empty_index\<rparr>
      = \<lparr>metadata = m, documents = exact.add_all empty_index ds\<rparr>"
    by (rule stored_index.equality) (simp_all add: fold_store_document)
  with assms show ?thesis
    by (simp add: repository_add_documents_def key_of_def try_emplace_free)
qed

lemma repository_add_documents_taken:
  assumes "indexes r (key_of m) = Some s"
  shows "repository_add_documents r m ds =
     (Inr (metadata s), r\<lparr>indexes := (indexes r)(key_of m \<mapsto>
        s\<lparr>documents := exact.add_all (documents s) ds\<rparr>)\<rparr>)"
proof -
  have "fold store_document ds s = s\<lparr>documents := exact.add_all (documents s) ds\<rparr>"
    by (rule stored_index.equality) (simp_all add: fold_store_document)
  with assms show ?thesis
    by (simp add: repository_add_documents_def key_of_def try_emplace_taken)
qed

lemma repository_add_documents_holds:
  assumes "repository_holds r A" and "has_room A m ds"
  shows "repository_holds (snd (repository_add_documents r m ds)) (snd (catalog_add_documents A m ds))"
proof (cases "indexes r (key_of m)")
  case None
  then have free: "A (key_of m) = None" using repository_holds_None [OF assms(1)] by blast
  with assms(2) have "length ds \<le> 2 ^ 32" by (simp add: has_room_def catalog_entry_def)
  then have "index_holds (exact.add_all empty_index ds) ds"
    using exact.holds_add_all [OF exact.holds_new, of ds] by simp
  with repository_holds_update [OF assms(1), of "\<lparr>metadata = m, documents = exact.add_all empty_index ds\<rparr>" ds]
  show ?thesis
    by (simp add: repository_add_documents_free None catalog_add_documents_def catalog_entry_def free)
next
  case (Some s)
  obtain old where old: "A (key_of m) = Some (metadata s, old)" "index_holds (documents s) old"
      "key_of (metadata s) = key_of m"
    by (rule repository_holds_Some [OF assms(1) Some])
  with assms(2) have "length old + length ds \<le> 2 ^ 32" by (simp add: has_room_def catalog_entry_def)
  then have "index_holds (exact.add_all (documents s) ds) (old @ ds)"
    by (rule exact.holds_add_all [OF old(2)])
  with repository_holds_update [OF assms(1), of "s\<lparr>documents := exact.add_all (documents s) ds\<rparr>" "old @ ds"]
  show ?thesis
    by (simp add: repository_add_documents_taken Some catalog_add_documents_def catalog_entry_def old)
qed

interpretation memory: index_repository_port in_memory_port empty_repository repository_holds
proof (unfold_locales, goal_cases)
  case 1
  show ?case by (simp add: repository_holds_def empty_repository_def)
next
  case (2 r A m)
  show ?case
  proof (cases "indexes r (key_of m)")
    case None
    with 2 have "A (key_of m) = None" using repository_holds_None by blast
    with None repository_holds_update [OF 2, of "\<lparr>metadata = m, documents = empty_index\<rparr>" "[]"]
    show ?thesis by (simp add: in_memory_port_def repository_add_free catalog_add_def exact.holds_new)
  next
    case (Some s)
    with repository_holds_None [OF "2", of "key_of m"] have "A (key_of m) \<noteq> None" by simp
    with Some 2 show ?thesis
      by (auto simp: in_memory_port_def repository_add_taken catalog_add_def)
  qed
next
  case (3 r A m)
  then have "indexes r (key_of m) = None"
    by (simp add: repository_holds_None catalog_add_def split: option.splits)
  then show ?case by (simp add: in_memory_port_def repository_add_free)
next
  case (4 r A m)
  then have "indexes r (key_of m) \<noteq> None"
    by (simp add: repository_holds_None catalog_add_def split: option.splits)
  then show ?case by (auto simp: in_memory_port_def repository_add_taken)
next
  case (5 r A m ds)
  then show ?case by (simp add: in_memory_port_def repository_add_documents_holds)
next
  case (6 r A m ds)
  show ?case
  proof (cases "indexes r (key_of m)")
    case None
    with 6 have "A (key_of m) = None" using repository_holds_None by blast
    with None show ?thesis
      by (simp add: in_memory_port_def repository_add_documents_free catalog_add_documents_def
          catalog_entry_def)
  next
    case (Some s)
    then obtain old where "A (key_of m) = Some (metadata s, old)"
      by (rule repository_holds_Some [OF 6])
    with Some show ?thesis
      by (simp add: in_memory_port_def repository_add_documents_taken catalog_add_documents_def
          catalog_entry_def)
  qed
qed

lemma in_memory_port_simps [simp]:
  "port_add in_memory_port = repository_add"
  "port_add_documents in_memory_port = repository_add_documents"
  by (simp_all add: in_memory_port_def)

subsection \<open>Histories of calls\<close>

datatype repository_call =
    AddIndex index_metadata
  | AddBatch index_metadata "document list"

datatype repository_answer =
    Added "unit result"
  | Stored "index_metadata result"

fun call_repository :: "in_memory_repository \<Rightarrow> repository_call \<Rightarrow> repository_answer \<times> in_memory_repository" where
  "call_repository r (AddIndex m) = map_prod Added id (repository_add r m)"
| "call_repository r (AddBatch m ds) = map_prod Stored id (repository_add_documents r m ds)"

fun run_repository ::
  "in_memory_repository \<Rightarrow> repository_call list \<Rightarrow> repository_answer list \<times> in_memory_repository" where
  "run_repository r [] = ([], r)"
| "run_repository r (c # cs) =
     (case call_repository r c of (a, r1) \<Rightarrow> map_prod ((#) a) id (run_repository r1 cs))"

text \<open>The same history on the catalog.\<close>

fun call_catalog :: "catalog \<Rightarrow> repository_call \<Rightarrow> repository_answer \<times> catalog" where
  "call_catalog A (AddIndex m) =
     (Added (if A (key_of m) = None then Inr ()
             else failure IndexAlreadyExists (already_exists_message (uid m))), snd (catalog_add A m))"
| "call_catalog A (AddBatch m ds) = map_prod (\<lambda>stored. Stored (Inr stored)) id (catalog_add_documents A m ds)"

fun run_catalog :: "catalog \<Rightarrow> repository_call list \<Rightarrow> repository_answer list \<times> catalog" where
  "run_catalog A [] = ([], A)"
| "run_catalog A (c # cs) =
     (case call_catalog A c of (a, A1) \<Rightarrow> map_prod ((#) a) id (run_catalog A1 cs))"

fun documents_sent :: "repository_call \<Rightarrow> nat" where
  "documents_sent (AddIndex m) = 0"
| "documents_sent (AddBatch m ds) = length ds"

definition catalog_bounded :: "catalog \<Rightarrow> nat \<Rightarrow> bool" where
  "catalog_bounded A n \<longleftrightarrow> (\<forall>k m ds. A k = Some (m, ds) \<longrightarrow> length ds \<le> n)"

lemma catalog_bounded_entry: "catalog_bounded A n \<Longrightarrow> length (snd (catalog_entry A m)) \<le> n"
  by (auto simp: catalog_bounded_def catalog_entry_def split: option.splits)

lemma catalog_bounded_call:
  assumes "catalog_bounded A n"
  shows "catalog_bounded (snd (call_catalog A c)) (n + documents_sent c)"
proof (cases c)
  case (AddIndex m)
  with assms show ?thesis
    by (auto simp: catalog_bounded_def catalog_add_def split: option.splits)
next
  case (AddBatch m ds)
  with assms catalog_bounded_entry [OF assms, of m] show ?thesis
    by (auto simp: catalog_bounded_def catalog_add_documents_def split: prod.splits)
      (meson trans_le_add1)
qed

lemma call_repository_refines:
  assumes "repository_holds r A" and "catalog_bounded A n" and "n + documents_sent c \<le> 2 ^ 32"
  shows "fst (call_repository r c) = fst (call_catalog A c)"
    and "repository_holds (snd (call_repository r c)) (snd (call_catalog A c))"
proof (atomize (full), cases c)
  case (AddIndex m)
  show "fst (call_repository r c) = fst (call_catalog A c)
      \<and> repository_holds (snd (call_repository r c)) (snd (call_catalog A c))"
  proof (cases "A (key_of m)")
    case None
    then have "indexes r (key_of m) = None" by (simp add: repository_holds_None [OF assms(1)])
    with AddIndex None memory.add_stores [OF assms(1), of m] show ?thesis
      by (simp add: repository_add_free)
  next
    case (Some entry)
    then have "indexes r (key_of m) \<noteq> None" by (simp add: repository_holds_None [OF assms(1)])
    with AddIndex Some memory.add_stores [OF assms(1), of m] show ?thesis
      by (auto simp: repository_add_taken)
  qed
next
  case (AddBatch m ds)
  with assms(3) catalog_bounded_entry [OF assms(2), of m] have "has_room A m ds"
    by (simp add: has_room_def)
  with AddBatch memory.add_documents_stores [OF assms(1), of m ds]
    memory.add_documents_returns [OF assms(1), of m ds]
  show "fst (call_repository r c) = fst (call_catalog A c)
      \<and> repository_holds (snd (call_repository r c)) (snd (call_catalog A c))"
    by simp
qed

lemma run_repository_refines:
  assumes "repository_holds r A" and "catalog_bounded A n"
    and "n + sum_list (map documents_sent cs) \<le> 2 ^ 32"
  shows "fst (run_repository r cs) = fst (run_catalog A cs)
    \<and> repository_holds (snd (run_repository r cs)) (snd (run_catalog A cs))"
  using assms
proof (induction cs arbitrary: r A n)
  case Nil
  then show ?case by simp
next
  case (Cons c cs)
  note step = call_repository_refines [OF Cons.prems(1,2)]
  have "n + documents_sent c \<le> 2 ^ 32" using Cons.prems(3) by simp
  note step = step [OF this]
  have "n + documents_sent c + sum_list (map documents_sent cs) \<le> 2 ^ 32"
    using Cons.prems(3) by (simp add: add.assoc)
  from Cons.IH [OF step(2) catalog_bounded_call [OF Cons.prems(2), of c] this] step(1)
  show ?case by (simp add: case_prod_beta)
qed

text \<open>What no call takes away from a stored index.\<close>

definition extends_index :: "stored_index \<Rightarrow> stored_index \<Rightarrow> bool" where
  "extends_index s t \<longleftrightarrow> metadata t = metadata s
     \<and> (\<exists>later. sources (documents t) = sources (documents s) @ later)"

lemma extends_index_refl [simp]: "extends_index s s"
  by (simp add: extends_index_def)

lemma extends_index_trans: "extends_index s t \<Longrightarrow> extends_index t u \<Longrightarrow> extends_index s u"
  by (auto simp: extends_index_def)

lemma sources_add_all: "sources (exact.add_all ix ds) = sources ix @ map doc_source ds"
  by (induction ds arbitrary: ix) simp_all

lemma call_repository_extends:
  assumes "indexes r k = Some s"
  obtains t where "indexes (snd (call_repository r c)) k = Some t" "extends_index s t"
proof (cases c)
  case (AddIndex m)
  with assms that show thesis
    by (cases "indexes r (key_of m)"; cases "k = key_of m")
      (auto simp: repository_add_free repository_add_taken)
next
  case (AddBatch m ds)
  with assms that show thesis
    by (cases "indexes r (key_of m)"; cases "k = key_of m")
      (auto simp: repository_add_documents_free repository_add_documents_taken extends_index_def
        sources_add_all)
qed

subsection \<open>Properties\<close>

text \<open>
  C6. Refinement: over any history of calls that sends at most \<open>2 ^ 32\<close> documents, the repository
  returns exactly the answers of the abstract catalog (a map from a uid to metadata and a list of
  documents), and ends in a state that stores exactly what the catalog holds.
\<close>

theorem repository_refines_catalog:
  assumes "sum_list (map documents_sent cs) \<le> 2 ^ 32"
  shows "fst (run_repository empty_repository cs) = fst (run_catalog Map.empty cs)
    \<and> repository_holds (snd (run_repository empty_repository cs)) (snd (run_catalog Map.empty cs))"
  using run_repository_refines [OF memory.holds_new, of 0 cs] assms
  by (simp add: catalog_bounded_def)

definition sample_metadata :: index_metadata where
  "sample_metadata = \<lparr>uid = IndexUid ''products'', primary_key = None, created_at = 0, updated_at = 0\<rparr>"

theorem repository_refines_catalog_witness:
  "fst (run_repository empty_repository [AddIndex sample_metadata, AddIndex sample_metadata])
    = [Added (Inr ()), Added (failure IndexAlreadyExists ''Index `products` already exists.'')]"
  using repository_refines_catalog [of "[AddIndex sample_metadata, AddIndex sample_metadata]"]
  by (simp add: catalog_add_def already_exists_message_def sample_metadata_def key_of_def)

text \<open>
  Whatever calls follow, a stored index keeps its metadata (uid, primary key, both timestamps)
  and every document it holds, at its position: calls only append.
\<close>

theorem stored_index_persists:
  assumes "indexes r k = Some s"
  shows "\<exists>t. indexes (snd (run_repository r cs)) k = Some t \<and> metadata t = metadata s
    \<and> take (length (sources (documents s))) (sources (documents t)) = sources (documents s)"
proof -
  have "\<exists>t. indexes (snd (run_repository r cs)) k = Some t \<and> extends_index s t"
    using assms
  proof (induction cs arbitrary: r s)
    case Nil
    then show ?case by simp
  next
    case (Cons c cs)
    obtain t where t: "indexes (snd (call_repository r c)) k = Some t" "extends_index s t"
      by (rule call_repository_extends [OF Cons.prems])
    from Cons.IH [OF t(1)] t(2) show ?case
      by (auto simp: case_prod_beta intro: extends_index_trans)
  qed
  then show ?thesis by (auto simp: extends_index_def)
qed

theorem stored_index_persists_witness:
  "\<exists>t. indexes (snd (run_repository (snd (repository_add empty_repository sample_metadata))
        [AddIndex sample_metadata])) ''products'' = Some t \<and> metadata t = sample_metadata"
proof -
  have "indexes (snd (repository_add empty_repository sample_metadata)) ''products''
      = Some \<lparr>metadata = sample_metadata, documents = empty_index\<rparr>"
    by (simp add: repository_add_free empty_repository_def key_of_def sample_metadata_def)
  from stored_index_persists [OF this, of "[AddIndex sample_metadata]"] show ?thesis by auto
qed

lemma add_all_append: "exact.add_all ix (ds @ es) = exact.add_all (exact.add_all ix ds) es"
  by (induction ds arbitrary: ix) simp_all

text \<open>
  C28. Equivalence: a batch sent in two parts, whatever metadata the second call would create the index
  with, leaves the same repository as the whole batch at once, and both calls return the metadata of
  the stored index that the one call returns.
\<close>

theorem batches_compose:
  assumes "key_of m' = key_of m"
  shows "case repository_add_documents r m ds of (first, r1) \<Rightarrow>
    repository_add_documents r1 m' es = (first, snd (repository_add_documents r m (ds @ es)))
    \<and> fst (repository_add_documents r m (ds @ es)) = first"
proof (cases "indexes r (key_of m)")
  case None
  let ?s = "\<lparr>metadata = m, documents = exact.add_all empty_index ds\<rparr>"
  have "indexes (r\<lparr>indexes := (indexes r)(key_of m \<mapsto> ?s)\<rparr>) (key_of m') = Some ?s" using assms by simp
  from repository_add_documents_taken [OF this, of es] show ?thesis
    using assms None by (simp add: repository_add_documents_free add_all_append)
next
  case (Some stored)
  let ?s = "stored\<lparr>documents := exact.add_all (documents stored) ds\<rparr>"
  have "indexes (r\<lparr>indexes := (indexes r)(key_of m \<mapsto> ?s)\<rparr>) (key_of m') = Some ?s" using assms by simp
  from repository_add_documents_taken [OF this, of es] show ?thesis
    using assms Some by (simp add: repository_add_documents_taken add_all_append)
qed

theorem batches_compose_witness:
  "repository_add_documents
     (snd (repository_add_documents empty_repository sample_metadata [\<lparr>doc_source = ''{}'', searchable_text = []\<rparr>]))
     (sample_metadata\<lparr>primary_key := Some ''sku''\<rparr>) [\<lparr>doc_source = ''{ }'', searchable_text = []\<rparr>]
   = (Inr sample_metadata, snd (repository_add_documents empty_repository sample_metadata
       [\<lparr>doc_source = ''{}'', searchable_text = []\<rparr>, \<lparr>doc_source = ''{ }'', searchable_text = []\<rparr>]))"
proof -
  have same: "key_of (sample_metadata\<lparr>primary_key := Some ''sku''\<rparr>) = key_of sample_metadata"
    by (simp add: key_of_def)
  have "indexes empty_repository (key_of sample_metadata) = None" by (simp add: empty_repository_def)
  from batches_compose [OF same, where r = empty_repository and ds = "[\<lparr>doc_source = ''{}'', searchable_text = []\<rparr>]"
        and es = "[\<lparr>doc_source = ''{ }'', searchable_text = []\<rparr>]"] repository_add_documents_free [OF this]
  show ?thesis by (simp add: case_prod_beta)
qed

end
