(* ===== verification/Services.thy ===== *)
theory Services
  imports Repository "HOL-Library.Stream"
begin

text \<open>
  \<open>src/application\<close>: \<open>IndexService\<close>, \<open>IngestService\<close> and \<open>HealthService\<close>. A service holds a reference
  to a repository behind its port and a clock. The state of a call is the repository and what the
  clock will return, a stream of instants of which each call reads the next. What the services
  promise is proved from the port's laws alone, in the context of \<open>index_repository_port\<close>.
\<close>

type_synonym clock = "timestamp stream"

record 'r service_state =
  clock :: clock
  repository :: 'r

subsection \<open>IndexService\<close>

record create_index_command =
  command_uid :: index_uid
  command_primary_key :: "string option"

definition new_index :: "index_uid \<Rightarrow> string option \<Rightarrow> timestamp \<Rightarrow> index_metadata" where
  "new_index u key now = \<lparr>uid = u, primary_key = key, created_at = now, updated_at = now\<rparr>"

definition create_index ::
  "'r index_repository \<Rightarrow> create_index_command \<Rightarrow> 'r service_state
     \<Rightarrow> index_metadata result \<times> 'r service_state" where
  "create_index port command s =
     (let now = shd (clock s);
          index = new_index (command_uid command) (command_primary_key command) now
      in case port_add port (repository s) index of
           (added, r) \<Rightarrow>
             ((case added of Inl e \<Rightarrow> failure_of e | Inr _ \<Rightarrow> Inr index),
              \<lparr>clock = stl (clock s), repository = r\<rparr>))"

subsection \<open>IngestService\<close>

record add_documents_command =
  target_uid :: index_uid
  batch :: "document list"

record add_documents_outcome =
  indexed :: nat
  outcome_primary_key :: "string option"

definition add_documents ::
  "'r index_repository \<Rightarrow> add_documents_command \<Rightarrow> 'r service_state
     \<Rightarrow> add_documents_outcome result \<times> 'r service_state" where
  "add_documents port command s =
     (let batch_size = length (batch command);
          now = shd (clock s);
          index_if_missing = new_index (target_uid command) None now
      in case port_add_documents port (repository s) index_if_missing (batch command) of
           (stored, r) \<Rightarrow>
             ((case stored of
                 Inl e \<Rightarrow> failure_of e
               | Inr m \<Rightarrow> Inr \<lparr>indexed = batch_size, outcome_primary_key = primary_key m\<rparr>),
              \<lparr>clock = stl (clock s), repository = r\<rparr>))"

subsection \<open>HealthService\<close>

datatype Readiness = Starting | Available

record health_service =
  is_available :: bool

definition new_health_service :: health_service where
  "new_health_service = \<lparr>is_available = False\<rparr>"

definition readiness :: "health_service \<Rightarrow> Readiness" where
  "readiness h = (if is_available h then Available else Starting)"

definition mark_available :: "health_service \<Rightarrow> health_service" where
  "mark_available h = h\<lparr>is_available := True\<rparr>"

lemma readiness_mark_available [simp]: "readiness (mark_available h) = Available"
  by (simp add: readiness_def mark_available_def)

lemma readiness_new [simp]: "readiness new_health_service = Starting"
  by (simp add: readiness_def new_health_service_def)

subsection \<open>What the services do to the catalog\<close>

lemma key_of_new_index [simp]: "key_of (new_index u key now) = uid_value u"
  by (simp add: key_of_def new_index_def)

lemma new_index_simps [simp]:
  "uid (new_index u key now) = u" "primary_key (new_index u key now) = key"
  "created_at (new_index u key now) = now" "updated_at (new_index u key now) = now"
  by (simp_all add: new_index_def)

definition created_index :: "create_index_command \<Rightarrow> timestamp \<Rightarrow> index_metadata" where
  "created_index command now = new_index (command_uid command) (command_primary_key command) now"

definition missing_index :: "add_documents_command \<Rightarrow> timestamp \<Rightarrow> index_metadata" where
  "missing_index command now = new_index (target_uid command) None now"

lemma key_of_created_index [simp]: "key_of (created_index command now) = uid_value (command_uid command)"
  by (simp add: created_index_def)

lemma key_of_missing_index [simp]: "key_of (missing_index command now) = uid_value (target_uid command)"
  by (simp add: missing_index_def)

lemma create_index_state [simp]:
  "clock (snd (create_index port command s)) = stl (clock s)"
  "repository (snd (create_index port command s))
     = snd (port_add port (repository s) (created_index command (shd (clock s))))"
  by (simp_all add: create_index_def created_index_def Let_def split: prod.split)

lemma add_documents_state [simp]:
  "clock (snd (add_documents port command s)) = stl (clock s)"
  "repository (snd (add_documents port command s))
     = snd (port_add_documents port (repository s) (missing_index command (shd (clock s))) (batch command))"
  by (simp_all add: add_documents_def missing_index_def Let_def split: prod.split)

context index_repository_port
begin

lemma create_index_new:
  assumes "holds (repository s) A" and "A (uid_value (command_uid command)) = None"
  shows "fst (create_index port command s) = Inr (created_index command (shd (clock s)))"
    and "holds (repository (snd (create_index port command s)))
      (A(uid_value (command_uid command) \<mapsto> (created_index command (shd (clock s)), [])))"
proof -
  let ?m = "created_index command (shd (clock s))"
  have free: "catalog_add A ?m = (True, A(uid_value (command_uid command) \<mapsto> (?m, [])))"
    using assms(2) by (simp add: catalog_add_def)
  then have "fst (port_add port (repository s) ?m) = Inr ()"
    using add_succeeds [OF assms(1), of ?m] by simp
  then show "fst (create_index port command s) = Inr ?m"
    by (simp add: create_index_def created_index_def Let_def case_prod_beta)
  show "holds (repository (snd (create_index port command s)))
      (A(uid_value (command_uid command) \<mapsto> (?m, [])))"
    using add_stores [OF assms(1), of ?m] free by simp
qed

lemma create_index_taken:
  assumes "holds (repository s) A" and "A (uid_value (command_uid command)) \<noteq> None"
  shows "\<exists>e. fst (create_index port command s) = Inl e \<and> code e = IndexAlreadyExists"
    and "repository (snd (create_index port command s)) = repository s"
proof -
  let ?m = "created_index command (shd (clock s))"
  have "\<not> fst (catalog_add A ?m)"
    using assms(2) by (auto simp: catalog_add_def)
  then obtain e where e: "port_add port (repository s) ?m = (Inl e, repository s)"
      "code e = IndexAlreadyExists"
    using add_refuses [OF assms(1)] by blast
  then show "\<exists>e. fst (create_index port command s) = Inl e \<and> code e = IndexAlreadyExists"
    and "repository (snd (create_index port command s)) = repository s"
    by (simp_all add: create_index_def created_index_def Let_def failure_of_def)
qed

lemma add_documents_stored:
  fixes command :: add_documents_command
  assumes "holds (repository s) A"
  defines "m \<equiv> missing_index command (shd (clock s))"
  defines "entry \<equiv> catalog_entry A m"
  shows "fst (add_documents port command s) =
      Inr \<lparr>indexed = length (batch command), outcome_primary_key = primary_key (fst entry)\<rparr>"
    and "has_room A m (batch command) \<Longrightarrow> holds (repository (snd (add_documents port command s)))
      (A(uid_value (target_uid command) \<mapsto> (fst entry, snd entry @ batch command)))"
proof -
  have entry: "catalog_add_documents A m (batch command) =
      (fst entry, A(uid_value (target_uid command) \<mapsto> (fst entry, snd entry @ batch command)))"
    by (simp add: catalog_add_documents_def entry_def m_def split: prod.split)
  show "fst (add_documents port command s) =
      Inr \<lparr>indexed = length (batch command), outcome_primary_key = primary_key (fst entry)\<rparr>"
    using add_documents_returns [OF assms(1), of m "batch command"] entry
    by (simp add: add_documents_def m_def missing_index_def Let_def case_prod_beta)
  show "holds (repository (snd (add_documents port command s)))
      (A(uid_value (target_uid command) \<mapsto> (fst entry, snd entry @ batch command)))"
    if "has_room A m (batch command)"
    using add_documents_stores [OF assms(1) that] entry by (simp add: m_def)
qed

text \<open>Ingest into a missing index creates it as \<open>create_index\<close> without a primary key would.\<close>

lemma ingest_then_create:
  fixes command :: add_documents_command
  assumes "holds (repository s) A" and "has_room A (missing_index command (shd (clock s))) (batch command)"
    and "command_uid create = target_uid command"
  defines "s1 \<equiv> snd (add_documents port command s)"
  shows "\<exists>e. fst (create_index port create s1) = Inl e \<and> code e = IndexAlreadyExists"
proof (rule create_index_taken(1))
  show "holds (repository s1) (A(uid_value (target_uid command) \<mapsto>
      (fst (catalog_entry A (missing_index command (shd (clock s)))),
       snd (catalog_entry A (missing_index command (shd (clock s)))) @ batch command)))"
    unfolding s1_def by (rule add_documents_stored(2) [OF assms(1,2)])
  show "(A(uid_value (target_uid command) \<mapsto>
      (fst (catalog_entry A (missing_index command (shd (clock s)))),
       snd (catalog_entry A (missing_index command (shd (clock s)))) @ batch command)))
      (uid_value (command_uid create)) \<noteq> None"
    by (simp add: assms(3))
qed

end

subsection \<open>Properties\<close>

text \<open>
  \<open>IndexService::create_index\<close> on the in-memory repository: under a free uid the index is
  stored empty and returned, with both timestamps the one instant the clock gave; under a taken uid
  the call fails with \<open>IndexAlreadyExists\<close> and stores nothing.
\<close>

theorem create_index_outcome:
  fixes command :: create_index_command
  assumes "repository_holds (repository s) A"
  defines "key \<equiv> uid_value (command_uid command)"
    and "index \<equiv> \<lparr>uid = command_uid command, primary_key = command_primary_key command,
      created_at = shd (clock s), updated_at = shd (clock s)\<rparr>"
    and "r \<equiv> repository (snd (create_index in_memory_port command s))"
  shows "case A key of
      None \<Rightarrow> fst (create_index in_memory_port command s) = Inr index
        \<and> repository_holds r (A(key \<mapsto> (index, [])))
    | Some _ \<Rightarrow> fst (create_index in_memory_port command s)
          = failure IndexAlreadyExists (already_exists_message (command_uid command))
        \<and> r = repository s"
proof (cases "A key")
  case None
  with memory.create_index_new [OF assms(1)] show ?thesis
    by (simp add: key_def index_def r_def created_index_def new_index_def)
next
  case (Some entry)
  then have "indexes (repository s) key \<noteq> None" by (simp add: repository_holds_None [OF assms(1)])
  then obtain stored where
    "indexes (repository s) (key_of (created_index command (shd (clock s)))) = Some stored"
    by (auto simp: key_def)
  from repository_add_taken [OF this] Some show ?thesis
    by (simp add: r_def create_index_def created_index_def failure_def failure_of_def Let_def)
qed

definition start_state :: "in_memory_repository service_state" where
  "start_state = \<lparr>clock = sconst 42, repository = empty_repository\<rparr>"

lemma repository_start_state [simp]: "repository_holds (repository start_state) Map.empty"
  by (simp add: start_state_def memory.holds_new)

theorem create_index_outcome_witness:
  "fst (create_index in_memory_port
      \<lparr>command_uid = IndexUid ''products'', command_primary_key = Some ''id''\<rparr> start_state)
    = Inr \<lparr>uid = IndexUid ''products'', primary_key = Some ''id'', created_at = 42, updated_at = 42\<rparr>"
  using create_index_outcome [OF repository_start_state,
      of "\<lparr>command_uid = IndexUid ''products'', command_primary_key = Some ''id''\<rparr>"]
  by (simp add: start_state_def)

text \<open>
  \<open>IngestService::add_documents\<close> on the in-memory repository: a batch is appended whole to the
  index, which is created without a primary key when it is missing and keeps its metadata when it is
  not; the outcome counts the batch and names the primary key of the stored index.
\<close>

theorem add_documents_stores_batch:
  fixes command :: add_documents_command
  assumes "repository_holds (repository s) A"
    and "length (case A (uid_value (target_uid command)) of None \<Rightarrow> [] | Some (_, old) \<Rightarrow> old)
      + length (batch command) \<le> 2 ^ 32"
  shows "case (case A (uid_value (target_uid command)) of
        None \<Rightarrow> (\<lparr>uid = target_uid command, primary_key = None,
          created_at = shd (clock s), updated_at = shd (clock s)\<rparr>, [])
      | Some entry \<Rightarrow> entry) of (m, old) \<Rightarrow>
        fst (add_documents in_memory_port command s)
          = Inr \<lparr>indexed = length (batch command), outcome_primary_key = primary_key m\<rparr>
        \<and> repository_holds (repository (snd (add_documents in_memory_port command s)))
          (A(uid_value (target_uid command) \<mapsto> (m, old @ batch command)))"
proof -
  let ?m = "missing_index command (shd (clock s))"
  have "has_room A ?m (batch command)"
    using assms(2) by (cases "A (uid_value (target_uid command))") (auto simp: has_room_def catalog_entry_def)
  with memory.add_documents_stored [OF assms(1), of command] show ?thesis
    by (cases "A (uid_value (target_uid command))")
      (auto simp: catalog_entry_def missing_index_def new_index_def key_of_def)
qed

theorem add_documents_stores_batch_witness:
  "fst (add_documents in_memory_port
      \<lparr>target_uid = IndexUid ''products'', batch = [\<lparr>doc_source = ''{}'', searchable_text = []\<rparr>]\<rparr>
      start_state)
    = Inr \<lparr>indexed = 1, outcome_primary_key = None\<rparr>"
  using add_documents_stores_batch [OF repository_start_state, of
      "\<lparr>target_uid = IndexUid ''products'', batch = [\<lparr>doc_source = ''{}'', searchable_text = []\<rparr>]\<rparr>"]
  by simp

end
