(* ===== verification/Document_Routes.thy ===== *)
theory Document_Routes
  imports Text_Reader Error_Response Services
begin

text \<open>
  \<open>src/adapters/http/document_routes.cpp\<close>: POST /indexes/{uid}/documents. The parser of the body is
  modelled over the operations of \<open>Simdjson\<close>, function by function; the loops over an array or an
  object are recursions over the list of what the iterator gives.
\<close>

definition MaxBatchDocuments :: nat where
  "MaxBatchDocuments = 10000"

definition MaxNestingDepth :: nat where
  "MaxNestingDepth = 128"

definition UidParameter :: string where
  "UidParameter = ''uid''"

definition NotJson :: string where
  "NotJson = ''The request body is not valid JSON.''"

definition OkStatus :: int where
  "OkStatus = 200"

definition malformed_batch :: "string \<Rightarrow> 'a result" where
  "malformed_batch m = failure MalformedRequest m"

definition not_an_object :: "nat \<Rightarrow> 'a result" where
  "not_an_object index =
     malformed_batch (''The batch's element at index '' @ to_string index @ '' is not a JSON object.'')"

definition too_many_documents :: "document list result" where
  "too_many_documents =
     malformed_batch (''A batch holds at most '' @ to_string MaxBatchDocuments @ '' documents.'')"

definition nested_too_deeply :: "unit result" where
  "nested_too_deeply =
     malformed_batch (''A document nests more than '' @ to_string MaxNestingDepth @ '' levels deep.'')"

definition without_trailing_whitespace :: "string \<Rightarrow> string" where
  "without_trailing_whitespace json =
     (case find_last_not_of json [CHR '' '', CHR 0x09, CHR 0x0A, CHR 0x0D] of
        None \<Rightarrow> []
      | Some position \<Rightarrow> substr json 0 (position + 1))"

subsection \<open>Validation\<close>

definition reads_as_scalar :: "'h simdjson \<Rightarrow> 'h \<Rightarrow> json_type \<Rightarrow> bool" where
  "reads_as_scalar lib v type =
     (case type of
        NumberType \<Rightarrow> value_get_double lib v \<noteq> None
      | StringType \<Rightarrow> value_get_string lib v \<noteq> None
      | BooleanType \<Rightarrow> value_get_bool lib v \<noteq> None
      | NullType \<Rightarrow> (case value_is_null lib v of None \<Rightarrow> False | Some is_null \<Rightarrow> is_null)
      | ArrayType \<Rightarrow> False
      | ObjectType \<Rightarrow> False
      | UnknownType \<Rightarrow> False)"

text \<open>
  The recursion ends because a value deeper than \<open>MaxNestingDepth\<close> is refused before anything is
  read: the measure is the levels left, then which of the functions it is, then what the loop has
  left.
\<close>

function validate_value :: "'h simdjson \<Rightarrow> 'h \<Rightarrow> nat \<Rightarrow> unit result"
  and validate_array :: "'h simdjson \<Rightarrow> 'h \<Rightarrow> nat \<Rightarrow> unit result"
  and validate_object :: "'h simdjson \<Rightarrow> 'h \<Rightarrow> nat \<Rightarrow> unit result"
  and validate_elements :: "'h simdjson \<Rightarrow> 'h option list \<Rightarrow> nat \<Rightarrow> unit result"
  and validate_fields :: "'h simdjson \<Rightarrow> 'h option list \<Rightarrow> nat \<Rightarrow> unit result" where
  "validate_value lib v depth =
     (if depth > MaxNestingDepth then nested_too_deeply
      else case value_type lib v of
        None \<Rightarrow> malformed_batch NotJson
      | Some type \<Rightarrow>
          if type = ArrayType then validate_array lib v depth
          else if type = ObjectType then validate_object lib v depth
          else if \<not> reads_as_scalar lib v type then malformed_batch NotJson
          else Inr ())"
| "validate_array lib v depth =
     (case value_get_array lib v of
        None \<Rightarrow> malformed_batch NotJson
      | Some array \<Rightarrow> validate_elements lib (array_elements lib array) depth)"
| "validate_object lib v depth =
     (case value_get_object lib v of
        None \<Rightarrow> malformed_batch NotJson
      | Some obj \<Rightarrow> validate_fields lib (object_fields lib obj) depth)"
| "validate_elements lib [] depth = Inr ()"
| "validate_elements lib (element_result # rest) depth =
     (case element_result of
        None \<Rightarrow> malformed_batch NotJson
      | Some element \<Rightarrow>
          (case validate_value lib element (depth + 1) of
             Inl e \<Rightarrow> failure_of e
           | Inr _ \<Rightarrow> validate_elements lib rest depth))"
| "validate_fields lib [] depth = Inr ()"
| "validate_fields lib (field_result # rest) depth =
     (case field_result of
        None \<Rightarrow> malformed_batch NotJson
      | Some field \<Rightarrow>
          (case field_unescaped_key lib field of
             None \<Rightarrow> malformed_batch NotJson
           | Some key \<Rightarrow>
               (case validate_value lib (field_value lib field) (depth + 1) of
                  Inl e \<Rightarrow> failure_of e
                | Inr _ \<Rightarrow> validate_fields lib rest depth)))"
  by pat_completeness auto
termination
proof (relation "measures
    [\<lambda>call. case call of
        Inl (Inl (lib, v, depth)) \<Rightarrow>
          4 * (MaxNestingDepth + 1 - depth) + (if depth > MaxNestingDepth then 0 else 3)
      | Inl (Inr (lib, v, depth)) \<Rightarrow> 4 * (MaxNestingDepth + 1 - depth) + 2
      | Inr (Inl (lib, v, depth)) \<Rightarrow> 4 * (MaxNestingDepth + 1 - depth) + 2
      | Inr (Inr (Inl (lib, es, depth))) \<Rightarrow> 4 * (MaxNestingDepth + 1 - depth) + 1
      | Inr (Inr (Inr (lib, fs, depth))) \<Rightarrow> 4 * (MaxNestingDepth + 1 - depth) + 1,
     \<lambda>call. case call of
        Inr (Inr (Inl (lib, es, depth))) \<Rightarrow> length es
      | Inr (Inr (Inr (lib, fs, depth))) \<Rightarrow> length fs
      | _ \<Rightarrow> 0]")
qed auto

declare validate_value.simps [simp del] validate_array.simps [simp del] validate_object.simps [simp del]

text \<open>
  The same three functions without that measure, as the code has them: nothing says that a call
  returns, and \<open>None\<close> is a call that does not. With its result a call gives the number of calls of the
  three functions that were on the stack at once, its own included; the loops are no calls.
\<close>

datatype 'h validation_call =
    OfValue 'h nat
  | OfArray 'h nat
  | OfObject 'h nat
  | OfElements "'h option list" nat
  | OfFields "'h option list" nat

definition in_frame :: "unit result \<times> nat \<Rightarrow> (unit result \<times> nat) option" where
  "in_frame outcome = Some (fst outcome, Suc (snd outcome))"

partial_function (option) validation :: "'h simdjson \<Rightarrow> 'h validation_call \<Rightarrow> (unit result \<times> nat) option" where
  "validation lib call =
     (case call of
        OfValue v depth \<Rightarrow>
          (if depth > MaxNestingDepth then in_frame (nested_too_deeply, 0)
           else case value_type lib v of
             None \<Rightarrow> in_frame (malformed_batch NotJson, 0)
           | Some type \<Rightarrow>
               if type = ArrayType then Option.bind (validation lib (OfArray v depth)) in_frame
               else if type = ObjectType then Option.bind (validation lib (OfObject v depth)) in_frame
               else if \<not> reads_as_scalar lib v type then in_frame (malformed_batch NotJson, 0)
               else in_frame (Inr (), 0))
      | OfArray v depth \<Rightarrow>
          (case value_get_array lib v of
             None \<Rightarrow> in_frame (malformed_batch NotJson, 0)
           | Some array \<Rightarrow> Option.bind (validation lib (OfElements (array_elements lib array) depth)) in_frame)
      | OfObject v depth \<Rightarrow>
          (case value_get_object lib v of
             None \<Rightarrow> in_frame (malformed_batch NotJson, 0)
           | Some obj \<Rightarrow> Option.bind (validation lib (OfFields (object_fields lib obj) depth)) in_frame)
      | OfElements element_results depth \<Rightarrow>
          (case element_results of
             [] \<Rightarrow> Some (Inr (), 0)
           | element_result # rest \<Rightarrow>
               (case element_result of
                  None \<Rightarrow> Some (malformed_batch NotJson, 0)
                | Some element \<Rightarrow>
                    Option.bind (validation lib (OfValue element (depth + 1))) (\<lambda>(valid, frames).
                      case valid of
                        Inl e \<Rightarrow> Some (failure_of e, frames)
                      | Inr _ \<Rightarrow> Option.bind (validation lib (OfElements rest depth))
                          (\<lambda>(outcome, later). Some (outcome, max frames later)))))
      | OfFields field_results depth \<Rightarrow>
          (case field_results of
             [] \<Rightarrow> Some (Inr (), 0)
           | field_result # rest \<Rightarrow>
               (case field_result of
                  None \<Rightarrow> Some (malformed_batch NotJson, 0)
                | Some field \<Rightarrow>
                    (case field_unescaped_key lib field of
                       None \<Rightarrow> Some (malformed_batch NotJson, 0)
                     | Some key \<Rightarrow>
                         Option.bind (validation lib (OfValue (field_value lib field) (depth + 1))) (\<lambda>(valid, frames).
                           case valid of
                             Inl e \<Rightarrow> Some (failure_of e, frames)
                           | Inr _ \<Rightarrow> Option.bind (validation lib (OfFields rest depth))
                               (\<lambda>(outcome, later). Some (outcome, max frames later)))))))"

subsection \<open>Reading a batch\<close>

fun read_searchable_text_from :: "'h simdjson \<Rightarrow> 'h option list \<Rightarrow> string list \<Rightarrow> string list result" where
  "read_searchable_text_from lib [] texts = Inr texts"
| "read_searchable_text_from lib (field_result # rest) texts =
     (case field_result of
        None \<Rightarrow> malformed_batch NotJson
      | Some field \<Rightarrow>
          (case field_unescaped_key lib field of
             None \<Rightarrow> malformed_batch NotJson
           | Some key \<Rightarrow>
               (case value_type lib (field_value lib field) of
                  None \<Rightarrow> malformed_batch NotJson
                | Some type \<Rightarrow>
                    if type \<noteq> StringType then
                      (case validate_value lib (field_value lib field) 1 of
                         Inl e \<Rightarrow> failure_of e
                       | Inr _ \<Rightarrow> read_searchable_text_from lib rest texts)
                    else
                      (case value_get_string lib (field_value lib field) of
                         None \<Rightarrow> malformed_batch NotJson
                       | Some string \<Rightarrow>
                           read_searchable_text_from lib rest (texts @ [string])))))"

definition read_searchable_text :: "'h simdjson \<Rightarrow> 'h \<Rightarrow> string list result" where
  "read_searchable_text lib obj = read_searchable_text_from lib (object_fields lib obj) []"

definition read_document :: "'h simdjson \<Rightarrow> 'h \<Rightarrow> nat \<Rightarrow> document result" where
  "read_document lib element index =
     (case value_get_object lib element of
        None \<Rightarrow> not_an_object index
      | Some obj \<Rightarrow>
          (case object_raw_json lib obj of
             None \<Rightarrow> malformed_batch NotJson
           | Some (source, moved) \<Rightarrow>
               (case object_reset lib moved of
                  None \<Rightarrow> malformed_batch NotJson
                | Some rewound \<Rightarrow>
                    (case read_searchable_text lib rewound of
                       Inl e \<Rightarrow> failure_of e
                     | Inr searchable \<Rightarrow>
                         Inr \<lparr>doc_source = without_trailing_whitespace source,
                              searchable_text = searchable\<rparr>))))"

fun read_documents_from :: "'h simdjson \<Rightarrow> 'h option list \<Rightarrow> document list \<Rightarrow> document list result" where
  "read_documents_from lib [] docs =
     (if docs = [] then malformed_batch ''A batch holds at least one document.''
      else Inr docs)"
| "read_documents_from lib (element_result # rest) docs =
     (if length docs = MaxBatchDocuments then too_many_documents
      else case element_result of
        None \<Rightarrow> malformed_batch NotJson
      | Some element \<Rightarrow>
          (case read_document lib element (length docs) of
             Inl e \<Rightarrow> failure_of e
           | Inr document \<Rightarrow> read_documents_from lib rest (docs @ [document])))"

definition read_documents :: "'h simdjson \<Rightarrow> 'h \<Rightarrow> document list result" where
  "read_documents lib array = read_documents_from lib (array_elements lib array) []"

definition parse_document_batch :: "'h simdjson \<Rightarrow> string \<Rightarrow> document list result" where
  "parse_document_batch lib text =
     (case iterate lib text of
        None \<Rightarrow> malformed_batch NotJson
      | Some document \<Rightarrow>
          (case document_get_array lib document of
             None \<Rightarrow> malformed_batch ''The request body must be a JSON array of documents.''
           | Some array \<Rightarrow>
               (case read_documents lib array of
                  Inl e \<Rightarrow> failure_of e
                | Inr docs \<Rightarrow>
                    if \<not> document_at_end lib document then malformed_batch NotJson
                    else Inr docs)))"

subsection \<open>The response\<close>

definition ingest_result_json :: "nat \<Rightarrow> add_documents_outcome \<Rightarrow> int \<Rightarrow> string" where
  "ingest_result_json received outcome processing_time =
     (let b0 = ''{\"received\":'';
          b1 = b0 @ to_string received @ '',\"indexed\":'' @ to_string (indexed outcome);
          b2 = (case outcome_primary_key outcome of
                  None \<Rightarrow> b1
                | Some key \<Rightarrow> append_json_string (b1 @ '',\"primaryKey\":'') key)
      in b2 @ '',\"processingTimeMs\":'' @ to_string_int processing_time @ ''}'')"

text \<open>
  \<open>duration_cast<milliseconds>\<close> of a duration in nanoseconds, the unit of the steady clock: it drops
  the fraction.
\<close>

definition milliseconds_of :: "int \<Rightarrow> int" where
  "milliseconds_of nanoseconds =
     (if nanoseconds < 0 then - (- nanoseconds div 1000000) else nanoseconds div 1000000)"

text \<open>
  What the handlers of the routes refer to: the readiness, what the services hold, and what the
  steady clock will return.
\<close>

record 'r route_state =
  health :: health_service
  services :: "'r service_state"
  steady_clock :: "int stream"

definition add_documents_response ::
  "'r index_repository \<Rightarrow> 'h simdjson \<Rightarrow> string \<Rightarrow> string \<Rightarrow> 'r route_state
     \<Rightarrow> HttpResponse \<times> 'r route_state" where
  "add_documents_response port lib uid_text text s =
     (let started = shd (steady_clock s);
          s1 = s\<lparr>steady_clock := stl (steady_clock s)\<rparr>
      in case parse_uid uid_text of
           Inl e \<Rightarrow> (error_response e, s1)
         | Inr index_uid \<Rightarrow>
             (case parse_document_batch lib text of
                Inl e \<Rightarrow> (error_response e, s1)
              | Inr docs \<Rightarrow>
                  (let received = length docs
                   in case add_documents port \<lparr>target_uid = index_uid, batch = docs\<rparr> (services s1) of
                        (outcome, called) \<Rightarrow>
                          (let s2 = s1\<lparr>services := called\<rparr>
                           in case outcome of
                                Inl e \<Rightarrow> (error_response e, s2)
                              | Inr result \<Rightarrow>
                                  (let elapsed = milliseconds_of (shd (steady_clock s2) - started)
                                   in (\<lparr>status = OkStatus, body = ingest_result_json received result elapsed\<rparr>,
                                       s2\<lparr>steady_clock := stl (steady_clock s2)\<rparr>))))))"

text \<open>The registration, on a server behind any implementation of the port.\<close>

definition register_document_routes ::
  "('s, 'r route_state) http_server \<Rightarrow> 'r index_repository \<Rightarrow> 'h simdjson \<Rightarrow> 's \<Rightarrow> 's" where
  "register_document_routes http port lib server =
     port_add_route http server Post ''/indexes/{uid}/documents''
       (\<lambda>request s. map_prod Inr id
          (add_documents_response port lib (path_parameter request UidParameter) (request_body request) s))"

subsection \<open>What validation accepts\<close>

text \<open>The value at a handle reads completely, with no level below \<open>MaxNestingDepth\<close>.\<close>

definition reads_within :: "'h simdjson \<Rightarrow> nat \<Rightarrow> 'h \<Rightarrow> bool" where
  "reads_within lib depth v \<longleftrightarrow> (\<exists>t. reads lib v t \<and> depth + nesting t \<le> MaxNestingDepth + 1)"

definition element_within :: "'h simdjson \<Rightarrow> nat \<Rightarrow> 'h option \<Rightarrow> bool" where
  "element_within lib depth e \<longleftrightarrow> (\<exists>v. e = Some v \<and> reads_within lib depth v)"

definition field_within :: "'h simdjson \<Rightarrow> nat \<Rightarrow> 'h option \<Rightarrow> bool" where
  "field_within lib depth f \<longleftrightarrow>
     (\<exists>v. f = Some v \<and> field_unescaped_key lib v \<noteq> None \<and> reads_within lib depth (field_value lib v))"

lemma malformed_batch_not_Inr [simp]: "malformed_batch m \<noteq> Inr x" "Inr x \<noteq> malformed_batch m"
  by (simp_all add: malformed_batch_def)

lemma nested_too_deeply_not_Inr [simp]: "nested_too_deeply \<noteq> Inr x"
  by (simp add: nested_too_deeply_def)

lemma batch_failure_returns [returns]:
  "(case r of None \<Rightarrow> malformed_batch m | Some x \<Rightarrow> f x) = Inr y \<longleftrightarrow> (\<exists>x. r = Some x \<and> f x = Inr y)"
  by (cases r) simp_all

lemma reads_as_scalar_iff:
  assumes "value_type lib v = Some type" and "type \<noteq> ArrayType" and "type \<noteq> ObjectType"
  shows "reads_as_scalar lib v type \<longleftrightarrow> (\<exists>t. reads lib v t \<and> nesting t = 1)"
proof (cases type)
  case NullType
  with assms show ?thesis
    by (cases "value_is_null lib v") (auto simp: reads_as_scalar_def reads_simps)
qed (use assms in \<open>auto simp: reads_as_scalar_def reads_simps\<close>)

lemma reads_scalar_nesting:
  assumes "value_type lib v = Some type" and "type \<noteq> ArrayType" and "type \<noteq> ObjectType"
    and "reads lib v t"
  shows "nesting t = 1"
  using assms by (cases type) (auto simp: reads_simps)

lemma list_all2_exists: "(\<exists>ys. list_all2 R xs ys) \<longleftrightarrow> list_all (\<lambda>x. \<exists>y. R x y) xs"
proof (induction xs)
  case (Cons x xs)
  have "(\<exists>ys. list_all2 R (x # xs) ys) \<longleftrightarrow> (\<exists>y. R x y) \<and> (\<exists>ys. list_all2 R xs ys)"
    by (auto simp: list_all2_Cons1)
  with Cons show ?case by simp
qed simp

lemma ex_list_all2_Cons:
  "(\<exists>ys. list_all2 R (x # xs) ys \<and> P ys) \<longleftrightarrow> (\<exists>y ys. R x y \<and> list_all2 R xs ys \<and> P (y # ys))"
  by (auto simp: list_all2_Cons1)

lemma list_all2_and_list_all:
  "list_all2 R xs ys \<and> list_all P ys \<longleftrightarrow> list_all2 (\<lambda>x y. R x y \<and> P y) xs ys"
  by (auto simp: list_all2_conv_all_nth list_all_length)

lemma reads_within_array:
  assumes "value_type lib v = Some ArrayType" and "value_get_array lib v = Some a"
  shows "reads_within lib depth v \<longleftrightarrow>
    depth \<le> MaxNestingDepth \<and> list_all (element_within lib (Suc depth)) (array_elements lib a)"
proof -
  have "reads_within lib depth v \<longleftrightarrow> depth \<le> MaxNestingDepth
      \<and> (\<exists>ts. list_all2 (reads_element lib) (array_elements lib a) ts
           \<and> list_all (\<lambda>t. Suc depth + nesting t \<le> MaxNestingDepth + 1) ts)"
    using assms by (auto simp: reads_within_def reads_simps add_foldr_max_le)
  also have "\<dots> \<longleftrightarrow> depth \<le> MaxNestingDepth
      \<and> list_all (\<lambda>e. \<exists>t. reads_element lib e t \<and> Suc depth + nesting t \<le> MaxNestingDepth + 1)
          (array_elements lib a)"
    by (simp add: list_all2_and_list_all list_all2_exists)
  also have "(\<lambda>e. \<exists>t. reads_element lib e t \<and> Suc depth + nesting t \<le> MaxNestingDepth + 1)
      = element_within lib (Suc depth)"
    by (auto simp: fun_eq_iff reads_element_def element_within_def reads_within_def)
  finally show ?thesis .
qed

lemma reads_within_object:
  assumes "value_type lib v = Some ObjectType" and "value_get_object lib v = Some obj"
  shows "reads_within lib depth v \<longleftrightarrow>
    depth \<le> MaxNestingDepth \<and> list_all (field_within lib (Suc depth)) (object_fields lib obj)"
proof -
  have "reads_within lib depth v \<longleftrightarrow> depth \<le> MaxNestingDepth
      \<and> (\<exists>ms. list_all2 (reads_member lib) (object_fields lib obj) ms
           \<and> list_all (\<lambda>m. Suc depth + nesting (snd m) \<le> MaxNestingDepth + 1) ms)"
    using assms by (auto simp: reads_within_def reads_simps add_foldr_max_le)
  also have "\<dots> \<longleftrightarrow> depth \<le> MaxNestingDepth
      \<and> list_all (\<lambda>f. \<exists>m. reads_member lib f m \<and> Suc depth + nesting (snd m) \<le> MaxNestingDepth + 1)
          (object_fields lib obj)"
    by (simp add: list_all2_and_list_all list_all2_exists)
  also have "(\<lambda>f. \<exists>m. reads_member lib f m \<and> Suc depth + nesting (snd m) \<le> MaxNestingDepth + 1)
      = field_within lib (Suc depth)"
    by (auto simp: fun_eq_iff reads_member_def field_within_def reads_within_def)
  finally show ?thesis .
qed

text \<open>The mutually recursive functions, each with the part of the specification it checks.\<close>

lemma validate_iff:
  "validate_value lib v depth = Inr () \<longleftrightarrow> reads_within lib depth v"
  "validate_array lib v depth = Inr () \<longleftrightarrow>
     (\<exists>a. value_get_array lib v = Some a \<and> list_all (element_within lib (Suc depth)) (array_elements lib a))"
  "validate_object lib v depth = Inr () \<longleftrightarrow>
     (\<exists>obj. value_get_object lib v = Some obj \<and> list_all (field_within lib (Suc depth)) (object_fields lib obj))"
  "validate_elements lib es depth = Inr () \<longleftrightarrow> list_all (element_within lib (Suc depth)) es"
  "validate_fields lib fs depth = Inr () \<longleftrightarrow> list_all (field_within lib (Suc depth)) fs"
proof (induction lib v depth and lib v depth and lib v depth and lib es depth and lib fs depth
    rule: validate_value_validate_array_validate_object_validate_elements_validate_fields.induct)
  case (1 lib v depth)
  show ?case
  proof (cases "depth > MaxNestingDepth")
    case True
    then have "\<not> depth + nesting t \<le> MaxNestingDepth + 1" for t
      using nesting_pos(1) [of t] by linarith
    with True show ?thesis by (simp add: validate_value.simps [of lib v] reads_within_def)
  next
    case shallow: False
    show ?thesis
    proof (cases "value_type lib v")
      case None
      with shallow show ?thesis by (simp add: validate_value.simps [of lib v] reads_within_def reads_simps)
    next
      case (Some type)
      consider (arr) "type = ArrayType" | (obj) "type = ObjectType"
        | (scalar) "type \<noteq> ArrayType" "type \<noteq> ObjectType" by blast
      then show ?thesis
      proof cases
        case arr
        have "reads_within lib depth v \<Longrightarrow> value_get_array lib v \<noteq> None"
          using Some arr by (auto simp: reads_within_def reads_simps)
        with "1.IH"(1) [OF shallow Some arr] Some arr shallow show ?thesis
          by (auto simp: validate_value.simps [of lib v] reads_within_array)
      next
        case obj
        have "reads_within lib depth v \<Longrightarrow> value_get_object lib v \<noteq> None"
          using Some obj by (auto simp: reads_within_def reads_simps)
        with "1.IH"(2) [OF shallow Some _ obj] Some obj shallow show ?thesis
          by (auto simp: validate_value.simps [of lib v] reads_within_object)
      next
        case scalar
        then have "reads_within lib depth v \<longleftrightarrow> (\<exists>t. reads lib v t \<and> nesting t = 1)"
          using shallow reads_scalar_nesting [OF Some scalar]
          by (auto simp: reads_within_def)
        with Some scalar shallow show ?thesis
          by (simp add: validate_value.simps [of lib v] reads_as_scalar_iff)
      qed
    qed
  qed
next
  case (2 lib v depth)
  then show ?case by (cases "value_get_array lib v") (simp_all add: validate_array.simps [of lib v])
next
  case (3 lib v depth)
  then show ?case by (cases "value_get_object lib v") (simp_all add: validate_object.simps [of lib v])
next
  case (4 lib depth)
  then show ?case by simp
next
  case (5 lib e es depth)
  then show ?case
    by (cases e) (auto simp: returns element_within_def)
next
  case (6 lib depth)
  then show ?case by simp
next
  case (7 lib f fs depth)
  then show ?case
    by (cases f) (auto simp: returns field_within_def)
qed

subsection \<open>What a batch is read as\<close>

text \<open>The top-level string values of an object, in order: its searchable text.\<close>

definition top_level_texts :: "(string \<times> json) list \<Rightarrow> string list" where
  "top_level_texts ms = concat (map (\<lambda>m. case snd m of Text s \<Rightarrow> [s] | _ \<Rightarrow> []) ms)"

lemma top_level_texts_simps [simp]:
  "top_level_texts [] = []"
  "top_level_texts (m # ms) = (case snd m of Text s \<Rightarrow> [s] | _ \<Rightarrow> []) @ top_level_texts ms"
  by (simp_all add: top_level_texts_def)

text \<open>An element of the batch reads as an object, and these are its bytes and its searchable text.\<close>

definition reads_document :: "'h simdjson \<Rightarrow> 'h option \<Rightarrow> document \<Rightarrow> bool" where
  "reads_document lib e d \<longleftrightarrow>
     (\<exists>v obj source moved rewound ms. e = Some v \<and> value_get_object lib v = Some obj
        \<and> object_raw_json lib obj = Some (source, moved) \<and> object_reset lib moved = Some rewound
        \<and> list_all2 (reads_member lib) (object_fields lib rewound) ms
        \<and> list_all (\<lambda>m. nesting (snd m) \<le> MaxNestingDepth) ms
        \<and> d = \<lparr>doc_source = without_trailing_whitespace source, searchable_text = top_level_texts ms\<rparr>)"

lemma read_searchable_text_from_iff:
  "read_searchable_text_from lib fs acc = Inr texts \<longleftrightarrow>
     (\<exists>ms. list_all2 (reads_member lib) fs ms \<and> list_all (\<lambda>m. nesting (snd m) \<le> MaxNestingDepth) ms
        \<and> texts = acc @ top_level_texts ms)"
proof (induction fs arbitrary: acc)
  case Nil
  then show ?case by auto
next
  case (Cons f fs)
  show ?case
  proof (cases "\<exists>v key type. f = Some v \<and> field_unescaped_key lib v = Some key
      \<and> value_type lib (field_value lib v) = Some type")
    case False
    then have "read_searchable_text_from lib (f # fs) acc \<noteq> Inr texts"
      by (auto simp: returns)
    moreover have "\<not> reads_member lib f m" for m
      using False by (cases m) (auto simp: reads_member_def reads_simps intro: ccontr)
    ultimately show ?thesis by (auto simp: list_all2_Cons1)
  next
    case True
    then obtain v key type where f: "f = Some v" "field_unescaped_key lib v = Some key"
      "value_type lib (field_value lib v) = Some type" by blast
    have member: "reads_member lib (Some v) m \<longleftrightarrow> fst m = key \<and> reads lib (field_value lib v) (snd m)" for m
      using f by (auto simp: reads_member_def)
    show ?thesis
    proof (cases "type = StringType")
      case True
      then have "reads lib (field_value lib v) t
          \<longleftrightarrow> (\<exists>s. t = Text s \<and> value_get_string lib (field_value lib v) = Some s)" for t
        using f by (simp add: reads_simps)
      with f True show ?thesis
        by (auto simp: Cons.IH returns ex_list_all2_Cons member MaxNestingDepth_def)
    next
      case False
      have empty: "reads lib (field_value lib v) t \<Longrightarrow> (case t of Text s \<Rightarrow> [s] | _ \<Rightarrow> []) = []" for t
        using f False by (cases type) (auto simp: reads_simps)
      have "(\<exists>ms. list_all2 (reads_member lib) (f # fs) ms
            \<and> list_all (\<lambda>m. nesting (snd m) \<le> MaxNestingDepth) ms \<and> texts = acc @ top_level_texts ms)
          \<longleftrightarrow> (\<exists>t. reads lib (field_value lib v) t \<and> nesting t \<le> MaxNestingDepth)
            \<and> (\<exists>ms. list_all2 (reads_member lib) fs ms
              \<and> list_all (\<lambda>m. nesting (snd m) \<le> MaxNestingDepth) ms \<and> texts = acc @ top_level_texts ms)"
        unfolding f(1) ex_list_all2_Cons member
        by (simp add: empty split_paired_Ex cong: conj_cong) blast
      moreover have "read_searchable_text_from lib (f # fs) acc = Inr texts \<longleftrightarrow>
          reads_within lib 1 (field_value lib v) \<and> read_searchable_text_from lib fs acc = Inr texts"
        using f False by (simp add: returns validate_iff)
      ultimately show ?thesis by (simp add: Cons.IH reads_within_def)
    qed
  qed
qed

lemma read_document_iff:
  "read_document lib v index = Inr d \<longleftrightarrow> reads_document lib (Some v) d"
  by (auto simp: read_document_def reads_document_def returns read_searchable_text_def
      read_searchable_text_from_iff not_an_object_def split: option.splits sum.splits)

lemma read_documents_from_iff:
  "length acc \<le> MaxBatchDocuments \<Longrightarrow>
   read_documents_from lib es acc = Inr ds \<longleftrightarrow>
     (\<exists>new. list_all2 (reads_document lib) es new \<and> ds = acc @ new
        \<and> ds \<noteq> [] \<and> length ds \<le> MaxBatchDocuments)"
proof (induction es arbitrary: acc)
  case Nil
  then show ?case by auto
next
  case (Cons e es)
  show ?case
  proof (cases "length acc = MaxBatchDocuments")
    case True
    then show ?thesis
      by (auto simp: too_many_documents_def list_all2_Cons1)
  next
    case False
    with Cons.prems have "length (acc @ [d]) \<le> MaxBatchDocuments" for d by simp
    with Cons.IH False show ?thesis
      by (cases e) (auto simp: returns read_document_iff list_all2_Cons1 reads_document_def [of lib None])
  qed
qed

lemma parse_document_batch_iff:
  "parse_document_batch lib text = Inr ds \<longleftrightarrow>
     (\<exists>document array. iterate lib text = Some document \<and> document_get_array lib document = Some array
        \<and> list_all2 (reads_document lib) (array_elements lib array) ds
        \<and> length ds \<in> {1..MaxBatchDocuments} \<and> document_at_end lib document)"
  by (auto simp: parse_document_batch_def returns read_documents_def read_documents_from_iff Suc_le_eq)

subsection \<open>Errors\<close>

text \<open>A value that reads completely is refused only for its depth.\<close>

lemma validate_elements_reads:
  assumes "list_all2 (\<lambda>e t. \<exists>w. e = Some w \<and> (\<forall>d. validate_value lib w d =
      (if d + nesting t \<le> MaxNestingDepth + 1 then Inr () else nested_too_deeply))) es ts"
  shows "validate_elements lib es depth =
    (if list_all (\<lambda>t. Suc depth + nesting t \<le> MaxNestingDepth + 1) ts then Inr () else nested_too_deeply)"
  using assms
  by (induction es ts rule: list_all2_induct)
    (auto simp: nested_too_deeply_def malformed_batch_def failure_def failure_of_def)

lemma validate_fields_reads:
  assumes "list_all2 (\<lambda>f m. \<exists>w. f = Some w \<and> field_unescaped_key lib w = Some (fst m)
      \<and> (\<forall>d. validate_value lib (field_value lib w) d =
        (if d + nesting (snd m) \<le> MaxNestingDepth + 1 then Inr () else nested_too_deeply))) fs ms"
  shows "validate_fields lib fs depth =
    (if list_all (\<lambda>m. Suc depth + nesting (snd m) \<le> MaxNestingDepth + 1) ms then Inr ()
     else nested_too_deeply)"
  using assms
  by (induction fs ms rule: list_all2_induct)
    (auto simp: nested_too_deeply_def malformed_batch_def failure_def failure_of_def)

lemma validate_value_reads:
  "reads lib v t \<Longrightarrow> validate_value lib v depth =
     (if depth + nesting t \<le> MaxNestingDepth + 1 then Inr () else nested_too_deeply)"
proof (induction arbitrary: depth rule: reads.induct)
  case (reads_array v a ts)
  have "list_all2 (\<lambda>e t. \<exists>w. e = Some w \<and> (\<forall>d. validate_value lib w d =
      (if d + nesting t \<le> MaxNestingDepth + 1 then Inr () else nested_too_deeply))) (array_elements lib a) ts"
    using reads_array(3) by (rule list_all2_mono) blast
  from validate_elements_reads [OF this] reads_array(1,2) show ?case
    by (auto simp: validate_value.simps [of lib v] validate_array.simps [of lib v] add_foldr_max_le)
next
  case (reads_object v obj ms)
  have "list_all2 (\<lambda>f m. \<exists>w. f = Some w \<and> field_unescaped_key lib w = Some (fst m)
      \<and> (\<forall>d. validate_value lib (field_value lib w) d =
        (if d + nesting (snd m) \<le> MaxNestingDepth + 1 then Inr () else nested_too_deeply)))
      (object_fields lib obj) ms"
    using reads_object(3) by (rule list_all2_mono) blast
  from validate_fields_reads [OF this] reads_object(1,2) show ?case
    by (auto simp: validate_value.simps [of lib v] validate_object.simps [of lib v] add_foldr_max_le)
qed (auto simp: validate_value.simps [of lib] reads_as_scalar_def)

text \<open>Every refusal of a body is a \<open>MalformedRequest\<close>.\<close>

definition refuses_as_malformed :: "'a result \<Rightarrow> bool" where
  "refuses_as_malformed r \<longleftrightarrow> (case r of Inl e \<Rightarrow> code e = MalformedRequest | Inr _ \<Rightarrow> True)"

lemma refuses_as_malformed_simps [simp]:
  "refuses_as_malformed (Inr x)" "refuses_as_malformed (malformed_batch m)"
  "refuses_as_malformed nested_too_deeply" "refuses_as_malformed too_many_documents"
  "refuses_as_malformed (not_an_object n)" "refuses_as_malformed (failure_of e) \<longleftrightarrow> code e = MalformedRequest"
  by (simp_all add: refuses_as_malformed_def malformed_batch_def failure_def nested_too_deeply_def
      too_many_documents_def not_an_object_def failure_of_def)

lemma refuses_case:
  "refuses_as_malformed r \<Longrightarrow> (\<And>x. r = Inr x \<Longrightarrow> refuses_as_malformed (f x)) \<Longrightarrow>
   refuses_as_malformed (case r of Inl e \<Rightarrow> failure_of e | Inr x \<Rightarrow> f x)"
  by (cases r) (simp_all add: refuses_as_malformed_def failure_of_def)

lemma refuses_option_case:
  "refuses_as_malformed n \<Longrightarrow> (\<And>x. r = Some x \<Longrightarrow> refuses_as_malformed (f x)) \<Longrightarrow>
   refuses_as_malformed (case r of None \<Rightarrow> n | Some x \<Rightarrow> f x)"
  by (cases r) simp_all

lemmas refuses_cases = refuses_case refuses_option_case

lemma validate_refuses:
  "refuses_as_malformed (validate_value lib v depth)"
  "refuses_as_malformed (validate_array lib v depth)"
  "refuses_as_malformed (validate_object lib v depth)"
  "refuses_as_malformed (validate_elements lib es depth)"
  "refuses_as_malformed (validate_fields lib fs depth)"
proof (induction lib v depth and lib v depth and lib v depth and lib es depth and lib fs depth
    rule: validate_value_validate_array_validate_object_validate_elements_validate_fields.induct)
  case (1 lib v depth)
  then show ?case by (auto simp: validate_value.simps [of lib v] split: option.split)
next
  case (2 lib v depth)
  then show ?case by (auto simp: validate_array.simps [of lib v] split: option.split)
next
  case (3 lib v depth)
  then show ?case by (auto simp: validate_object.simps [of lib v] split: option.split)
next
  case (5 lib e es depth)
  then show ?case by (auto intro!: refuses_cases)
next
  case (7 lib f fs depth)
  then show ?case by (auto intro!: refuses_cases)
qed simp_all

lemma read_searchable_text_refuses: "refuses_as_malformed (read_searchable_text_from lib fs acc)"
proof (induction fs arbitrary: acc)
  case (Cons f fs)
  then show ?case
    using validate_refuses(1) [of lib]
    by (auto intro!: refuses_cases)
qed simp

lemma read_document_refuses: "refuses_as_malformed (read_document lib e n)"
  using read_searchable_text_refuses [of lib]
  by (auto simp: read_document_def read_searchable_text_def intro!: refuses_cases)

lemma read_documents_refuses: "refuses_as_malformed (read_documents_from lib es acc)"
proof (induction es arbitrary: acc)
  case (Cons e es)
  then show ?case
    using read_document_refuses [of lib]
    by (auto intro!: refuses_cases)
qed simp

lemma parse_document_batch_refuses:
  "parse_document_batch lib text = Inl e \<Longrightarrow> code e = MalformedRequest"
proof -
  have "refuses_as_malformed (parse_document_batch lib text)"
    using read_documents_refuses [of lib]
    by (auto simp: parse_document_batch_def read_documents_def intro!: refuses_cases)
  then show "parse_document_batch lib text = Inl e \<Longrightarrow> code e = MalformedRequest"
    by (simp add: refuses_as_malformed_def)
qed

subsection \<open>The body of a response\<close>

definition ingest_members :: "nat \<Rightarrow> add_documents_outcome \<Rightarrow> int \<Rightarrow> member list" where
  "ingest_members received outcome processing_time =
     [(''received'', JInt (int received)), (''indexed'', JInt (int (indexed outcome)))]
     @ (case outcome_primary_key outcome of None \<Rightarrow> [] | Some key \<Rightarrow> [(''primaryKey'', JString key)])
     @ [(''processingTimeMs'', JInt processing_time)]"

lemma to_string_int_of_nat [simp]: "to_string_int (int n) = to_string n"
  by (simp add: to_string_int_def)

lemma json_string_ingest_keys:
  "json_string ''received'' = ''\"received\"''" "json_string ''indexed'' = ''\"indexed\"''"
  "json_string ''primaryKey'' = ''\"primaryKey\"''"
  "json_string ''processingTimeMs'' = ''\"processingTimeMs\"''"
  by code_simp+

lemma ingest_result_json_render:
  "ingest_result_json received outcome processing_time
     = render_object (ingest_members received outcome processing_time)"
  by (simp add: ingest_result_json_def ingest_members_def Let_def append_json_string_append
      render_object_def render_member_def json_string_ingest_keys split: option.split)

lemma without_trailing_whitespace_rev:
  "without_trailing_whitespace json =
     rev (dropWhile (\<lambda>c. c \<in> set [CHR '' '', CHR 0x09, CHR 0x0A, CHR 0x0D]) (rev json))"
proof (cases "index_where (\<lambda>c. c \<notin> set [CHR '' '', CHR 0x09, CHR 0x0A, CHR 0x0D]) (rev json)")
  case None
  then have "\<forall>c \<in> set (rev json). c \<in> set [CHR '' '', CHR 0x09, CHR 0x0A, CHR 0x0D]"
    by (simp only: index_where_None) blast
  then have "dropWhile (\<lambda>c. c \<in> set [CHR '' '', CHR 0x09, CHR 0x0A, CHR 0x0D]) (rev json) = []"
    by (simp only: dropWhile_eq_Nil_conv)
  with None show ?thesis
    by (simp only: without_trailing_whitespace_def find_last_not_of_def option.map option.case rev.simps)
next
  case (Some i)
  have i: "i < length json" using index_where_Some(1) [OF Some] by simp
  have "rev (drop i (rev json)) = take (length json - 1 - i + 1) json"
    using i by (simp add: drop_rev Suc_diff_Suc)
  moreover have "drop i (rev json)
      = dropWhile (\<lambda>c. c \<in> set [CHR '' '', CHR 0x09, CHR 0x0A, CHR 0x0D]) (rev json)"
    using index_where_take_drop(2) [OF Some] by simp
  ultimately show ?thesis
    using Some by (simp add: without_trailing_whitespace_def find_last_not_of_def substr_def)
qed

lemma without_trailing_whitespace_brace:
  assumes "list_all (\<lambda>c. c \<in> set [CHR '' '', CHR 0x09, CHR 0x0A, CHR 0x0D]) blanks"
  shows "without_trailing_whitespace (obj @ ''}'' @ blanks) = obj @ ''}''"
proof -
  have "dropWhile (\<lambda>c. c \<in> set [CHR '' '', CHR 0x09, CHR 0x0A, CHR 0x0D])
      (rev blanks @ CHR ''}'' # rev obj) = CHR ''}'' # rev obj"
    using assms by (subst dropWhile_append2) (auto simp: list_all_iff)
  then show ?thesis by (simp add: without_trailing_whitespace_rev)
qed

text \<open>The field pass over an object whose members all read.\<close>

lemma read_searchable_text_reads:
  assumes "list_all2 (reads_member lib) fs ms"
  shows "read_searchable_text_from lib fs acc =
    (if list_all (\<lambda>m. nesting (snd m) \<le> MaxNestingDepth) ms then Inr (acc @ top_level_texts ms)
     else malformed_batch (''A document nests more than '' @ to_string MaxNestingDepth @ '' levels deep.''))"
  using assms
proof (induction fs ms arbitrary: acc rule: list_all2_induct)
  case Nil
  then show ?case by simp
next
  case (Cons f fs m ms)
  obtain w where w: "f = Some w" "field_unescaped_key lib w = Some (fst m)" "reads lib (field_value lib w) (snd m)"
    using Cons.hyps(1) by (auto simp: reads_member_def)
  show ?case
  proof (cases "\<exists>x. snd m = Text x")
    case True
    then obtain x where "snd m = Text x" by blast
    with w Cons.IH show ?thesis by (simp add: reads_text_iff MaxNestingDepth_def)
  next
    case False
    with w(3) obtain ty where "value_type lib (field_value lib w) = Some ty" "ty \<noteq> StringType"
      by (rule reads_not_text)
    moreover have "(case snd m of Text x \<Rightarrow> [x] | _ \<Rightarrow> []) = []"
      using False by (auto split: json.split)
    ultimately show ?thesis
      using w Cons.IH validate_value_reads [OF w(3), of 1]
      by (simp add: nested_too_deeply_def malformed_batch_def failure_def failure_of_def)
  qed
qed

subsection \<open>Properties\<close>

text \<open>
  C10. FR-14, ADR-004: a body is accepted exactly when the parser gives an array of 1 to 10000
  elements and nothing after it, and every element is an object all of whose keys and values read
  completely and nest at most 128 levels; the documents are then, in order, each object's bytes
  without trailing blanks and its top-level strings.
\<close>

theorem parse_document_batch_exact:
  "parse_document_batch lib text = Inr ds \<longleftrightarrow>
     (\<exists>document array. iterate lib text = Some document \<and> document_get_array lib document = Some array
        \<and> length ds \<in> {1..10000} \<and> document_at_end lib document
        \<and> list_all2 (\<lambda>e d. \<exists>v obj source moved rewound ms. e = Some v \<and> value_get_object lib v = Some obj
             \<and> object_raw_json lib obj = Some (source, moved) \<and> object_reset lib moved = Some rewound
             \<and> list_all2 (reads_member lib) (object_fields lib rewound) ms
             \<and> list_all (\<lambda>m. nesting (snd m) \<le> 128) ms
             \<and> d = \<lparr>doc_source = without_trailing_whitespace source, searchable_text = top_level_texts ms\<rparr>)
           (array_elements lib array) ds)"
  by (auto simp: parse_document_batch_iff reads_document_def [abs_def] MaxBatchDocuments_def
      MaxNestingDepth_def)

text \<open>
  C19. Validation of a value that reads completely refuses exactly the one that nests past 128
  levels below the document, and says so; a value it accepts reads completely.
\<close>

theorem validate_value_depth:
  "(reads lib v t \<longrightarrow> validate_value lib v depth =
      (if depth + nesting t \<le> 129 then Inr ()
       else failure MalformedRequest ''A document nests more than 128 levels deep.''))
   \<and> (validate_value lib v depth = Inr () \<longleftrightarrow> (\<exists>u. reads lib v u \<and> depth + nesting u \<le> 129))"
proof -
  have "to_string 128 = ''128''" by code_simp
  then show ?thesis
    using validate_value_reads [of lib v t depth] validate_iff(1) [of lib v depth]
    by (simp add: reads_within_def MaxNestingDepth_def nested_too_deeply_def malformed_batch_def)
qed

theorem validate_value_depth_witness:
  "reads text_reader (AtValue (VArray [VNull])) (Arr [Null])
   \<and> validate_value text_reader (AtValue (VArray [VNull])) 127 = Inr ()
   \<and> validate_value text_reader (AtValue (VArray [VNull])) 128
     = failure MalformedRequest ''A document nests more than 128 levels deep.''"
proof -
  have "reads text_reader (AtValue (VArray [VNull])) (Arr [Null])"
    by (simp add: reads_simps text_reader_def reads_element_def)
  with validate_value_depth [of text_reader "AtValue (VArray [VNull])" "Arr [Null]" 127]
    validate_value_depth [of text_reader "AtValue (VArray [VNull])" "Arr [Null]" 128]
  show ?thesis by simp
qed

lemma nested_too_deeply_128:
  "nested_too_deeply = failure MalformedRequest ''A document nests more than 128 levels deep.''"
proof -
  have "to_string 128 = ''128''" by code_simp
  then show ?thesis by (simp add: MaxNestingDepth_def nested_too_deeply_def malformed_batch_def)
qed

lemma nested_too_deeply_fails [simp]:
  "(case nested_too_deeply of Inl e \<Rightarrow> f e | Inr u \<Rightarrow> g u) = f \<lparr>code = MalformedRequest,
     message = ''A document nests more than 128 levels deep.''\<rparr>"
  "failure_of \<lparr>code = MalformedRequest, message = ''A document nests more than 128 levels deep.''\<rparr> = nested_too_deeply"
  by (simp_all add: nested_too_deeply_128 failure_def failure_of_def)

subsection \<open>The recursion on the worker's stack\<close>

lemmas validation_Value = validation.simps [of _ "OfValue v depth" for v depth]
lemmas validation_Array = validation.simps [of _ "OfArray v depth" for v depth]
lemmas validation_Object = validation.simps [of _ "OfObject v depth" for v depth]
lemmas validation_Elements = validation.simps [of _ "OfElements es depth" for es depth]
lemmas validation_Fields = validation.simps [of _ "OfFields fs depth" for fs depth]

lemma validation_returns:
  "\<exists>frames \<le> 2 * (129 - depth) + 1. validation lib (OfValue v depth) = Some (validate_value lib v depth, frames)"
  "\<exists>frames \<le> 2 * (128 - depth) + 2. validation lib (OfArray v depth) = Some (validate_array lib v depth, frames)"
  "\<exists>frames \<le> 2 * (128 - depth) + 2. validation lib (OfObject v depth) = Some (validate_object lib v depth, frames)"
  "\<exists>frames \<le> 2 * (128 - depth) + 1. validation lib (OfElements es depth) = Some (validate_elements lib es depth, frames)"
  "\<exists>frames \<le> 2 * (128 - depth) + 1. validation lib (OfFields fs depth) = Some (validate_fields lib fs depth, frames)"
proof (induction lib v depth and lib v depth and lib v depth and lib es depth and lib fs depth
    rule: validate_value_validate_array_validate_object_validate_elements_validate_fields.induct)
  case (1 lib v depth)
  show ?case
  proof (cases "depth > MaxNestingDepth")
    case True
    then show ?thesis by (simp add: validation_Value validate_value.simps in_frame_def)
  next
    case False
    then have "2 * (129 - depth) + 1 = Suc (2 * (128 - depth) + 2)" by (simp add: MaxNestingDepth_def)
    with 1 False show ?thesis
      by (auto simp: validation_Value validate_value.simps in_frame_def
          split: option.split)
  qed
next
  case (2 lib v depth)
  then show ?case
    by (cases "value_get_array lib v")
      (auto simp: validation_Array validate_array.simps in_frame_def)
next
  case (3 lib v depth)
  then show ?case
    by (cases "value_get_object lib v")
      (auto simp: validation_Object validate_object.simps in_frame_def)
next
  case (4 lib depth)
  then show ?case by (simp add: validation_Elements)
next
  case (5 lib e rest depth)
  show ?case
  proof (cases e)
    case None
    then show ?thesis by (simp add: validation_Elements)
  next
    case (Some v)
    from "5.IH"(1) [OF Some] obtain n where n: "n \<le> 2 * (128 - depth) + 1"
      "validation lib (OfValue v (depth + 1)) = Some (validate_value lib v (depth + 1), n)" by auto
    show ?thesis
    proof (cases "validate_value lib v (depth + 1)")
      case (Inl e)
      with n Some show ?thesis by (simp add: validation_Elements)
    next
      case (Inr u)
      from "5.IH"(2) [OF Some Inr] obtain m where "m \<le> 2 * (128 - depth) + 1"
        "validation lib (OfElements rest depth) = Some (validate_elements lib rest depth, m)" by auto
      with n Some Inr show ?thesis
        by (intro exI [of _ "max n m"]) (simp add: validation_Elements)
    qed
  qed
next
  case (6 lib depth)
  then show ?case by (simp add: validation_Fields)
next
  case (7 lib f rest depth)
  show ?case
  proof (cases f)
    case None
    then show ?thesis by (simp add: validation_Fields)
  next
    case (Some w)
    show ?thesis
    proof (cases "field_unescaped_key lib w")
      case None
      with Some show ?thesis by (simp add: validation_Fields)
    next
      case key: (Some key)
      from "7.IH"(1) [OF Some key] obtain n where n: "n \<le> 2 * (128 - depth) + 1"
        "validation lib (OfValue (field_value lib w) (depth + 1))
          = Some (validate_value lib (field_value lib w) (depth + 1), n)" by auto
      show ?thesis
      proof (cases "validate_value lib (field_value lib w) (depth + 1)")
        case (Inl e)
        with n Some key show ?thesis by (simp add: validation_Fields)
      next
        case (Inr u)
        from "7.IH"(2) [OF Some key Inr] obtain m where "m \<le> 2 * (128 - depth) + 1"
          "validation lib (OfFields rest depth) = Some (validate_fields lib rest depth, m)" by auto
        with n Some key Inr show ?thesis
          by (intro exI [of _ "max n m"]) (simp add: validation_Fields)
      qed
    qed
  qed
qed

text \<open>A parser that gives an array that holds itself goes as deep as the limit lets it.\<close>

definition looping_reader :: "unit simdjson" where
  "looping_reader =
     \<lparr>iterate = (\<lambda>s. None), document_get_object = (\<lambda>h. None), document_get_array = (\<lambda>h. None),
      document_at_end = (\<lambda>h. True), array_elements = (\<lambda>h. [Some h]), object_fields = (\<lambda>h. []),
      object_raw_json = (\<lambda>h. None), object_reset = (\<lambda>h. None), field_unescaped_key = (\<lambda>h. None),
      field_value = id, value_type = (\<lambda>h. Some ArrayType), value_get_object = (\<lambda>h. None),
      value_get_array = Some, value_get_string = (\<lambda>h. None), value_get_double = (\<lambda>h. None),
      value_get_bool = (\<lambda>h. None), value_is_null = (\<lambda>h. None)\<rparr>"

lemma looping_reader_simps:
  "value_type looping_reader v = Some ArrayType"
  "value_get_array looping_reader v = Some v"
  "array_elements looping_reader v = [Some v]"
  by (simp_all add: looping_reader_def)

lemma looping_recursion:
  "n \<le> 128 \<Longrightarrow> validation looping_reader (OfValue () (129 - n)) = Some (nested_too_deeply, 2 * n + 1)"
proof (induction n)
  case 0
  then show ?case by (simp add: validation_Value in_frame_def MaxNestingDepth_def)
next
  case (Suc n)
  have deeper: "Suc (128 - n) = 129 - n" using Suc.prems by simp
  have "validation looping_reader (OfElements [Some ()] (129 - Suc n)) = Some (nested_too_deeply, 2 * n + 1)"
    using Suc by (simp add: validation_Elements deeper)
  then have "validation looping_reader (OfArray () (129 - Suc n)) = Some (nested_too_deeply, 2 * n + 2)"
    by (simp add: validation_Array in_frame_def looping_reader_simps)
  then show ?case
    by (simp add: validation_Value in_frame_def MaxNestingDepth_def looping_reader_simps)
qed

text \<open>
  C27. NFR-07: validation returns, on a stack of at most 257 calls. The functions as the code has them
  return for every value at every depth, whatever handles the parser gives, cycles included, and with
  what \<open>validate_value\<close> says; and the calls that are open at once are two for each level that is left
  below the limit, and one. A field of a document is validated at depth 1, where that makes 257.
\<close>

theorem validation_recursion_bounded:
  "\<exists>frames. validation lib (OfValue v depth) = Some (validate_value lib v depth, frames)
     \<and> frames \<le> 2 * (129 - depth) + 1"
  using validation_returns(1) [of depth lib v] by blast

theorem validation_recursion_bounded_witness:
  "validation looping_reader (OfValue () 1)
      = Some (failure MalformedRequest ''A document nests more than 128 levels deep.'', 257)
   \<and> validate_value looping_reader () 1
      = failure MalformedRequest ''A document nests more than 128 levels deep.''"
proof -
  have "validation looping_reader (OfValue () 1) = Some (nested_too_deeply, 257)"
    using looping_recursion [of 128] by simp
  with validation_recursion_bounded [of looping_reader "()" 1] show ?thesis by (simp add: nested_too_deeply_128)
qed

text \<open>
  ADR-004: what is stored of a document is its text without the blanks the parser left after it,
  and nothing else is cut: of an object's text and any blanks after it, exactly the object's text.
\<close>

theorem stored_source_exact:
  assumes "list_all (\<lambda>c. c \<in> set [CHR '' '', CHR 0x09, CHR 0x0A, CHR 0x0D]) blanks"
  shows "without_trailing_whitespace (obj @ ''}'' @ blanks) = obj @ ''}''"
  using assms by (rule without_trailing_whitespace_brace)

theorem stored_source_exact_witness:
  "without_trailing_whitespace ''{\"a\":1}  '' = ''{\"a\":1}''"
  using stored_source_exact [of "''  ''" "''{\"a\":1''"] by simp

lemma batch_error_status:
  "parse_document_batch lib text = Inl e \<Longrightarrow> status (error_response e) = 400"
  by (simp add: status_error_response parse_document_batch_refuses)

lemma uid_error_status: "parse_uid text = Inl e \<Longrightarrow> status (error_response e) = 400"
  by (simp add: status_error_response parse_uid_error_code)

text \<open>An accepted batch, and what it leaves in the repository.\<close>

definition target_entry :: "catalog \<Rightarrow> index_uid \<Rightarrow> timestamp \<Rightarrow> index_metadata \<times> document list" where
  "target_entry A u now = (case A (uid_value u) of None \<Rightarrow> (new_index u None now, []) | Some entry \<Rightarrow> entry)"

definition room_for_batch :: "catalog \<Rightarrow> bool" where
  "room_for_batch A \<longleftrightarrow> (\<forall>entry \<in> ran A. length (snd entry) + MaxBatchDocuments \<le> 2 ^ 32)"

lemma room_for_batch_empty [simp]: "room_for_batch Map.empty"
  by (simp add: room_for_batch_def)

lemma add_documents_response_accepts:
  fixes lib :: "'h simdjson" and uid_text payload :: string
  assumes "repository_holds (repository (services s)) A" and "room_for_batch A"
    and "parse_uid uid_text = Inr u" and "parse_document_batch lib payload = Inr ds"
  defines "answer \<equiv> add_documents_response in_memory_port lib uid_text payload s"
    and "entry \<equiv> target_entry A u (shd (clock (services s)))"
  shows "fst answer = \<lparr>status = 200, body = render_object (ingest_members (length ds)
        \<lparr>indexed = length ds, outcome_primary_key = primary_key (fst entry)\<rparr>
        (milliseconds_of (shd (stl (steady_clock s)) - shd (steady_clock s))))\<rparr>"
    and "repository_holds (repository (services (snd answer))) (A(uid_value u \<mapsto> (fst entry, snd entry @ ds)))"
proof -
  let ?command = "\<lparr>target_uid = u, batch = ds\<rparr>"
  let ?m = "missing_index ?command (shd (clock (services s)))"
  have "length ds \<le> MaxBatchDocuments" using assms(4) by (auto simp: parse_document_batch_iff)
  moreover have "length (snd e) + MaxBatchDocuments \<le> 2 ^ 32" if "A (uid_value u) = Some e" for e
    using assms(2) that unfolding room_for_batch_def by (blast intro: ranI)
  ultimately have "has_room A ?m ds"
    by (cases "A (uid_value u)") (fastforce simp: has_room_def catalog_entry_def MaxBatchDocuments_def)+
  with memory.add_documents_stored [OF assms(1), of ?command]
  have stored: "fst (add_documents in_memory_port ?command (services s)) =
      Inr \<lparr>indexed = length ds, outcome_primary_key = primary_key (fst (catalog_entry A ?m))\<rparr>"
    "repository_holds (repository (snd (add_documents in_memory_port ?command (services s))))
      (A(uid_value u \<mapsto> (fst (catalog_entry A ?m), snd (catalog_entry A ?m) @ ds)))"
    by simp_all
  have entry: "catalog_entry A ?m = entry"
    by (simp add: catalog_entry_def missing_index_def entry_def target_entry_def)
  show "fst answer = \<lparr>status = 200, body = render_object (ingest_members (length ds)
        \<lparr>indexed = length ds, outcome_primary_key = primary_key (fst entry)\<rparr>
        (milliseconds_of (shd (stl (steady_clock s)) - shd (steady_clock s))))\<rparr>"
    using stored(1) assms(3,4)
    by (simp add: answer_def add_documents_response_def Let_def case_prod_beta ingest_result_json_render
        OkStatus_def entry)
  show "repository_holds (repository (services (snd answer))) (A(uid_value u \<mapsto> (fst entry, snd entry @ ds)))"
    using stored assms(3,4)
    by (simp add: answer_def add_documents_response_def Let_def case_prod_beta entry)
qed

text \<open>
  C11. POST /indexes/{uid}/documents on the in-memory repository: when the uid and the body are valid
  the whole batch is stored, under 200 with the counts, the stored index's primary key if it has one
  and the elapsed milliseconds; when either is not, the answer is a 400 and nothing changed.
\<close>

theorem add_documents_response_outcome:
  fixes lib :: "'h simdjson" and uid_text payload :: string
  assumes "repository_holds (repository (services s)) A" and "room_for_batch A"
  defines "answer \<equiv> add_documents_response in_memory_port lib uid_text payload s"
  shows "case (parse_uid uid_text, parse_document_batch lib payload) of
      (Inr u, Inr ds) \<Rightarrow>
        (case target_entry A u (shd (clock (services s))) of (m, old) \<Rightarrow>
          status (fst answer) = 200
          \<and> read_object (body (fst answer)) = Some
              ([(''received'', JInt (int (length ds))), (''indexed'', JInt (int (length ds)))]
               @ (case primary_key m of None \<Rightarrow> [] | Some key \<Rightarrow> [(''primaryKey'', JString key)])
               @ [(''processingTimeMs'',
                   JInt (milliseconds_of (shd (stl (steady_clock s)) - shd (steady_clock s))))])
          \<and> repository_holds (repository (services (snd answer))) (A(uid_value u \<mapsto> (m, old @ ds))))
    | _ \<Rightarrow> status (fst answer) = 400 \<and> services (snd answer) = services s"
proof (cases "parse_uid uid_text")
  case (Inl e)
  then show ?thesis
    by (simp add: answer_def add_documents_response_def Let_def uid_error_status)
next
  case uid: (Inr u)
  show ?thesis
  proof (cases "parse_document_batch lib payload")
    case (Inl e)
    with uid show ?thesis
      by (simp add: answer_def add_documents_response_def Let_def batch_error_status)
  next
    case (Inr ds)
    with add_documents_response_accepts [OF assms(1,2) uid Inr] uid show ?thesis
      by (simp add: answer_def case_prod_beta wire ingest_members_def)
  qed
qed

definition start_routes :: "in_memory_repository route_state" where
  "start_routes = \<lparr>health = new_health_service, services = start_state, steady_clock = sconst 0\<rparr>"

theorem add_documents_response_outcome_witness:
  "repository_holds (repository (services start_routes)) Map.empty
   \<and> status (fst (add_documents_response in_memory_port text_reader ''products''
        ''[{\"title\":\"DDR5 kit\"}]'' start_routes)) = 200"
proof -
  have holds: "repository_holds (repository (services start_routes)) Map.empty"
    by (simp add: start_routes_def)
  have "parse_uid ''products'' = Inr (IndexUid ''products'')"
    and "parse_document_batch text_reader ''[{\"title\":\"DDR5 kit\"}]''
      = Inr [\<lparr>doc_source = ''{\"title\":\"DDR5 kit\"}'', searchable_text = [''DDR5 kit'']\<rparr>]"
    by code_simp+
  with add_documents_response_outcome [OF holds, of text_reader "''products''" "''[{\"title\":\"DDR5 kit\"}]''"]
    holds
  show ?thesis by simp
qed

end
