(* ===== verification/Index_Routes.thy ===== *)
theory Index_Routes
  imports Document_Routes
begin

text \<open>
  \<open>src/adapters/http/index_routes.cpp\<close>: POST /indexes. The functions that fill \<open>CreateIndexFields\<close>
  through a reference return the filled record; what they leave in it when they fail is dropped with
  the error, as the code drops it.
\<close>

definition UidField :: string where
  "UidField = ''uid''"

definition PrimaryKeyField :: string where
  "PrimaryKeyField = ''primaryKey''"

definition CreatedStatus :: int where
  "CreatedStatus = 201"

record CreateIndexFields =
  field_uid :: "string option"
  has_primary_key :: bool
  field_primary_key :: "string option"

definition no_fields :: CreateIndexFields where
  "no_fields = \<lparr>field_uid = None, has_primary_key = False, field_primary_key = None\<rparr>"

definition not_json :: string where
  "not_json = ''The request body is not valid JSON.''"

definition malformed :: "string \<Rightarrow> 'a result" where
  "malformed m = failure MalformedRequest m"

definition field_must_be :: "string \<Rightarrow> string \<Rightarrow> 'a result" where
  "field_must_be field_name expectation =
     malformed (''Field `'' @ field_name @ ''` must be '' @ expectation @ ''.'')"

definition appears_more_than_once :: "string \<Rightarrow> 'a result" where
  "appears_more_than_once field_name =
     malformed (''Field `'' @ field_name @ ''` appears more than once.'')"

definition unknown_field :: "string \<Rightarrow> 'a result" where
  "unknown_field field_name = failure UnknownField (''Unknown field `'' @ field_name @ ''`.'')"

definition read_uid :: "'h simdjson \<Rightarrow> 'h \<Rightarrow> CreateIndexFields \<Rightarrow> CreateIndexFields result" where
  "read_uid lib v so_far =
     (if field_uid so_far \<noteq> None then appears_more_than_once UidField
      else case value_get_string lib v of
        None \<Rightarrow> field_must_be UidField ''a string''
      | Some u \<Rightarrow> Inr (so_far\<lparr>field_uid := Some u\<rparr>))"

definition read_primary_key :: "'h simdjson \<Rightarrow> 'h \<Rightarrow> CreateIndexFields \<Rightarrow> CreateIndexFields result" where
  "read_primary_key lib v so_far =
     (if has_primary_key so_far then appears_more_than_once PrimaryKeyField
      else let marked = so_far\<lparr>has_primary_key := True\<rparr>
      in case value_is_null lib v of
        None \<Rightarrow> field_must_be PrimaryKeyField ''a string or null''
      | Some is_null \<Rightarrow>
          if is_null then Inr marked
          else case value_get_string lib v of
            None \<Rightarrow> field_must_be PrimaryKeyField ''a string or null''
          | Some key \<Rightarrow> Inr (marked\<lparr>field_primary_key := Some key\<rparr>))"

definition read_field :: "'h simdjson \<Rightarrow> 'h \<Rightarrow> CreateIndexFields \<Rightarrow> CreateIndexFields result" where
  "read_field lib field so_far =
     (case field_unescaped_key lib field of
        None \<Rightarrow> malformed not_json
      | Some key \<Rightarrow>
          if key = UidField then read_uid lib (field_value lib field) so_far
          else if key = PrimaryKeyField then read_primary_key lib (field_value lib field) so_far
          else unknown_field key)"

fun read_fields_from :: "'h simdjson \<Rightarrow> 'h option list \<Rightarrow> CreateIndexFields \<Rightarrow> CreateIndexFields result" where
  "read_fields_from lib [] so_far = Inr so_far"
| "read_fields_from lib (field_result # rest) so_far =
     (case field_result of
        None \<Rightarrow> malformed not_json
      | Some field \<Rightarrow>
          (case read_field lib field so_far of
             Inl e \<Rightarrow> failure_of e
           | Inr updated \<Rightarrow> read_fields_from lib rest updated))"

definition read_fields :: "'h simdjson \<Rightarrow> 'h \<Rightarrow> CreateIndexFields result" where
  "read_fields lib obj = read_fields_from lib (object_fields lib obj) no_fields"

definition to_command :: "CreateIndexFields \<Rightarrow> create_index_command result" where
  "to_command so_far =
     (case field_uid so_far of
        None \<Rightarrow> malformed ''Field `uid` is required.''
      | Some text \<Rightarrow>
          (case parse_uid text of
             Inl e \<Rightarrow> failure_of e
           | Inr index_uid \<Rightarrow>
               Inr \<lparr>command_uid = index_uid, command_primary_key = field_primary_key so_far\<rparr>))"

definition parse_create_index_request :: "'h simdjson \<Rightarrow> string \<Rightarrow> create_index_command result" where
  "parse_create_index_request lib text =
     (case iterate lib text of
        None \<Rightarrow> malformed not_json
      | Some document \<Rightarrow>
          (case document_get_object lib document of
             None \<Rightarrow> malformed ''The request body must be a JSON object.''
           | Some obj \<Rightarrow>
               (case read_fields lib obj of
                  Inl e \<Rightarrow> failure_of e
                | Inr so_far \<Rightarrow>
                    if \<not> document_at_end lib document then malformed not_json
                    else to_command so_far)))"

definition index_json :: "index_metadata \<Rightarrow> string" where
  "index_json index =
     (let b1 = append_json_string ''{\"uid\":'' (uid_value (uid index));
          b2 = b1 @ '',\"primaryKey\":'';
          b3 = (case primary_key index of Some key \<Rightarrow> append_json_string b2 key | None \<Rightarrow> b2 @ ''null'');
          b4 = append_json_timestamp (b3 @ '',\"createdAt\":'') (created_at index);
          b5 = append_json_timestamp (b4 @ '',\"updatedAt\":'') (updated_at index)
      in b5 @ ''}'')"

definition create_index_response ::
  "'r index_repository \<Rightarrow> 'h simdjson \<Rightarrow> string \<Rightarrow> 'r route_state \<Rightarrow> HttpResponse \<times> 'r route_state" where
  "create_index_response port lib text s =
     (case parse_create_index_request lib text of
        Inl e \<Rightarrow> (error_response e, s)
      | Inr command \<Rightarrow>
          (case create_index port command (services s) of
             (created, called) \<Rightarrow>
               (let s1 = s\<lparr>services := called\<rparr>
                in case created of
                     Inl e \<Rightarrow> (error_response e, s1)
                   | Inr index \<Rightarrow> (\<lparr>status = CreatedStatus, body = index_json index\<rparr>, s1))))"

definition register_index_routes ::
  "('s, 'r route_state) http_server \<Rightarrow> 'r index_repository \<Rightarrow> 'h simdjson \<Rightarrow> 's \<Rightarrow> 's" where
  "register_index_routes http port lib server =
     port_add_route http server Post ''/indexes''
       (\<lambda>request s. map_prod Inr id (create_index_response port lib (request_body request) s))"

subsection \<open>Which bodies are accepted\<close>

text \<open>What one field of the body says, and a handle that reads as it.\<close>

datatype index_field =
    UidIs string
  | PrimaryKeyIs string
  | PrimaryKeyNull

definition reads_index_field :: "'h simdjson \<Rightarrow> 'h option \<Rightarrow> index_field \<Rightarrow> bool" where
  "reads_index_field lib e f \<longleftrightarrow>
     (\<exists>v. e = Some v \<and>
       (case f of
          UidIs u \<Rightarrow> field_unescaped_key lib v = Some ''uid''
            \<and> value_get_string lib (field_value lib v) = Some u
        | PrimaryKeyIs k \<Rightarrow> field_unescaped_key lib v = Some ''primaryKey''
            \<and> value_is_null lib (field_value lib v) = Some False
            \<and> value_get_string lib (field_value lib v) = Some k
        | PrimaryKeyNull \<Rightarrow> field_unescaped_key lib v = Some ''primaryKey''
            \<and> value_is_null lib (field_value lib v) = Some True))"

text \<open>Taking a field in: a second one of the same name is refused.\<close>

fun take_field :: "index_field \<Rightarrow> CreateIndexFields \<Rightarrow> CreateIndexFields option" where
  "take_field (UidIs u) so_far =
     (if field_uid so_far = None then Some (so_far\<lparr>field_uid := Some u\<rparr>) else None)"
| "take_field (PrimaryKeyIs k) so_far =
     (if has_primary_key so_far then None
      else Some (so_far\<lparr>has_primary_key := True, field_primary_key := Some k\<rparr>))"
| "take_field PrimaryKeyNull so_far =
     (if has_primary_key so_far then None else Some (so_far\<lparr>has_primary_key := True\<rparr>))"

fun take_fields :: "index_field list \<Rightarrow> CreateIndexFields \<Rightarrow> CreateIndexFields option" where
  "take_fields [] so_far = Some so_far"
| "take_fields (f # fs) so_far = Option.bind (take_field f so_far) (take_fields fs)"

lemma index_failures [simp]:
  "malformed m \<noteq> Inr x" "field_must_be n e \<noteq> Inr x" "appears_more_than_once n \<noteq> Inr x" "unknown_field n \<noteq> Inr x"
  by (simp_all add: malformed_def field_must_be_def appears_more_than_once_def unknown_field_def)

lemma malformed_returns [returns]:
  "(case r of None \<Rightarrow> malformed m | Some x \<Rightarrow> f x) = Inr y \<longleftrightarrow> (\<exists>x. r = Some x \<and> f x = Inr y)"
  "(case r of None \<Rightarrow> field_must_be n e | Some x \<Rightarrow> f x) = Inr y \<longleftrightarrow> (\<exists>x. r = Some x \<and> f x = Inr y)"
  by (cases r; simp)+

lemma ex_index_field:
  "(\<exists>f. P f) \<longleftrightarrow> (\<exists>u. P (UidIs u)) \<or> (\<exists>k. P (PrimaryKeyIs k)) \<or> P PrimaryKeyNull"
  by (metis index_field.exhaust)

lemma read_field_iff:
  "read_field lib v so_far = Inr taken \<longleftrightarrow>
     (\<exists>f. reads_index_field lib (Some v) f \<and> take_field f so_far = Some taken)"
proof -
  consider "field_unescaped_key lib v = None" | "field_unescaped_key lib v = Some ''uid''"
    | "field_unescaped_key lib v = Some ''primaryKey''"
    | key where "field_unescaped_key lib v = Some key" "key \<noteq> ''uid''" "key \<noteq> ''primaryKey''"
    by (cases "field_unescaped_key lib v") auto
  then show ?thesis
    by cases
      (auto simp: ex_index_field reads_index_field_def read_field_def read_uid_def read_primary_key_def
        UidField_def PrimaryKeyField_def returns Let_def split: option.splits)
qed

lemma read_fields_from_iff:
  "read_fields_from lib es so_far = Inr taken \<longleftrightarrow>
     (\<exists>fs. list_all2 (reads_index_field lib) es fs \<and> take_fields fs so_far = Some taken)"
proof (induction es arbitrary: so_far)
  case Nil
  then show ?case by auto
next
  case (Cons e es)
  show ?case
  proof (cases e)
    case None
    then show ?thesis by (auto simp: list_all2_Cons1 reads_index_field_def)
  next
    case (Some v)
    have "read_fields_from lib (e # es) so_far = Inr taken \<longleftrightarrow>
        (\<exists>f mid. reads_index_field lib e f \<and> take_field f so_far = Some mid
          \<and> read_fields_from lib es mid = Inr taken)"
      by (auto simp: Some returns read_field_iff)
    then show ?thesis
      by (simp add: Cons.IH ex_list_all2_Cons bind_eq_Some_conv) blast
  qed
qed

text \<open>The sequences of fields that are taken in and name a uid.\<close>

lemma take_fields_no_fields:
  "take_fields fs no_fields = Some taken \<and> field_uid taken = Some u \<longleftrightarrow>
     fs = [UidIs u] \<and> taken = \<lparr>field_uid = Some u, has_primary_key = False, field_primary_key = None\<rparr>
     \<or> fs \<in> {[UidIs u, PrimaryKeyNull], [PrimaryKeyNull, UidIs u]}
       \<and> taken = \<lparr>field_uid = Some u, has_primary_key = True, field_primary_key = None\<rparr>
     \<or> (\<exists>k. fs \<in> {[UidIs u, PrimaryKeyIs k], [PrimaryKeyIs k, UidIs u]}
       \<and> taken = \<lparr>field_uid = Some u, has_primary_key = True, field_primary_key = Some k\<rparr>)"
proof -
  consider "fs = []" | f where "fs = [f]" | f g where "fs = [f, g]" | f g h gs where "fs = f # g # h # gs"
    by (metis neq_Nil_conv)
  then show ?thesis
  proof cases
    case 1
    then show ?thesis by (auto simp: no_fields_def)
  next
    case (2 f)
    then show ?thesis by (cases f) (auto simp: no_fields_def)
  next
    case (3 f g)
    then show ?thesis by (cases f; cases g) (auto simp: no_fields_def)
  next
    case (4 f g h gs)
    have "take_fields fs no_fields = None"
      unfolding 4 by (cases f; cases g; cases h) (simp_all add: no_fields_def)
    with 4 show ?thesis by simp
  qed
qed

lemma to_command_iff:
  "to_command taken = Inr command \<longleftrightarrow>
     (\<exists>u. field_uid taken = Some u \<and> parse_uid u = Inr (command_uid command)
        \<and> command_primary_key command = field_primary_key taken)"
  by (cases command) (auto simp: to_command_def returns)

lemma parse_create_index_request_iff:
  "parse_create_index_request lib text = Inr command \<longleftrightarrow>
     (\<exists>document obj fs taken. iterate lib text = Some document
        \<and> document_get_object lib document = Some obj \<and> document_at_end lib document
        \<and> list_all2 (reads_index_field lib) (object_fields lib obj) fs
        \<and> take_fields fs no_fields = Some taken \<and> to_command taken = Inr command)"
  by (auto simp: parse_create_index_request_def read_fields_def read_fields_from_iff returns)

subsection \<open>Errors\<close>

definition refuses_with_400 :: "'a result \<Rightarrow> bool" where
  "refuses_with_400 r \<longleftrightarrow> (case r of Inl e \<Rightarrow> wire_status (wire_error (code e)) = 400 | Inr _ \<Rightarrow> True)"

lemma refuses_with_400_simps [simp]:
  "refuses_with_400 (Inr x)" "refuses_with_400 (malformed m)" "refuses_with_400 (field_must_be n e)"
  "refuses_with_400 (appears_more_than_once n)" "refuses_with_400 (unknown_field n)"
  by (simp_all add: refuses_with_400_def malformed_def failure_def field_must_be_def
      appears_more_than_once_def unknown_field_def)

lemma refuses_400_case:
  "refuses_with_400 r \<Longrightarrow> (\<And>x. r = Inr x \<Longrightarrow> refuses_with_400 (f x)) \<Longrightarrow>
   refuses_with_400 (case r of Inl e \<Rightarrow> failure_of e | Inr x \<Rightarrow> f x)"
  "refuses_with_400 n \<Longrightarrow> (\<And>x. q = Some x \<Longrightarrow> refuses_with_400 (f x)) \<Longrightarrow>
   refuses_with_400 (case q of None \<Rightarrow> n | Some x \<Rightarrow> f x)"
  by (cases r; simp add: refuses_with_400_def failure_of_def) (cases q; simp)

lemma read_field_refuses: "refuses_with_400 (read_field lib v so_far)"
  by (auto simp: read_field_def read_uid_def read_primary_key_def Let_def intro!: refuses_400_case)

lemma read_fields_refuses: "refuses_with_400 (read_fields_from lib es so_far)"
  by (induction es arbitrary: so_far) (auto intro!: refuses_400_case read_field_refuses)

lemma parse_uid_refuses: "refuses_with_400 (parse_uid text)"
  by (auto simp: refuses_with_400_def parse_uid_error_code split: sum.split)

lemma parse_create_index_refuses: "refuses_with_400 (parse_create_index_request lib text)"
  by (auto simp: parse_create_index_request_def read_fields_def to_command_def
      intro!: refuses_400_case read_fields_refuses parse_uid_refuses)

lemma read_fields_from_append:
  assumes "list_all2 (reads_index_field lib) pre fs" and "take_fields fs so_far = Some taken"
  shows "read_fields_from lib (pre @ rest) so_far = read_fields_from lib rest taken"
  using assms
proof (induction pre fs arbitrary: so_far rule: list_all2_induct)
  case Nil
  then show ?case by simp
next
  case (Cons e pre f fs)
  then obtain v mid where "e = Some v" "take_field f so_far = Some mid" "take_fields fs mid = Some taken"
    by (auto simp: reads_index_field_def bind_eq_Some_conv)
  moreover from this Cons have "read_field lib v so_far = Inr mid"
    by (auto simp: read_field_iff)
  ultimately show ?case using Cons by simp
qed

subsection \<open>The body of a response\<close>

definition index_members :: "index_metadata \<Rightarrow> member list" where
  "index_members m =
     [(''uid'', JString (uid_value (uid m))),
      (''primaryKey'', case primary_key m of None \<Rightarrow> JNull | Some k \<Rightarrow> JString k),
      (''createdAt'', JString (timestamp_text (created_at m))),
      (''updatedAt'', JString (timestamp_text (updated_at m)))]"

lemma json_string_index_keys:
  "json_string ''uid'' = ''\"uid\"''" "json_string ''primaryKey'' = ''\"primaryKey\"''"
  "json_string ''createdAt'' = ''\"createdAt\"''" "json_string ''updatedAt'' = ''\"updatedAt\"''"
  by code_simp+

lemma index_json_render: "index_json m = render_object (index_members m)"
  by (simp add: index_json_def index_members_def Let_def append_json_string_append
      append_json_timestamp_append render_object_def render_member_def json_string_index_keys
      split: option.split)

subsection \<open>Properties\<close>

text \<open>
  C18. FR-02: a body is accepted exactly when it is one JSON object with nothing after it whose
  fields are \<open>uid\<close>, a string that is a valid uid, and at most one \<open>primaryKey\<close>, a string or null, in
  either order and nothing else; the command holds exactly these two values.
\<close>

theorem parse_create_index_request_exact:
  "parse_create_index_request lib text = Inr command \<longleftrightarrow>
     (\<exists>document obj fs u. iterate lib text = Some document
        \<and> document_get_object lib document = Some obj \<and> document_at_end lib document
        \<and> list_all2 (reads_index_field lib) (object_fields lib obj) fs
        \<and> parse_uid u = Inr (command_uid command)
        \<and> fs \<in> (case command_primary_key command of
             None \<Rightarrow> {[UidIs u], [UidIs u, PrimaryKeyNull], [PrimaryKeyNull, UidIs u]}
           | Some k \<Rightarrow> {[UidIs u, PrimaryKeyIs k], [PrimaryKeyIs k, UidIs u]}))"
proof -
  have "(\<exists>taken. take_fields fs no_fields = Some taken \<and> to_command taken = Inr command) \<longleftrightarrow>
      (\<exists>u. parse_uid u = Inr (command_uid command)
        \<and> fs \<in> (case command_primary_key command of
             None \<Rightarrow> {[UidIs u], [UidIs u, PrimaryKeyNull], [PrimaryKeyNull, UidIs u]}
           | Some k \<Rightarrow> {[UidIs u, PrimaryKeyIs k], [PrimaryKeyIs k, UidIs u]}))" (is "?L \<longleftrightarrow> ?R") for fs
  proof -
    have "?L \<longleftrightarrow> (\<exists>u taken. (take_fields fs no_fields = Some taken \<and> field_uid taken = Some u)
        \<and> parse_uid u = Inr (command_uid command) \<and> command_primary_key command = field_primary_key taken)"
      by (auto simp: to_command_iff)
    also have "\<dots> \<longleftrightarrow> ?R"
      unfolding take_fields_no_fields by (cases "command_primary_key command") auto
    finally show ?thesis .
  qed
  then show ?thesis
    unfolding parse_create_index_request_iff by blast
qed

text \<open>
  ADR-005: the first field of the body with an unknown name is answered \<open>unknown_field\<close>, with
  the name, and the first one that repeats an earlier name is refused as appearing more than once,
  whatever comes after it.
\<close>

theorem index_body_field_errors:
  assumes "iterate lib text = Some document" and "document_get_object lib document = Some obj"
    and "object_fields lib obj = pre @ Some v # rest" and "field_unescaped_key lib v = Some key"
    and "list_all2 (reads_index_field lib) pre fs" and "take_fields fs no_fields = Some taken"
  shows "(key \<notin> {''uid'', ''primaryKey''} \<longrightarrow>
      parse_create_index_request lib text = failure UnknownField (''Unknown field `'' @ key @ ''`.''))
    \<and> (key = ''uid'' \<and> field_uid taken \<noteq> None \<or> key = ''primaryKey'' \<and> has_primary_key taken \<longrightarrow>
      parse_create_index_request lib text
        = failure MalformedRequest (''Field `'' @ key @ ''` appears more than once.''))"
proof -
  have "parse_create_index_request lib text =
      (case read_fields_from lib (Some v # rest) taken of
         Inl e \<Rightarrow> failure_of e
       | Inr so_far \<Rightarrow> if \<not> document_at_end lib document then malformed not_json else to_command so_far)"
    by (simp only: parse_create_index_request_def read_fields_def assms(1-3) option.case
        read_fields_from_append [OF assms(5,6)])
  moreover have "read_field lib v taken = unknown_field key" if "key \<notin> {''uid'', ''primaryKey''}"
    using that assms(4) by (simp add: read_field_def UidField_def PrimaryKeyField_def)
  moreover have "read_field lib v taken = appears_more_than_once key"
    if "key = ''uid'' \<and> field_uid taken \<noteq> None \<or> key = ''primaryKey'' \<and> has_primary_key taken"
    using that assms(4) by (auto simp: read_field_def read_uid_def read_primary_key_def UidField_def PrimaryKeyField_def)
  ultimately show ?thesis
    by (simp add: unknown_field_def appears_more_than_once_def malformed_def failure_def failure_of_def)
qed

theorem index_body_field_errors_witness:
  "parse_create_index_request text_reader ''{\"uid\":\"a\",\"size\":1}'' = failure UnknownField ''Unknown field `size`.''"
proof -
  let ?obj = "VObject ''{\"uid\":\"a\",\"size\":1}'' [(''uid'', VString ''a''), (''size'', VNumber)]"
  have iter: "iterate text_reader ''{\"uid\":\"a\",\"size\":1}'' = Some (AtDocument ?obj [])" by code_simp
  have handles: "document_get_object text_reader (AtDocument ?obj []) = Some (AtValue ?obj)"
    "object_fields text_reader (AtValue ?obj)
       = [Some (AtField ''uid'' (VString ''a''))] @ Some (AtField ''size'' VNumber) # []"
    "field_unescaped_key text_reader (AtField ''size'' VNumber) = Some ''size''"
    by (simp_all add: text_reader_def)
  have before: "list_all2 (reads_index_field text_reader) [Some (AtField ''uid'' (VString ''a''))] [UidIs ''a'']"
    by (simp add: reads_index_field_def text_reader_def)
  have taken: "take_fields [UidIs ''a''] no_fields
      = Some \<lparr>field_uid = Some ''a'', has_primary_key = False, field_primary_key = None\<rparr>"
    by (simp add: no_fields_def)
  show ?thesis
    using index_body_field_errors [OF iter handles before taken] by simp
qed

text \<open>The two ways a valid command ends, with what is left in the repository.\<close>

lemma create_index_response_creates:
  assumes "repository_holds (repository (services s)) A"
    and "parse_create_index_request lib payload = Inr command"
    and "A (uid_value (command_uid command)) = None"
  defines "answer \<equiv> create_index_response in_memory_port lib payload s"
    and "index \<equiv> created_index command (shd (clock (services s)))"
  shows "fst answer = \<lparr>status = 201, body = index_json index\<rparr>"
    and "repository_holds (repository (services (snd answer))) (A(uid_value (command_uid command) \<mapsto> (index, [])))"
  using memory.create_index_new [OF assms(1,3)] assms(2)
  by (simp_all add: answer_def index_def create_index_response_def Let_def case_prod_beta CreatedStatus_def)

lemma create_index_response_conflicts:
  assumes "repository_holds (repository (services s)) A"
    and "parse_create_index_request lib payload = Inr command"
    and "A (uid_value (command_uid command)) \<noteq> None"
  defines "answer \<equiv> create_index_response in_memory_port lib payload s"
  shows "\<exists>e. fst answer = error_response e \<and> code e = IndexAlreadyExists"
    and "repository (services (snd answer)) = repository (services s)"
proof -
  from memory.create_index_taken [OF assms(1,3)] obtain e where
    "fst (create_index in_memory_port command (services s)) = Inl e" "code e = IndexAlreadyExists"
    "repository (snd (create_index in_memory_port command (services s))) = repository (services s)"
    by blast
  with assms(2) show "\<exists>e. fst answer = error_response e \<and> code e = IndexAlreadyExists"
    and "repository (services (snd answer)) = repository (services s)"
    by (auto simp: answer_def create_index_response_def Let_def case_prod_beta)
qed

text \<open>
  POST /indexes on the in-memory repository: a valid body under a free uid stores the index and
  answers 201 with its uid, its primary key or null, and both timestamps, the one instant the clock
  gave; a taken uid is answered 409 and an invalid body 400, and neither changes what is stored.
\<close>

theorem create_index_response_outcome:
  fixes lib :: "'h simdjson" and payload :: string
  assumes "repository_holds (repository (services s)) A"
  defines "answer \<equiv> create_index_response in_memory_port lib payload s"
    and "now \<equiv> shd (clock (services s))"
  shows "case parse_create_index_request lib payload of
      Inl e \<Rightarrow> status (fst answer) = 400 \<and> snd answer = s
    | Inr command \<Rightarrow>
        (case A (uid_value (command_uid command)) of
           None \<Rightarrow> status (fst answer) = 201
             \<and> read_object (body (fst answer)) = Some
                 [(''uid'', JString (uid_value (command_uid command))),
                  (''primaryKey'', case command_primary_key command of None \<Rightarrow> JNull | Some k \<Rightarrow> JString k),
                  (''createdAt'', JString (timestamp_text now)), (''updatedAt'', JString (timestamp_text now))]
             \<and> repository_holds (repository (services (snd answer)))
                 (A(uid_value (command_uid command) \<mapsto>
                    (new_index (command_uid command) (command_primary_key command) now, [])))
         | Some _ \<Rightarrow> status (fst answer) = 409
             \<and> repository (services (snd answer)) = repository (services s))"
proof (cases "parse_create_index_request lib payload")
  case (Inl e)
  then show ?thesis
    using parse_create_index_refuses [of lib payload]
    by (simp add: answer_def create_index_response_def status_error_response refuses_with_400_def)
next
  case command: (Inr command)
  show ?thesis
  proof (cases "A (uid_value (command_uid command))")
    case None
    with create_index_response_creates [OF assms(1) command None] command show ?thesis
      by (simp add: answer_def index_json_render wire index_members_def created_index_def now_def)
  next
    case (Some entry)
    then have "A (uid_value (command_uid command)) \<noteq> None" by simp
    with create_index_response_conflicts [OF assms(1) command this] command Some show ?thesis
      by (auto simp: answer_def status_error_response)
  qed
qed

theorem create_index_response_outcome_witness:
  "repository_holds (repository (services start_routes)) Map.empty
   \<and> status (fst (create_index_response in_memory_port text_reader ''{\"uid\":\"products\"}'' start_routes)) = 201"
proof -
  have holds: "repository_holds (repository (services start_routes)) Map.empty"
    by (simp add: start_routes_def)
  have "parse_create_index_request text_reader ''{\"uid\":\"products\"}''
      = Inr \<lparr>command_uid = IndexUid ''products'', command_primary_key = None\<rparr>"
    by code_simp
  with create_index_response_outcome [OF holds, of text_reader "''{\"uid\":\"products\"}''"] holds
  show ?thesis by simp
qed

end
