(* ===== verification/Content_Type.thy ===== *)
theory Content_Type
  imports Cpp_Std
begin

text \<open>
  \<open>src/adapters/http/content_type.cpp\<close>: whether a Content-Type header value names JSON.
\<close>

definition JsonMediaType :: string where
  "JsonMediaType = ''application/json''"

definition OptionalWhitespace :: string where
  "OptionalWhitespace = [CHR '' '', CHR 0x09]"

definition trim_whitespace :: "string \<Rightarrow> string" where
  "trim_whitespace text =
     (case find_first_not_of text OptionalWhitespace (Some 0) of
        None \<Rightarrow> []
      | Some first \<Rightarrow>
          (let last = pos_value (find_last_not_of text OptionalWhitespace)
           in substr text first (last - first + 1)))"

definition to_ascii_lower :: "char \<Rightarrow> char" where
  "to_ascii_lower character =
     (if CHR ''A'' \<le> character \<and> character \<le> CHR ''Z''
      then char_of (of_char character - of_char (CHR ''A'') + of_char (CHR ''a'') :: nat)
      else character)"

definition equals_ignoring_ascii_case :: "string \<Rightarrow> string \<Rightarrow> bool" where
  "equals_ignoring_ascii_case left right =
     list_all2 (\<lambda>l r. to_ascii_lower l = to_ascii_lower r) left right"

definition is_json_content_type :: "string \<Rightarrow> bool" where
  "is_json_content_type header =
     (let media_type = trim_whitespace (substr header 0 (pos_value (find_char header (CHR '';''))))
      in equals_ignoring_ascii_case media_type JsonMediaType)"

subsection \<open>Trimming\<close>

abbreviation is_ows :: "char \<Rightarrow> bool" where
  "is_ows c \<equiv> c \<in> set OptionalWhitespace"

lemma index_where_append:
  "\<forall>x \<in> set xs. \<not> P x \<Longrightarrow> P y \<Longrightarrow> index_where P (xs @ y # ys) = Some (length xs)"
  by (induction xs) auto

lemma trim_whitespace_frame:
  assumes "\<forall>c \<in> set lead. is_ows c" and "\<forall>c \<in> set trail. is_ows c"
    and "mt \<noteq> []" and "\<not> is_ows (hd mt)" and "\<not> is_ows (last mt)"
  shows "trim_whitespace (lead @ mt @ trail) = mt"
proof -
  have "mt = hd mt # tl mt" and "rev mt = last mt # rev (butlast mt)"
    using assms(3) by (simp_all add: rev_swap)
  then have "index_where (\<lambda>c. \<not> is_ows c) (lead @ mt @ trail) = Some (length lead)"
    and "index_where (\<lambda>c. \<not> is_ows c) (rev trail @ rev mt @ rev lead) = Some (length trail)"
    using assms index_where_append [of lead "\<lambda>c. \<not> is_ows c" "hd mt" "tl mt @ trail"]
      index_where_append [of "rev trail" "\<lambda>c. \<not> is_ows c" "last mt" "rev (butlast mt) @ rev lead"]
    by (metis append_Cons set_rev length_rev)+
  moreover have "0 < length mt" using assms(3) by simp
  ultimately show ?thesis
    by (simp add: trim_whitespace_def find_first_not_of_def find_last_not_of_def find_from_def
        pos_value_def substr_def)
qed

lemma trim_whitespace_blank: "\<forall>c \<in> set text. is_ows c \<Longrightarrow> trim_whitespace text = []"
  by (simp add: trim_whitespace_def find_first_not_of_def index_where_None [THEN iffD2] find_from_def)

lemma trim_whitespace_split:
  obtains lead trail where "text = lead @ trim_whitespace text @ trail"
    "\<forall>c \<in> set lead. is_ows c" "\<forall>c \<in> set trail. is_ows c"
proof (cases "\<forall>c \<in> set text. is_ows c")
  case True
  with that [of "text" "[]"] show thesis by (simp add: trim_whitespace_blank)
next
  case False
  define lead where "lead = takeWhile is_ows text"
  define rest where "rest = dropWhile is_ows text"
  define trail where "trail = rev (takeWhile is_ows (rev rest))"
  define mt where "mt = rev (dropWhile is_ows (rev rest))"
  have rest: "rest \<noteq> []" "\<not> is_ows (hd rest)"
  proof -
    show "rest \<noteq> []" using False unfolding rest_def by (simp add: dropWhile_eq_Nil_conv)
    then show "\<not> is_ows (hd rest)" unfolding rest_def by (rule hd_dropWhile)
  qed
  have whole: "text = lead @ mt @ trail"
    unfolding lead_def mt_def trail_def
    by (metis rest_def rev_append rev_rev_ident takeWhile_dropWhile_id)
  have blank: "\<forall>c \<in> set lead. is_ows c" "\<forall>c \<in> set trail. is_ows c"
    unfolding lead_def trail_def by (auto dest: set_takeWhileD)
  have mt: "mt \<noteq> []" "\<not> is_ows (last mt)"
  proof -
    have "\<not> (\<forall>c \<in> set rest. is_ows c)" using rest by (cases rest) auto
    then have "dropWhile is_ows (rev rest) \<noteq> []" by (simp add: dropWhile_eq_Nil_conv)
    then show "mt \<noteq> []" "\<not> is_ows (last mt)"
      using hd_dropWhile [of is_ows "rev rest"] unfolding mt_def by (simp_all add: last_rev)
  qed
  have "rest = mt @ trail"
    unfolding mt_def trail_def by (metis rev_append rev_rev_ident takeWhile_dropWhile_id)
  with rest(2) mt(1) have "\<not> is_ows (hd mt)" by simp
  with trim_whitespace_frame [OF blank mt(1) _ mt(2)] whole blank that show thesis by metis
qed

subsection \<open>Comparing\<close>

lemma equals_ignoring_ascii_case_map:
  "equals_ignoring_ascii_case l r \<longleftrightarrow> map to_ascii_lower l = map to_ascii_lower r"
proof -
  have "list_all2 (\<lambda>a b. to_ascii_lower a = to_ascii_lower b) l r
      \<longleftrightarrow> map to_ascii_lower l = map to_ascii_lower r"
    by (induction l arbitrary: r) (auto simp: list_all2_Cons1 map_eq_Cons_conv Cons_eq_map_conv)
  then show ?thesis by (simp add: equals_ignoring_ascii_case_def)
qed

lemma lower_JsonMediaType: "map to_ascii_lower JsonMediaType = JsonMediaType"
  by code_simp

lemma find_char_take:
  assumes "length header \<le> npos"
  shows "substr header 0 (pos_value (find_char header c)) = takeWhile (\<lambda>d. d \<noteq> c) header"
proof (cases "find_char header c")
  case None
  then have "\<forall>d \<in> set header. d \<noteq> c" by (simp add: find_char_def find_from_none_left)
  with None assms show ?thesis by (simp add: substr_def pos_value_def takeWhile_eq_all_conv [THEN iffD2])
next
  case (Some p)
  then have "find_from (\<lambda>d. d = c) header (Some 0) = Some p" by (simp add: find_char_def)
  from find_from_drop(2) [OF this] Some show ?thesis by (simp add: substr_def pos_value_def)
qed

text \<open>A character whose lower case is in the media type is neither blank nor a semicolon.\<close>

lemma lower_in_media_type:
  assumes "to_ascii_lower c \<in> set JsonMediaType"
  shows "\<not> is_ows c" and "c \<noteq> CHR '';''"
proof -
  have "\<forall>d \<in> set (CHR '';'' # OptionalWhitespace). to_ascii_lower d \<notin> set JsonMediaType"
    by code_simp
  with assms show "\<not> is_ows c" and "c \<noteq> CHR '';''" by auto
qed

lemma is_json_content_type_intro:
  assumes whole: "header = lead @ mt @ trail @ parameters" and bound: "length header \<le> npos"
    and blank: "\<forall>c \<in> set lead. is_ows c" "\<forall>c \<in> set trail. is_ows c"
    and media: "map to_ascii_lower mt = JsonMediaType"
    and params: "parameters = [] \<or> hd parameters = CHR '';''"
  shows "is_json_content_type header"
proof -
  have letters: "to_ascii_lower c \<in> set JsonMediaType" if "c \<in> set mt" for c
    using that media by (metis imageI set_map)
  have semi: "\<not> is_ows (CHR '';'')" by code_simp
  have "\<forall>c \<in> set (lead @ mt @ trail). c \<noteq> CHR '';''"
    using blank semi lower_in_media_type(2) [OF letters] by auto
  moreover have "takeWhile (\<lambda>d. d \<noteq> CHR '';'') parameters = []"
    using params by (cases parameters) auto
  ultimately have "takeWhile (\<lambda>d. d \<noteq> CHR '';'') ((lead @ mt @ trail) @ parameters) = lead @ mt @ trail"
    by (subst takeWhile_append2) auto
  moreover have "mt \<noteq> []" using media by (auto simp: JsonMediaType_def)
  then have "trim_whitespace (lead @ mt @ trail) = mt"
    using blank lower_in_media_type(1) [OF letters] by (intro trim_whitespace_frame) auto
  ultimately have "trim_whitespace (takeWhile (\<lambda>d. d \<noteq> CHR '';'') header) = mt"
    by (simp add: whole)
  then show ?thesis
    using media lower_JsonMediaType
    by (simp add: is_json_content_type_def Let_def find_char_take [OF bound]
        equals_ignoring_ascii_case_map)
qed

lemma is_json_content_type_elim:
  assumes "is_json_content_type header" and bound: "length header \<le> npos"
  obtains lead mt trail parameters where "header = lead @ mt @ trail @ parameters"
    "\<forall>c \<in> set lead. is_ows c" "\<forall>c \<in> set trail. is_ows c"
    "map to_ascii_lower mt = JsonMediaType" "parameters = [] \<or> hd parameters = CHR '';''"
proof -
  let ?head = "takeWhile (\<lambda>d. d \<noteq> CHR '';'') header"
  let ?parameters = "dropWhile (\<lambda>d. d \<noteq> CHR '';'') header"
  obtain lead trail where split: "?head = lead @ trim_whitespace ?head @ trail"
      "\<forall>c \<in> set lead. is_ows c" "\<forall>c \<in> set trail. is_ows c"
    by (rule trim_whitespace_split)
  have "header = lead @ trim_whitespace ?head @ trail @ ?parameters"
    by (metis append.assoc split(1) takeWhile_dropWhile_id)
  moreover have "map to_ascii_lower (trim_whitespace ?head) = JsonMediaType"
    using assms(1) lower_JsonMediaType
    by (simp add: is_json_content_type_def Let_def find_char_take [OF bound] equals_ignoring_ascii_case_map)
  moreover have "?parameters = [] \<or> hd ?parameters = CHR '';''"
    using hd_dropWhile [of "\<lambda>d. d \<noteq> CHR '';''" header] by blast
  ultimately show thesis using that split(2,3) by blast
qed

subsection \<open>Property\<close>

text \<open>
  C32. FR-70: a Content-Type value is accepted exactly when, before an optional \<open>;\<close> and whatever
  parameters follow it, it is \<open>application/json\<close> in any case with optional blanks around it.
\<close>

theorem is_json_content_type_exact:
  assumes "length header \<le> npos"
  shows "is_json_content_type header \<longleftrightarrow>
    (\<exists>lead mt trail parameters. header = lead @ mt @ trail @ parameters
       \<and> list_all is_ows lead \<and> list_all is_ows trail
       \<and> map to_ascii_lower mt = ''application/json'' \<and> take 1 parameters \<in> {[], '';''})"
    (is "_ \<longleftrightarrow> ?form")
proof
  assume "is_json_content_type header"
  from this assms obtain lead mt trail parameters where form:
      "header = lead @ mt @ trail @ parameters"
      "\<forall>c \<in> set lead. is_ows c" "\<forall>c \<in> set trail. is_ows c"
      "map to_ascii_lower mt = JsonMediaType" "parameters = [] \<or> hd parameters = CHR '';''"
    by (rule is_json_content_type_elim)
  have blank: "list_all is_ows lead" "list_all is_ows trail"
    using form(2,3) by (simp_all only: list_all_iff)
  have parameters: "take 1 parameters \<in> {[], '';''}"
    using form(5) by (cases parameters) simp_all
  show ?form
    by (intro exI conjI, rule form(1), rule blank(1), rule blank(2),
        rule form(4) [unfolded JsonMediaType_def], rule parameters)
next
  assume ?form
  then obtain lead mt trail parameters where form:
      "header = lead @ mt @ trail @ parameters"
      "list_all is_ows lead" "list_all is_ows trail"
      "map to_ascii_lower mt = ''application/json''" "take 1 parameters \<in> {[], '';''}"
    by (elim exE conjE) (rule that)
  have "\<forall>c \<in> set lead. is_ows c" "\<forall>c \<in> set trail. is_ows c"
    using form(2,3) by (simp_all only: list_all_iff)
  moreover have "parameters = [] \<or> hd parameters = CHR '';''"
    using form(5) by (cases parameters) simp_all
  ultimately show "is_json_content_type header"
    using is_json_content_type_intro [OF form(1) assms] form(4) by (simp only: JsonMediaType_def)
qed

theorem is_json_content_type_exact_witness:
  "is_json_content_type '' Application/JSON ; charset=utf-8''
   \<and> length '' Application/JSON ; charset=utf-8'' \<le> npos"
proof -
  have bound: "length '' Application/JSON ; charset=utf-8'' \<le> npos" by (simp add: npos_def)
  have form: "'' Application/JSON ; charset=utf-8'' = '' '' @ ''Application/JSON'' @ '' '' @ ''; charset=utf-8''"
    by simp
  have parts: "list_all is_ows '' ''" "map to_ascii_lower ''Application/JSON'' = ''application/json''"
    "take 1 ''; charset=utf-8'' \<in> {[], '';''}"
    by code_simp+
  have "is_json_content_type '' Application/JSON ; charset=utf-8''"
    by (rule is_json_content_type_exact [OF bound, THEN iffD2])
      (intro exI conjI, rule form, rule parts(1), rule parts(1), rule parts(2), rule parts(3))
  with bound show ?thesis by (rule conjI [rotated])
qed

end
