(* ===== verification/Request_Id.thy ===== *)
theory Request_Id
  imports Cpp_Std "HOL-Library.Stream"
begin

unbundle bit_operations_syntax

text \<open>
  \<open>src/adapters/http/request_id.hpp\<close> and \<open>request_id.cpp\<close>: which inbound ids are echoed, and how a
  fresh one is made. The generator is \<open>std::mt19937_64\<close>, with the parameters and the algorithm the
  C++ standard fixes; it is seeded once per thread with a 32-bit value from the operating system,
  which is an input of the model (the stream of what \<open>std::random_device\<close> returns).
\<close>

definition RequestIdHeader :: string where
  "RequestIdHeader = ''X-Request-Id''"

definition MaxRequestIdLength :: nat where
  "MaxRequestIdLength = 128"

definition IdHexDigits :: string where
  "IdHexDigits = ''0123456789abcdef''"

definition BitsPerHexDigit :: nat where
  "BitsPerHexDigit = 4"

definition HexDigitsPerWord :: nat where
  "HexDigitsPerWord = 16"

definition is_request_id_character :: "char \<Rightarrow> bool" where
  "is_request_id_character character =
     (let is_lower = CHR ''a'' \<le> character \<and> character \<le> CHR ''z'';
          is_upper = CHR ''A'' \<le> character \<and> character \<le> CHR ''Z'';
          is_digit = CHR ''0'' \<le> character \<and> character \<le> CHR ''9''
      in is_lower \<or> is_upper \<or> is_digit
         \<or> character = CHR ''-'' \<or> character = CHR ''_'' \<or> character = CHR ''.'')"

definition append_hex_word :: "string \<Rightarrow> 64 word \<Rightarrow> string" where
  "append_hex_word out w =
     fold (\<lambda>position acc.
         (let shift = (HexDigitsPerWord - 1 - position) * BitsPerHexDigit
          in acc @ [IdHexDigits ! unat (drop_bit shift w AND 0xF)]))
       [0..<HexDigitsPerWord] out"

definition is_acceptable_request_id :: "string \<Rightarrow> bool" where
  "is_acceptable_request_id candidate \<longleftrightarrow>
     candidate \<noteq> [] \<and> length candidate \<le> MaxRequestIdLength
     \<and> list_all is_request_id_character candidate"

definition format_request_id :: "64 word \<Rightarrow> 64 word \<Rightarrow> string" where
  "format_request_id high low =
     (let id1 = append_hex_word [] high in append_hex_word id1 low)"

subsection \<open>std::mt19937_64\<close>

record mt_engine =
  mt_words :: "64 word list"
  mt_index :: nat

fun mt_seed_words :: "nat \<Rightarrow> nat \<Rightarrow> 64 word \<Rightarrow> 64 word list" where
  "mt_seed_words 0 i x = []"
| "mt_seed_words (Suc k) i x =
     x # mt_seed_words k (Suc i) (6364136223846793005 * (x XOR drop_bit 62 x) + of_nat (Suc i))"

definition mt_seed :: "64 word \<Rightarrow> mt_engine" where
  "mt_seed seed = \<lparr>mt_words = mt_seed_words 312 0 seed, mt_index = 312\<rparr>"

definition mt_twist_at :: "nat \<Rightarrow> 64 word list \<Rightarrow> 64 word list" where
  "mt_twist_at i ws =
     (let y = (ws ! i AND 0xFFFFFFFF80000000) OR (ws ! (Suc i mod 312) AND 0x7FFFFFFF);
          magic = (if bit y 0 then 0xB5026F5AA96619E9 else 0)
      in ws[i := ws ! ((i + 156) mod 312) XOR drop_bit 1 y XOR magic])"

definition mt_refill :: "mt_engine \<Rightarrow> mt_engine" where
  "mt_refill engine = \<lparr>mt_words = fold mt_twist_at [0..<312] (mt_words engine), mt_index = 0\<rparr>"

definition mt_temper :: "64 word \<Rightarrow> 64 word" where
  "mt_temper x0 =
     (let x1 = x0 XOR (drop_bit 29 x0 AND 0x5555555555555555);
          x2 = x1 XOR (push_bit 17 x1 AND 0x71D67FFFEDA60000);
          x3 = x2 XOR (push_bit 37 x2 AND 0xFFF7EEE000000000)
      in x3 XOR drop_bit 43 x3)"

definition mt_next :: "mt_engine \<Rightarrow> 64 word \<times> mt_engine" where
  "mt_next engine =
     (let ready = (if mt_index engine < 312 then engine else mt_refill engine)
      in (mt_temper (mt_words ready ! mt_index ready), ready\<lparr>mt_index := Suc (mt_index ready)\<rparr>))"

text \<open>What a worker thread has: its engine, once it has used it, and the operating system's values.\<close>

record id_source =
  thread_engine :: "mt_engine option"
  random_device :: "32 word stream"

definition generate_request_id :: "id_source \<Rightarrow> string \<times> id_source" where
  "generate_request_id source =
     (case (case thread_engine source of
              Some engine \<Rightarrow> (engine, random_device source)
            | None \<Rightarrow> (mt_seed (ucast (shd (random_device source))), stl (random_device source)))
      of (engine, device) \<Rightarrow>
        (case mt_next engine of (high, engine1) \<Rightarrow>
         (case mt_next engine1 of (low, engine2) \<Rightarrow>
           (format_request_id high low, \<lparr>thread_engine = Some engine2, random_device = device\<rparr>))))"

subsection \<open>What a formatted id is\<close>

definition hex_digit_at :: "64 word \<Rightarrow> nat \<Rightarrow> char" where
  "hex_digit_at w position = IdHexDigits ! unat (drop_bit ((15 - position) * 4) w AND 0xF)"

lemma fold_snoc: "fold (\<lambda>x acc. acc @ [f x]) xs out = out @ map f xs"
  by (induction xs arbitrary: out) auto

lemma append_hex_word_map: "append_hex_word out w = out @ map (hex_digit_at w) [0..<16]"
  by (simp add: append_hex_word_def Let_def HexDigitsPerWord_def BitsPerHexDigit_def fold_snoc
      hex_digit_at_def)

lemma format_request_id_map:
  "format_request_id high low = map (hex_digit_at high) [0..<16] @ map (hex_digit_at low) [0..<16]"
  by (simp add: format_request_id_def append_hex_word_map)

lemma nibble_less: "unat (w AND 0xF :: 64 word) < 16"
proof -
  have "unat (w AND 0xF) \<le> unat (0xF :: 64 word)"
    by (rule word_and_le1 [THEN word_le_nat_alt [THEN iffD1]])
  then show ?thesis by simp
qed

lemma IdHexDigits_acceptable: "n < 16 \<Longrightarrow> is_request_id_character (IdHexDigits ! n)"
proof -
  have "\<forall>n \<in> set [0..<16]. is_request_id_character (IdHexDigits ! n)" by code_simp
  then show "n < 16 \<Longrightarrow> is_request_id_character (IdHexDigits ! n)" by simp
qed

lemma IdHexDigits_inject: "m < 16 \<Longrightarrow> n < 16 \<Longrightarrow> IdHexDigits ! m = IdHexDigits ! n \<longleftrightarrow> m = n"
proof -
  have "distinct IdHexDigits" and "length IdHexDigits = 16" by code_simp+
  then show "m < 16 \<Longrightarrow> n < 16 \<Longrightarrow> IdHexDigits ! m = IdHexDigits ! n \<longleftrightarrow> m = n"
    by (simp add: nth_eq_iff_index_eq)
qed

lemma acceptable_format_request_id: "is_acceptable_request_id (format_request_id high low)"
  by (auto simp: is_acceptable_request_id_def format_request_id_map MaxRequestIdLength_def list_all_iff
      hex_digit_at_def IdHexDigits_acceptable nibble_less)

lemma length_format_request_id: "length (format_request_id high low) = 32"
  by (simp add: format_request_id_map)

lemma hex_digits_inject:
  assumes "\<forall>position < 16. hex_digit_at v position = hex_digit_at w position"
  shows "v = w"
proof (rule bit_word_eqI)
  fix n
  assume "n < LENGTH(64)"
  define q where "q = n div 4"
  define r where "r = n mod 4"
  have n: "n = q * 4 + r" "r < 4" "q < 16" using \<open>n < LENGTH(64)\<close> by (auto simp: q_def r_def)
  have "hex_digit_at v (15 - q) = hex_digit_at w (15 - q)" using assms by simp
  then have same: "drop_bit (q * 4) v AND 0xF = drop_bit (q * 4) w AND 0xF"
    using n(3) by (simp add: hex_digit_at_def IdHexDigits_inject nibble_less word_unat_eq_iff)
  have "bit (0xF :: 64 word) r"
  proof -
    have "(0xF :: 64 word) = mask 4" by (simp add: mask_eq_exp_minus_1)
    moreover have "bit (mask 4 :: 64 word) r" using n(2) by (subst bit_mask_iff) simp
    ultimately show ?thesis by metis
  qed
  then have "bit (drop_bit (q * 4) x AND 0xF) r = bit x n" for x :: "64 word"
    by (simp add: bit_and_iff bit_drop_bit_eq n(1))
  with same show "bit v n = bit w n" by metis
qed

lemma format_request_id_inject:
  "format_request_id high low = format_request_id high' low' \<longleftrightarrow> high = high' \<and> low = low'"
proof
  assume "format_request_id high low = format_request_id high' low'"
  then have "map (hex_digit_at high) [0..<16] = map (hex_digit_at high') [0..<16]"
    and "map (hex_digit_at low) [0..<16] = map (hex_digit_at low') [0..<16]"
    by (simp_all add: format_request_id_map)
  then show "high = high' \<and> low = low'" by (auto simp: map_eq_conv intro: hex_digits_inject)
qed simp

lemma generate_request_id_format:
  "\<exists>high low. fst (generate_request_id source) = format_request_id high low"
  by (auto simp: generate_request_id_def split: prod.split)

lemma acceptable_generate_request_id: "is_acceptable_request_id (fst (generate_request_id source))"
  using generate_request_id_format [of source] acceptable_format_request_id by auto

subsection \<open>Properties\<close>

text \<open>What an acceptable id can never carry into a header or a log line.\<close>

lemma request_id_character_safe:
  "is_request_id_character c \<Longrightarrow> CHR '' '' < c \<and> (of_char c :: nat) < 127 \<and> c \<notin> {CHR '':'', CHR '','', CHR 0x22}"
  by (auto simp: is_request_id_character_def Let_def less_eq_char_def less_char_def)

text \<open>
  C39. FR-73: a generated id is 32 characters that the server's own check of inbound ids accepts;
  two ids are the same text only when all 128 random bits behind them are the same.
\<close>

theorem generated_request_id:
  "is_acceptable_request_id (fst (generate_request_id source))
   \<and> length (fst (generate_request_id source)) = 32
   \<and> (format_request_id high low = format_request_id high' low' \<longleftrightarrow> high = high' \<and> low = low')"
  using acceptable_generate_request_id [of source] generate_request_id_format [of source]
    length_format_request_id format_request_id_inject
  by metis

text \<open>
  FR-73: an id that is accepted, and so echoed into a response header and a log line, has 1 to
  128 characters, all of them printable ASCII: no control character, no line break, no blank.
\<close>

theorem acceptable_request_id_safe:
  assumes "is_acceptable_request_id candidate"
  shows "length candidate \<in> {1..128}
    \<and> list_all (\<lambda>c. CHR '' '' < c \<and> (of_char c :: nat) < 127 \<and> c \<notin> {CHR '':'', CHR '','', CHR 0x22}) candidate"
proof -
  have "list_all is_request_id_character candidate" and "candidate \<noteq> []" "length candidate \<le> 128"
    using assms by (simp_all add: is_acceptable_request_id_def MaxRequestIdLength_def)
  then show ?thesis
    using request_id_character_safe by (auto simp: list_all_iff Suc_le_eq)
qed

theorem acceptable_request_id_safe_witness:
  "is_acceptable_request_id ''req-42.a_B''
   \<and> length ''req-42.a_B'' \<in> {1..128}"
proof -
  have "is_acceptable_request_id ''req-42.a_B''" by code_simp
  with acceptable_request_id_safe [OF this] show ?thesis by blast
qed

end
