(* ===== verification/Http_Server.thy ===== *)
theory Http_Server
  imports Error_Response Content_Type Request_Id
begin

text \<open>
  \<open>src/adapters/http/httplib_server.cpp\<close>: the server port on cpp-httplib. The library is not part of
  the repository. Its requests (\<open>'q\<close>) and responses (\<open>'p\<close>) are parameters, with a record of the
  operations the code calls on them, and so is what it does with a request; \<open>message_laws\<close> and
  \<open>pipeline\<close> state the documented behaviour the code relies on: headers and content that are set are
  there, an error handler sees every response from 400 on, a post-routing handler sees every response.
\<close>

record ('q, 'p) http_library =
  q_header :: "'q \<Rightarrow> string \<Rightarrow> string"          \<comment> \<open>\<open>Request::get_header_value\<close>, empty when absent\<close>
  q_path :: "'q \<Rightarrow> string"
  q_body :: "'q \<Rightarrow> string"
  q_path_params :: "'q \<Rightarrow> (string \<times> string) list"
  p_status :: "'p \<Rightarrow> int"
  p_body :: "'p \<Rightarrow> string"
  p_has_header :: "'p \<Rightarrow> string \<Rightarrow> bool"
  p_header :: "'p \<Rightarrow> string \<Rightarrow> string"           \<comment> \<open>\<open>Response::get_header_value\<close>\<close>
  p_set_status :: "'p \<Rightarrow> int \<Rightarrow> 'p"
  p_set_content :: "'p \<Rightarrow> string \<Rightarrow> string \<Rightarrow> 'p"
  p_set_header :: "'p \<Rightarrow> string \<Rightarrow> string \<Rightarrow> 'p"

text \<open>What the hooks and handlers can change: the application, the thread's ids, the server log.\<close>

record 'w server_world =
  application :: 'w
  ids :: id_source
  server_log :: string

definition JsonContentType :: string where
  "JsonContentType = ''application/json''"

definition ContentTypeHeader :: string where
  "ContentTypeHeader = ''Content-Type''"

definition write_response :: "('q, 'p) http_library \<Rightarrow> 'p \<Rightarrow> HttpResponse \<Rightarrow> 'p" where
  "write_response lib out response =
     p_set_content lib (p_set_status lib out (status response)) (body response) JsonContentType"

definition resolve_request_id :: "('q, 'p) http_library \<Rightarrow> 'q \<Rightarrow> id_source \<Rightarrow> string \<times> id_source" where
  "resolve_request_id lib request source =
     (let inbound = q_header lib request RequestIdHeader
      in if is_acceptable_request_id inbound then (inbound, source) else generate_request_id source)"

fun expects_json_body :: "HttpMethod \<Rightarrow> bool" where
  "expects_json_body Get = False"
| "expects_json_body Post = True"

definition non_json_body_error :: error where
  "non_json_body_error =
     \<lparr>code = MalformedRequest,
      message = ''The request body must be JSON, sent with Content-Type: application/json.''\<rparr>"

definition to_library_pattern :: "string \<Rightarrow> string" where
  "to_library_pattern path_text =
     foldl (\<lambda>pattern character.
        if character = CHR ''{'' then pattern @ '':''
        else if character \<noteq> CHR ''}'' then pattern @ [character]
        else pattern) [] path_text"

definition path_parameters_of :: "('q, 'p) http_library \<Rightarrow> 'q \<Rightarrow> PathParameter list" where
  "path_parameters_of lib request = map (\<lambda>(n, v). \<lparr>name = n, val = v\<rparr>) (q_path_params lib request)"

text \<open>
  A handler as the library calls it: it writes the response it is given, and may throw after it has
  written part of it.
\<close>

type_synonym ('q, 'p, 'w) library_handler =
  "'q \<Rightarrow> 'p \<Rightarrow> 'w server_world \<Rightarrow> cpp_exception option \<times> 'p \<times> 'w server_world"

definition adapt ::
  "('q, 'p) http_library \<Rightarrow> HttpMethod \<Rightarrow> 'w handler \<Rightarrow> ('q, 'p, 'w) library_handler" where
  "adapt lib verb handler request response w =
     (case resolve_request_id lib request (ids w) of
        (id_text, source) \<Rightarrow>
          (let w1 = w\<lparr>ids := source\<rparr>;
               r1 = p_set_header lib response RequestIdHeader id_text
           in if expects_json_body verb
                 \<and> \<not> is_json_content_type (q_header lib request ContentTypeHeader)
              then (None, write_response lib r1 (error_response non_json_body_error), w1)
              else
                (let neutral = \<lparr>request_method = verb, path = q_path lib request,
                                path_parameters = path_parameters_of lib request,
                                request_body = q_body lib request, request_id = id_text\<rparr>
                 in case handler neutral (application w1) of
                      (outcome, changed) \<Rightarrow>
                        (let w2 = w1\<lparr>application := changed\<rparr>
                         in case outcome of
                              Inl thrown \<Rightarrow> (Some thrown, r1, w2)
                            | Inr answer \<Rightarrow> (None, write_response lib r1 answer, w2)))))"

datatype HandlerResponse = Handled | Unhandled

definition fill_library_error :: "('q, 'p) http_library \<Rightarrow> 'q \<Rightarrow> 'p \<Rightarrow> HandlerResponse \<times> 'p" where
  "fill_library_error lib request response =
     (if p_body lib response \<noteq> [] then (Unhandled, response)
      else (Handled, write_response lib response
                       (error_response (error_for_library_status (p_status lib response)))))"

fun describe :: "cpp_exception \<Rightarrow> string" where
  "describe (StdException what) = what"
| "describe ForeignException = ''an exception not derived from std::exception''"

definition report_handler_exception ::
  "('q, 'p) http_library \<Rightarrow> 'q \<Rightarrow> 'p \<Rightarrow> cpp_exception \<Rightarrow> 'w server_world \<Rightarrow> 'p \<times> 'w server_world" where
  "report_handler_exception lib request response thrown w =
     (let line = ''leta: unhandled exception in request ''
            @ p_header lib response RequestIdHeader @ '': '' @ describe thrown @ [CHR 0x0A]
      in (write_response lib response (error_response \<lparr>code = Internal, message = ''Internal error.''\<rparr>),
          w\<lparr>server_log := server_log w @ line\<rparr>))"

definition ensure_request_id ::
  "('q, 'p) http_library \<Rightarrow> 'q \<Rightarrow> 'p \<Rightarrow> 'w server_world \<Rightarrow> 'p \<times> 'w server_world" where
  "ensure_request_id lib request response w =
     (if \<not> p_has_header lib response RequestIdHeader
      then (case resolve_request_id lib request (ids w) of
              (id_text, source) \<Rightarrow>
                (p_set_header lib response RequestIdHeader id_text, w\<lparr>ids := source\<rparr>))
      else (response, w))"

subsection \<open>The server object\<close>

text \<open>What the adapter has told the library: its routes, hooks, pool and limits.\<close>

record ('q, 'p, 'w) library_server =
  get_routes :: "(string \<times> ('q, 'p, 'w) library_handler) list"
  post_routes :: "(string \<times> ('q, 'p, 'w) library_handler) list"
  error_handler :: "('q \<Rightarrow> 'p \<Rightarrow> HandlerResponse \<times> 'p) option"
  exception_handler :: "('q \<Rightarrow> 'p \<Rightarrow> cpp_exception \<Rightarrow> 'w server_world \<Rightarrow> 'p \<times> 'w server_world) option"
  post_routing_handler :: "('q \<Rightarrow> 'p \<Rightarrow> 'w server_world \<Rightarrow> 'p \<times> 'w server_world) option"
  thread_pool :: "(nat \<times> nat) option"       \<comment> \<open>base and maximum of the pool\<close>
  payload_max_length :: "nat option"
  server_read_timeout :: "int option"
  server_write_timeout :: "int option"
  stop_requested :: bool

definition new_library_server :: "('q, 'p, 'w) library_server" where
  "new_library_server =
     \<lparr>get_routes = [], post_routes = [], error_handler = None, exception_handler = None,
      post_routing_handler = None, thread_pool = None, payload_max_length = None,
      server_read_timeout = None, server_write_timeout = None, stop_requested = False\<rparr>"

definition configure_worker_pool ::
  "nat \<Rightarrow> ('q, 'p, 'w) library_server \<Rightarrow> cpp_exception + ('q, 'p, 'w) library_server" where
  "configure_worker_pool workers server =
     (if workers = 0 then Inl (StdException ''worker_threads must be at least 1'')
      else Inr (server\<lparr>thread_pool := Some (workers, workers)\<rparr>))"

definition configure_limits ::
  "HttpServerOptions \<Rightarrow> ('q, 'p, 'w) library_server \<Rightarrow> ('q, 'p, 'w) library_server" where
  "configure_limits options server =
     server\<lparr>payload_max_length := Some (max_body_bytes options),
            server_read_timeout := Some (read_timeout options),
            server_write_timeout := Some (write_timeout options)\<rparr>"

definition install_hooks ::
  "('q, 'p) http_library \<Rightarrow> ('q, 'p, 'w) library_server \<Rightarrow> ('q, 'p, 'w) library_server" where
  "install_hooks lib server =
     server\<lparr>error_handler := Some (fill_library_error lib),
            exception_handler := Some (report_handler_exception lib),
            post_routing_handler := Some (ensure_request_id lib)\<rparr>"

definition make_server ::
  "('q, 'p) http_library \<Rightarrow> HttpServerOptions \<Rightarrow> cpp_exception + ('q, 'p, 'w) library_server" where
  "make_server lib options =
     (case configure_worker_pool (worker_threads options) new_library_server of
        Inl thrown \<Rightarrow> Inl thrown
      | Inr pooled \<Rightarrow> Inr (install_hooks lib (configure_limits options pooled)))"

definition add_route ::
  "('q, 'p) http_library \<Rightarrow> ('q, 'p, 'w) library_server \<Rightarrow> HttpMethod \<Rightarrow> string \<Rightarrow> 'w handler
     \<Rightarrow> ('q, 'p, 'w) library_server" where
  "add_route lib server verb path_text handler =
     (let pattern = to_library_pattern path_text;
          adapted = adapt lib verb handler
      in case verb of
           Get \<Rightarrow> server\<lparr>get_routes := get_routes server @ [(pattern, adapted)]\<rparr>
         | Post \<Rightarrow> server\<lparr>post_routes := post_routes server @ [(pattern, adapted)]\<rparr>)"

text \<open>
  The listener: what binding and listening come to is a parameter, as is the constructor
  \<open>ThreadPool(base, max)\<close> of the library, which throws where a thread cannot be started.
  \<open>listen_after_bind\<close> is what accepting connections comes to once the workers are there: the verdict
  it returns, or an exception of its own.
\<close>

definition cannot_listen_message :: "string \<Rightarrow> 16 word \<Rightarrow> string" where
  "cannot_listen_message host port =
     ''Cannot listen on '' @ host @ '':'' @ to_string (unat port) @ ''.''"

record listener =
  bind_to_any_port :: "string \<Rightarrow> int"
  bind_to_port :: "string \<Rightarrow> 16 word \<Rightarrow> bool"
  construct_thread_pool :: "nat \<Rightarrow> nat \<Rightarrow> cpp_exception option"
  listen_after_bind :: "cpp_exception + bool"

definition bind_server :: "listener \<Rightarrow> string \<Rightarrow> 16 word \<Rightarrow> 16 word result" where
  "bind_server net host port =
     (if port = 0 then
        (let bound_port = bind_to_any_port net host
         in if bound_port < 0 then failure Internal (cannot_listen_message host port)
            else Inr (word_of_int bound_port))
      else if \<not> bind_to_port net host port then failure Internal (cannot_listen_message host port)
      else Inr port)"

text \<open>
  \<open>new_task_queue\<close>, the callback of \<open>configure_worker_pool\<close>: the library calls it as it starts to
  listen, so that an exception of the pool leaves \<open>run()\<close>.
\<close>

definition new_task_queue :: "listener \<Rightarrow> ('q, 'p, 'w) library_server \<Rightarrow> cpp_exception option" where
  "new_task_queue net server =
     (case thread_pool server of
        Some (base_threads, max_threads) \<Rightarrow> construct_thread_pool net base_threads max_threads
      | None \<Rightarrow> None)"

definition run_server ::
  "listener \<Rightarrow> ('q, 'p, 'w) library_server \<Rightarrow> cpp_exception + unit result" where
  "run_server net server =
     (case new_task_queue net server of
        Some thrown \<Rightarrow> Inl thrown
      | None \<Rightarrow>
          (case listen_after_bind net of
             Inl thrown \<Rightarrow> Inl thrown
           | Inr accepted \<Rightarrow>
               Inr (if \<not> accepted
                    then failure Internal ''The HTTP listener failed while accepting connections.''
                    else Inr ())))"

text \<open>
  \<open>stop()\<close> passes the request on to the library, which ends its loop; it changes nothing else, so that
  workers that are still answering see the routes and the hooks they started with.
\<close>

definition stop_server :: "('q, 'p, 'w) library_server \<Rightarrow> ('q, 'p, 'w) library_server" where
  "stop_server server = server\<lparr>stop_requested := True\<rparr>"

text \<open>The port of \<open>Http_Port\<close>, on the library.\<close>

definition httplib_server ::
  "('q, 'p) http_library \<Rightarrow> listener \<Rightarrow> (('q, 'p, 'w) library_server, 'w) http_server" where
  "httplib_server lib net =
     \<lparr>port_add_route = add_route lib, port_bind = (\<lambda>server. bind_server net),
      port_run = run_server net, port_stop = stop_server\<rparr>"

lemma httplib_server_simps [simp]:
  "port_add_route (httplib_server lib net) = add_route lib"
  "port_bind (httplib_server lib net) server = bind_server net"
  "port_run (httplib_server lib net) = run_server net"
  "port_stop (httplib_server lib net) = stop_server"
  by (simp_all add: httplib_server_def)

text \<open>A route is served when the library has it, adapted, under its pattern and verb.\<close>

definition serves_route ::
  "('q, 'p) http_library \<Rightarrow> ('q, 'p, 'w) library_server \<Rightarrow> HttpMethod \<Rightarrow> string \<Rightarrow> 'w handler \<Rightarrow> bool" where
  "serves_route lib server verb path_text h \<longleftrightarrow>
     (to_library_pattern path_text, adapt lib verb h)
       \<in> set (case verb of Get \<Rightarrow> get_routes server | Post \<Rightarrow> post_routes server)"

interpretation httplib: http_server_port "httplib_server lib net" "serves_route lib" for lib net
  by unfold_locales
    (auto simp: serves_route_def add_route_def stop_server_def Let_def split: HttpMethod.splits)

subsection \<open>One request in memory\<close>

record memory_stream =
  stream_input :: string
  read_position :: nat
  stream_output :: string

definition new_memory_stream :: "string \<Rightarrow> memory_stream" where
  "new_memory_stream input = \<lparr>stream_input = input, read_position = 0, stream_output = []\<rparr>"

definition stream_read :: "nat \<Rightarrow> memory_stream \<Rightarrow> string \<times> memory_stream" where
  "stream_read size_wanted stream =
     (let copied = substr (stream_input stream) (read_position stream) size_wanted
      in (copied, stream\<lparr>read_position := read_position stream + length copied\<rparr>))"

definition stream_write :: "string \<Rightarrow> memory_stream \<Rightarrow> nat \<times> memory_stream" where
  "stream_write data stream = (length data, stream\<lparr>stream_output := stream_output stream @ data\<rparr>)"

text \<open>What the stream answers about itself: always ready, on the local host, with no age.\<close>

definition stream_ready :: "memory_stream \<Rightarrow> bool" where
  "stream_ready stream = True"

definition stream_address :: "memory_stream \<Rightarrow> string \<times> int" where
  "stream_address stream = (''127.0.0.1'', 0)"

definition stream_duration :: "memory_stream \<Rightarrow> int" where
  "stream_duration stream = 0"

definition take_output :: "memory_stream \<Rightarrow> string" where
  "take_output stream = stream_output stream"

text \<open>The library's \<open>process_request\<close> is the parameter.\<close>

definition serve_raw ::
  "(('q, 'p, 'w) library_server \<Rightarrow> memory_stream \<Rightarrow> 'w server_world \<Rightarrow> memory_stream \<times> 'w server_world)
     \<Rightarrow> ('q, 'p, 'w) library_server \<Rightarrow> string \<Rightarrow> 'w server_world \<Rightarrow> string \<times> 'w server_world" where
  "serve_raw process_request server request_bytes w =
     (case process_request server (new_memory_stream request_bytes) w of
        (stream, w') \<Rightarrow> (take_output stream, w'))"

subsection \<open>What the library is relied on for\<close>

definition message_laws :: "('q, 'p) http_library \<Rightarrow> bool" where
  "message_laws lib \<longleftrightarrow>
     (\<forall>p k v. \<not> p_has_header lib p k \<and> is_acceptable_request_id v \<longrightarrow>
        p_has_header lib (p_set_header lib p k v) k \<and> p_header lib (p_set_header lib p k v) k = v)
   \<and> (\<forall>p k v. p_status lib (p_set_header lib p k v) = p_status lib p
        \<and> p_body lib (p_set_header lib p k v) = p_body lib p)
   \<and> (\<forall>p c t. p_body lib (p_set_content lib p c t) = c
        \<and> p_status lib (p_set_content lib p c t) = p_status lib p)
   \<and> (\<forall>p c t k. k \<noteq> ContentTypeHeader \<longrightarrow>
        p_has_header lib (p_set_content lib p c t) k = p_has_header lib p k
        \<and> p_header lib (p_set_content lib p c t) k = p_header lib p k)
   \<and> (\<forall>p n. p_status lib (p_set_status lib p n) = n \<and> p_body lib (p_set_status lib p n) = p_body lib p)
   \<and> (\<forall>p n k. p_has_header lib (p_set_status lib p n) k = p_has_header lib p k
        \<and> p_header lib (p_set_status lib p n) k = p_header lib p k)"

text \<open>
  What the library does once it has a response, and around a handler: an exception goes to the
  exception handler, a status from 400 on to the error handler, every response to the post-routing
  handler.
\<close>

definition after_routing ::
  "('q, 'p) http_library \<Rightarrow> ('q, 'p, 'w) library_server \<Rightarrow> 'q \<Rightarrow> 'p \<Rightarrow> 'w server_world
     \<Rightarrow> 'p \<times> 'w server_world" where
  "after_routing lib server q p w =
     (let p1 = (case error_handler server of
                  Some handle \<Rightarrow> if 400 \<le> p_status lib p then snd (handle q p) else p
                | None \<Rightarrow> p)
      in case post_routing_handler server of Some handle \<Rightarrow> handle q p1 w | None \<Rightarrow> (p1, w))"

definition run_route ::
  "('q, 'p, 'w) library_server \<Rightarrow> ('q, 'p, 'w) library_handler \<Rightarrow> 'q \<Rightarrow> 'p \<Rightarrow> 'w server_world
     \<Rightarrow> 'p \<times> 'w server_world" where
  "run_route server route q p w =
     (case route q p w of (thrown, p1, w1) \<Rightarrow>
        (case (thrown, exception_handler server) of
           (Some ex, Some handle) \<Rightarrow> handle q p1 ex w1
         | _ \<Rightarrow> (p1, w1)))"

text \<open>
  One request, whatever the state it finds: the library either refuses it with a status of its own, or
  hands it to a registered route with a fresh response and sends what the route made of it. This is
  assumed of each request by itself: it is not what the library makes of a request whose answer it
  replaces or cuts down after the handler, such as one with a \<open>Range\<close> header, which the code does not
  look at; nothing is said of the session of such a request.
\<close>

definition pipeline ::
  "('q, 'p) http_library \<Rightarrow>
     (('q, 'p, 'w) library_server \<Rightarrow> string \<Rightarrow> 'w server_world \<Rightarrow> 'p \<times> 'w server_world)
     \<Rightarrow> ('q, 'p, 'w) library_server \<Rightarrow> string \<Rightarrow> bool" where
  "pipeline lib process server bytes \<longleftrightarrow>
     (\<forall>w. \<exists>q p0. \<not> p_has_header lib p0 RequestIdHeader \<and> p_body lib p0 = [] \<and>
        ((\<exists>refused \<ge> 400. process server bytes w = after_routing lib server q (p_set_status lib p0 refused) w)
         \<or> (\<exists>route \<in> snd ` set (get_routes server @ post_routes server).
              process server bytes w =
                (case run_route server route q p0 w of (p, w1) \<Rightarrow> after_routing lib server q p w1))))"

lemma message_lawsD:
  assumes "message_laws lib"
  shows "\<not> p_has_header lib p k \<Longrightarrow> is_acceptable_request_id v \<Longrightarrow> p_has_header lib (p_set_header lib p k v) k"
    and "\<not> p_has_header lib p k \<Longrightarrow> is_acceptable_request_id v \<Longrightarrow> p_header lib (p_set_header lib p k v) k = v"
    and "p_status lib (p_set_header lib p k v) = p_status lib p"
    and "p_body lib (p_set_header lib p k v) = p_body lib p"
    and "p_body lib (p_set_content lib p c t) = c"
    and "p_status lib (p_set_content lib p c t) = p_status lib p"
    and "k \<noteq> ContentTypeHeader \<Longrightarrow> p_has_header lib (p_set_content lib p c t) k = p_has_header lib p k"
    and "k \<noteq> ContentTypeHeader \<Longrightarrow> p_header lib (p_set_content lib p c t) k = p_header lib p k"
    and "p_status lib (p_set_status lib p n) = n"
    and "p_body lib (p_set_status lib p n) = p_body lib p"
    and "p_has_header lib (p_set_status lib p n) k = p_has_header lib p k"
    and "p_header lib (p_set_status lib p n) k = p_header lib p k"
  using assms unfolding message_laws_def by blast+

lemma RequestIdHeader_not_content [simp]: "RequestIdHeader \<noteq> ContentTypeHeader"
  by (simp add: RequestIdHeader_def ContentTypeHeader_def)

lemma write_response_facts:
  assumes "message_laws lib"
  shows "p_status lib (write_response lib p answer) = status answer"
    and "p_body lib (write_response lib p answer) = body answer"
    and "p_has_header lib (write_response lib p answer) RequestIdHeader = p_has_header lib p RequestIdHeader"
    and "p_header lib (write_response lib p answer) RequestIdHeader = p_header lib p RequestIdHeader"
  by (simp_all add: write_response_def message_lawsD [OF assms])

lemma resolve_request_id_acceptable: "is_acceptable_request_id (fst (resolve_request_id lib q source))"
  by (simp add: resolve_request_id_def Let_def acceptable_generate_request_id)

text \<open>A response that carries an id that is safe to echo.\<close>

definition has_request_id :: "('q, 'p) http_library \<Rightarrow> 'p \<Rightarrow> bool" where
  "has_request_id lib p \<longleftrightarrow>
     p_has_header lib p RequestIdHeader \<and> is_acceptable_request_id (p_header lib p RequestIdHeader)"

lemma has_request_id_write [simp]:
  "message_laws lib \<Longrightarrow> has_request_id lib (write_response lib p answer) = has_request_id lib p"
  by (simp add: has_request_id_def write_response_facts)

lemma has_request_id_set:
  assumes "message_laws lib" and "\<not> p_has_header lib p RequestIdHeader" and "is_acceptable_request_id v"
  shows "has_request_id lib (p_set_header lib p RequestIdHeader v)"
  using assms by (simp add: has_request_id_def message_lawsD [OF assms(1)])

text \<open>What a response says when it is an error.\<close>

definition says :: "('q, 'p) http_library \<Rightarrow> 'p \<Rightarrow> HttpResponse \<Rightarrow> bool" where
  "says lib p answer \<longleftrightarrow> p_status lib p = status answer \<and> p_body lib p = body answer"

lemma says_write: "message_laws lib \<Longrightarrow> says lib (write_response lib p answer) answer"
  by (simp add: says_def write_response_facts)

lemma says_set_header:
  "message_laws lib \<Longrightarrow> says lib (p_set_header lib p k v) answer = says lib p answer"
  by (simp add: says_def message_lawsD)

lemma ensure_request_id_facts:
  assumes "message_laws lib" and "p_has_header lib p RequestIdHeader \<longrightarrow> has_request_id lib p"
  shows "has_request_id lib (fst (ensure_request_id lib q p w))"
    and "says lib (fst (ensure_request_id lib q p w)) answer = says lib p answer"
    and "application (snd (ensure_request_id lib q p w)) = application w"
  using assms has_request_id_set [OF assms(1)] resolve_request_id_acceptable [of lib q "ids w"]
  by (auto simp: ensure_request_id_def case_prod_beta says_set_header)

definition our_server :: "('q, 'p) http_library \<Rightarrow> ('q, 'p, 'w) library_server \<Rightarrow> bool" where
  "our_server lib server \<longleftrightarrow> error_handler server = Some (fill_library_error lib)
     \<and> exception_handler server = Some (report_handler_exception lib)
     \<and> post_routing_handler server = Some (ensure_request_id lib)"

lemma our_server_make: "make_server lib options = Inr server \<Longrightarrow> our_server lib server"
  by (auto simp: make_server_def our_server_def install_hooks_def split: sum.splits)

lemma our_server_add_route [simp]: "our_server lib (add_route lib server m path_text h) = our_server lib server"
  by (cases m) (simp_all add: our_server_def add_route_def Let_def)

lemma after_routing_facts:
  assumes "message_laws lib" and "our_server lib server"
    and "p_has_header lib p RequestIdHeader \<longrightarrow> has_request_id lib p"
  shows "has_request_id lib (fst (after_routing lib server q p w))"
    and "p_status lib p < 400 \<or> p_body lib p \<noteq> [] \<Longrightarrow> says lib p answer \<Longrightarrow>
      says lib (fst (after_routing lib server q p w)) answer"
    and "400 \<le> p_status lib p \<Longrightarrow> p_body lib p = [] \<Longrightarrow>
      says lib (fst (after_routing lib server q p w)) (error_response (error_for_library_status (p_status lib p)))"
    and "application (snd (after_routing lib server q p w)) = application w"
proof -
  let ?p1 = "if 400 \<le> p_status lib p then snd (fill_library_error lib q p) else p"
  have split: "after_routing lib server q p w = ensure_request_id lib q ?p1 w"
    using assms(2) by (simp add: after_routing_def our_server_def)
  have id: "p_has_header lib ?p1 RequestIdHeader \<longrightarrow> has_request_id lib ?p1"
    using assms(1,3) by (simp add: fill_library_error_def write_response_facts)
  note facts = ensure_request_id_facts [OF assms(1) id]
  show "has_request_id lib (fst (after_routing lib server q p w))"
    unfolding split by (rule facts(1))
  show "application (snd (after_routing lib server q p w)) = application w"
    unfolding split by (rule facts(3))
  show "says lib (fst (after_routing lib server q p w)) answer"
    if "p_status lib p < 400 \<or> p_body lib p \<noteq> []" "says lib p answer"
    unfolding split facts(2) using that by (auto simp: fill_library_error_def)
  show "says lib (fst (after_routing lib server q p w)) (error_response (error_for_library_status (p_status lib p)))"
    if "400 \<le> p_status lib p" "p_body lib p = []"
    unfolding split facts(2) using that says_write [OF assms(1)] by (simp add: fill_library_error_def)
qed

subsection \<open>Around a handler\<close>

definition neutral_request :: "('q, 'p) http_library \<Rightarrow> HttpMethod \<Rightarrow> 'q \<Rightarrow> string \<Rightarrow> HttpRequest" where
  "neutral_request lib verb q id_text =
     \<lparr>request_method = verb, path = q_path lib q, path_parameters = path_parameters_of lib q,
      request_body = q_body lib q, request_id = id_text\<rparr>"

definition refused_by_type :: "('q, 'p) http_library \<Rightarrow> HttpMethod \<Rightarrow> 'q \<Rightarrow> bool" where
  "refused_by_type lib verb q \<longleftrightarrow>
     expects_json_body verb \<and> \<not> is_json_content_type (q_header lib q ContentTypeHeader)"

lemma adapt_refused:
  "refused_by_type lib verb q \<Longrightarrow> adapt lib verb handler q p w =
     (case resolve_request_id lib q (ids w) of (id_text, source) \<Rightarrow>
        (None, write_response lib (p_set_header lib p RequestIdHeader id_text) (error_response non_json_body_error),
         w\<lparr>ids := source\<rparr>))"
  by (simp add: adapt_def refused_by_type_def Let_def)

lemma adapt_runs:
  "\<not> refused_by_type lib verb q \<Longrightarrow> adapt lib verb handler q p w =
     (case resolve_request_id lib q (ids w) of (id_text, source) \<Rightarrow>
        (case handler (neutral_request lib verb q id_text) (application w) of (outcome, changed) \<Rightarrow>
           (case outcome of
              Inl thrown \<Rightarrow> (Some thrown, p_set_header lib p RequestIdHeader id_text,
                w\<lparr>ids := source, application := changed\<rparr>)
            | Inr answer \<Rightarrow> (None, write_response lib (p_set_header lib p RequestIdHeader id_text) answer,
                w\<lparr>ids := source, application := changed\<rparr>))))"
  by (auto simp: adapt_def refused_by_type_def neutral_request_def Let_def split: prod.split sum.split)

text \<open>What the client is told when a handler throws, and what a handler makes of a request.\<close>

definition internal_error_response :: HttpResponse where
  "internal_error_response = error_response \<lparr>code = Internal, message = ''Internal error.''\<rparr>"

definition handler_gives :: "'w handler \<Rightarrow> 'w \<Rightarrow> HttpResponse \<Rightarrow> 'w \<Rightarrow> bool" where
  "handler_gives handler v answer v' \<longleftrightarrow>
     (\<exists>r outcome. handler r v = (outcome, v') \<and>
        answer = (case outcome of Inl thrown \<Rightarrow> internal_error_response | Inr a \<Rightarrow> a))"

lemma handler_gives_answer:
  "handler_gives h v answer v' \<Longrightarrow> answer \<in> range error_response \<or> (\<exists>r v. fst (h r v) = Inr answer)"
proof -
  assume "handler_gives h v answer v'"
  then obtain r outcome where r: "h r v = (outcome, v')"
    and answer: "answer = (case outcome of Inl thrown \<Rightarrow> internal_error_response | Inr a \<Rightarrow> a)"
    unfolding handler_gives_def by blast
  show ?thesis
  proof (cases outcome)
    case (Inl thrown)
    with answer show ?thesis by (simp add: internal_error_response_def)
  next
    case (Inr a)
    with r answer have "fst (h r v) = Inr answer" by simp
    then show ?thesis by blast
  qed
qed

lemma run_route_facts:
  fixes handler :: "'w handler" and verb :: HttpMethod and q :: 'q and w :: "'w server_world"
  assumes "message_laws lib" and "our_server lib server" and "\<not> p_has_header lib p RequestIdHeader"
  defines "answered \<equiv> run_route server (adapt lib verb handler) q p w"
  shows "has_request_id lib (fst answered)"
    and "\<exists>answer. says lib (fst answered) answer
      \<and> (answer \<in> range error_response \<and> application (snd answered) = application w
         \<or> handler_gives handler (application w) answer (application (snd answered)))"
proof -
  obtain id_text source where id: "resolve_request_id lib q (ids w) = (id_text, source)"
    by (cases "resolve_request_id lib q (ids w)")
  then have ok: "is_acceptable_request_id id_text"
    using resolve_request_id_acceptable [of lib q "ids w"] by simp
  note set = has_request_id_set [OF assms(1,3) ok]
  have handler: "exception_handler server = Some (report_handler_exception lib)"
    using assms(2) by (simp add: our_server_def)
  obtain outcome changed where h:
    "handler (neutral_request lib verb q id_text) (application w) = (outcome, changed)"
    by (cases "handler (neutral_request lib verb q id_text) (application w)")
  show "has_request_id lib (fst answered)"
    using assms(1) set handler h
    by (cases "refused_by_type lib verb q"; cases outcome)
      (simp_all add: answered_def run_route_def adapt_refused adapt_runs id report_handler_exception_def Let_def)
  show "\<exists>answer. says lib (fst answered) answer
      \<and> (answer \<in> range error_response \<and> application (snd answered) = application w
         \<or> handler_gives handler (application w) answer (application (snd answered)))"
  proof (cases "refused_by_type lib verb q")
    case True
    then have "says lib (fst answered) (error_response non_json_body_error)"
      "application (snd answered) = application w"
      by (simp_all add: answered_def run_route_def adapt_refused id says_write [OF assms(1)])
    then show ?thesis by blast
  next
    case False
    then have "says lib (fst answered) (case outcome of Inl thrown \<Rightarrow> internal_error_response | Inr a \<Rightarrow> a)"
      and "application (snd answered) = changed"
      using h handler
      by (cases outcome;
        simp add: answered_def run_route_def adapt_runs id report_handler_exception_def Let_def
          internal_error_response_def says_write [OF assms(1)])+
    with h show ?thesis unfolding handler_gives_def by blast
  qed
qed

subsection \<open>The whole server\<close>

type_synonym 'w route = "HttpMethod \<times> string \<times> 'w handler"

definition with_routes ::
  "('q, 'p) http_library \<Rightarrow> 'w route list \<Rightarrow> ('q, 'p, 'w) library_server \<Rightarrow> ('q, 'p, 'w) library_server" where
  "with_routes lib routes server =
     fold (\<lambda>(verb, path_text, handler) s. add_route lib s verb path_text handler) routes server"

lemma our_server_with_routes [simp]: "our_server lib (with_routes lib routes server) = our_server lib server"
  by (induction routes arbitrary: server) (simp_all add: with_routes_def case_prod_beta)

definition all_routes :: "('q, 'p, 'w) library_server \<Rightarrow> (string \<times> ('q, 'p, 'w) library_handler) set" where
  "all_routes server = set (get_routes server @ post_routes server)"

lemma thread_pool_with_routes [simp]: "thread_pool (with_routes lib routes server) = thread_pool server"
proof (induction routes arbitrary: server)
  case (Cons r routes)
  obtain m t h where r: "r = (m, t, h)" by (cases r)
  have "thread_pool (add_route lib server m t h) = thread_pool server"
    by (cases m) (simp_all add: add_route_def Let_def)
  with Cons.IH [of "add_route lib server m t h"] r show ?case by (simp add: with_routes_def)
qed (simp add: with_routes_def)

lemma all_routes_with_routes:
  "all_routes (with_routes lib routes server) =
     all_routes server \<union> (\<lambda>(m, t, h). (to_library_pattern t, adapt lib m h)) ` set routes"
proof (induction routes arbitrary: server)
  case Nil
  then show ?case by (simp add: with_routes_def)
next
  case (Cons r routes)
  obtain m t h where r: "r = (m, t, h)" by (cases r)
  have "all_routes (add_route lib server m t h) = all_routes server \<union> {(to_library_pattern t, adapt lib m h)}"
    by (cases m) (auto simp: add_route_def all_routes_def Let_def)
  with Cons.IH [of "add_route lib server m t h"] r show ?case by (simp add: with_routes_def)
qed

lemma all_routes_make: "make_server lib options = Inr server \<Longrightarrow> all_routes server = {}"
  by (auto simp: make_server_def all_routes_def install_hooks_def configure_limits_def
      configure_worker_pool_def new_library_server_def split: if_splits)

text \<open>No route answers with an error status and no body.\<close>

definition errors_have_bodies :: "'w route list \<Rightarrow> bool" where
  "errors_have_bodies routes \<longleftrightarrow>
     (\<forall>(m, t, h) \<in> set routes. \<forall>r v answer. fst (h r v) = Inr answer \<longrightarrow> 400 \<le> status answer \<longrightarrow> body answer \<noteq> [])"

lemma handler_answer_bodied:
  assumes "errors_have_bodies routes" and "(m, t, h) \<in> set routes"
    and "answer \<in> range error_response \<or> handler_gives h v answer v'"
  shows "status answer < 400 \<or> body answer \<noteq> []"
proof -
  from assms(3) have "answer \<in> range error_response \<or> (\<exists>r v. fst (h r v) = Inr answer)"
    by (elim disjE handler_gives_answer disjI1)
  then show ?thesis
  proof (elim disjE exE)
    fix r v assume "fst (h r v) = Inr answer"
    then have "400 \<le> status answer \<longrightarrow> body answer \<noteq> []"
      using assms(1,2) unfolding errors_have_bodies_def by blast
    then show ?thesis by linarith
  qed (auto simp: body_error_response_nonempty)
qed

text \<open>
  One request: the response carries an id, and says either an error, with the application as it was,
  or what the handler of a route made of the application.
\<close>

lemma every_response:
  fixes routes :: "'w route list" and bytes :: string and w :: "'w server_world"
  assumes "message_laws lib" and "make_server lib options = Inr fresh"
    and "errors_have_bodies routes"
    and "pipeline lib process (with_routes lib routes fresh) bytes"
  defines "sent \<equiv> process (with_routes lib routes fresh) bytes w"
  shows "has_request_id lib (fst sent)"
    and "\<exists>answer. says lib (fst sent) answer
      \<and> (answer \<in> range error_response \<and> application (snd sent) = application w
         \<or> (\<exists>(m, t, h) \<in> set routes. handler_gives h (application w) answer (application (snd sent))))"
proof (atomize (full))
  let ?server = "with_routes lib routes fresh"
  have ours: "our_server lib ?server" using our_server_make [OF assms(2)] by simp
  from assms(4) obtain q p0 where p0: "\<not> p_has_header lib p0 RequestIdHeader" "p_body lib p0 = []"
    and cases: "(\<exists>refused \<ge> 400. process ?server bytes w = after_routing lib ?server q (p_set_status lib p0 refused) w)
       \<or> (\<exists>route \<in> snd ` set (get_routes ?server @ post_routes ?server).
            process ?server bytes w =
              (case run_route ?server route q p0 w of (p, w1) \<Rightarrow> after_routing lib ?server q p w1))"
    unfolding pipeline_def by metis
  from cases show "has_request_id lib (fst sent) \<and> (\<exists>answer. says lib (fst sent) answer
      \<and> (answer \<in> range error_response \<and> application (snd sent) = application w
         \<or> (\<exists>(m, t, h) \<in> set routes. handler_gives h (application w) answer (application (snd sent)))))"
  proof (elim disjE exE conjE bexE)
    fix refused :: int
    assume refused: "400 \<le> refused"
      "process ?server bytes w = after_routing lib ?server q (p_set_status lib p0 refused) w"
    have none: "\<not> p_has_header lib (p_set_status lib p0 refused) RequestIdHeader"
      "p_body lib (p_set_status lib p0 refused) = []" "p_status lib (p_set_status lib p0 refused) = refused"
      using p0 by (simp_all add: message_lawsD [OF assms(1)])
    then have cond: "p_has_header lib (p_set_status lib p0 refused) RequestIdHeader
        \<longrightarrow> has_request_id lib (p_set_status lib p0 refused)" by blast
    note facts = after_routing_facts [OF assms(1) ours cond]
    have "has_request_id lib (fst sent)" unfolding sent_def refused(2) by (rule facts(1))
    moreover have "says lib (fst sent) (error_response (error_for_library_status refused))"
      unfolding sent_def refused(2) using facts(3) none refused(1) by simp
    moreover have "application (snd sent) = application w"
      unfolding sent_def refused(2) by (rule facts(4))
    ultimately show ?thesis by blast
  next
    fix route
    assume "route \<in> snd ` set (get_routes ?server @ post_routes ?server)"
      and run: "process ?server bytes w =
        (case run_route ?server route q p0 w of (p, w1) \<Rightarrow> after_routing lib ?server q p w1)"
    then have "route \<in> snd ` all_routes ?server" by (simp only: all_routes_def)
    then obtain m t h where route: "(m, t, h) \<in> set routes" "route = adapt lib m h"
      by (auto simp: all_routes_with_routes all_routes_make [OF assms(2)])
    define ran where "ran = run_route ?server (adapt lib m h) q p0 w"
    have id: "has_request_id lib (fst ran)"
      unfolding ran_def by (rule run_route_facts(1) [OF assms(1) ours p0(1)])
    obtain answer where answer: "says lib (fst ran) answer"
      "answer \<in> range error_response \<and> application (snd ran) = application w
        \<or> handler_gives h (application w) answer (application (snd ran))"
      using run_route_facts(2) [OF assms(1) ours p0(1)] unfolding ran_def by blast
    then have bodied: "p_status lib (fst ran) < 400 \<or> p_body lib (fst ran) \<noteq> []"
      using handler_answer_bodied [OF assms(3) route(1)] unfolding says_def by metis
    have sent: "sent = after_routing lib ?server q (fst ran) (snd ran)"
      by (simp add: sent_def run route(2) ran_def case_prod_beta)
    note facts = after_routing_facts [OF assms(1) ours impI [OF id]]
    have "has_request_id lib (fst sent)" unfolding sent by (rule facts(1))
    moreover have "says lib (fst sent) answer" unfolding sent by (rule facts(2) [OF bodied answer(1)])
    moreover have "application (snd sent) = application (snd ran)" unfolding sent by (rule facts(4))
    moreover have "answer \<in> range error_response \<and> application (snd sent) = application w
        \<or> (\<exists>(m, t, h) \<in> set routes. handler_gives h (application w) answer (application (snd sent)))"
      using answer(2) route(1) calculation(3) by (elim disjE) (simp, fastforce)
    ultimately show ?thesis by blast
  qed
qed

end
