(* ===== verification/Http_Contract.thy ===== *)
theory Http_Contract
  imports Http_Server
begin

text \<open>
  The properties of the HTTP server, and a small library to instantiate its parameters with: messages
  as records, and a pipeline that finds a route by its pattern and otherwise refuses with 404.
\<close>

subsection \<open>A library to try the server on\<close>

record plain_request =
  sent_headers :: "(string \<times> string) list"
  sent_path :: string
  sent_body :: string
  sent_params :: "(string \<times> string) list"

record plain_response =
  answer_status :: int
  answer_body :: string
  answer_headers :: "(string \<times> string) list"

definition header_or_empty :: "(string \<times> string) list \<Rightarrow> string \<Rightarrow> string" where
  "header_or_empty headers key = (case map_of headers key of None \<Rightarrow> [] | Some found \<Rightarrow> found)"

definition plain_library :: "(plain_request, plain_response) http_library" where
  "plain_library =
     \<lparr>q_header = (\<lambda>q. header_or_empty (sent_headers q)), q_path = sent_path, q_body = sent_body,
      q_path_params = sent_params,
      p_status = answer_status, p_body = answer_body,
      p_has_header = (\<lambda>p k. map_of (answer_headers p) k \<noteq> None),
      p_header = (\<lambda>p. header_or_empty (answer_headers p)),
      p_set_status = (\<lambda>p n. p\<lparr>answer_status := n\<rparr>),
      p_set_content = (\<lambda>p c t. p\<lparr>answer_body := c, answer_headers := (''Content-Type'', t) # answer_headers p\<rparr>),
      p_set_header = (\<lambda>p k v. p\<lparr>answer_headers := (k, v) # answer_headers p\<rparr>)\<rparr>"

definition plain_fresh :: plain_response where
  "plain_fresh = \<lparr>answer_status = -1, answer_body = [], answer_headers = []\<rparr>"

text \<open>The pattern to look for and the request the bytes stand for are given by \<open>decode\<close>.\<close>

definition plain_process ::
  "(string \<Rightarrow> string \<times> plain_request) \<Rightarrow> (plain_request, plain_response, 'w) library_server \<Rightarrow> string
     \<Rightarrow> 'w server_world \<Rightarrow> plain_response \<times> 'w server_world" where
  "plain_process decode server bytes w =
     (case decode bytes of (pattern, q) \<Rightarrow>
        (case find (\<lambda>r. fst r = pattern) (get_routes server @ post_routes server) of
           None \<Rightarrow> after_routing plain_library server q (p_set_status plain_library plain_fresh 404) w
         | Some r \<Rightarrow>
             (case run_route server (snd r) q plain_fresh w of
                (p, w1) \<Rightarrow> after_routing plain_library server q p w1)))"

lemma plain_message_laws: "message_laws plain_library"
  by (auto simp: message_laws_def plain_library_def header_or_empty_def ContentTypeHeader_def)

lemma plain_pipeline: "pipeline plain_library (plain_process decode) server bytes"
proof -
  have "\<exists>q p0. \<not> p_has_header plain_library p0 RequestIdHeader \<and> p_body plain_library p0 = [] \<and>
      ((\<exists>refused \<ge> 400. plain_process decode server bytes w
          = after_routing plain_library server q (p_set_status plain_library p0 refused) w)
       \<or> (\<exists>route \<in> snd ` set (get_routes server @ post_routes server).
            plain_process decode server bytes w =
              (case run_route server route q p0 w of (p, w1) \<Rightarrow> after_routing plain_library server q p w1)))"
    for w
  proof (intro exI conjI)
    show "\<not> p_has_header plain_library plain_fresh RequestIdHeader" "p_body plain_library plain_fresh = []"
      by (simp_all add: plain_library_def plain_fresh_def)
    let ?q = "snd (decode bytes)"
    show "(\<exists>refused \<ge> 400. plain_process decode server bytes w
          = after_routing plain_library server ?q (p_set_status plain_library plain_fresh refused) w)
       \<or> (\<exists>route \<in> snd ` set (get_routes server @ post_routes server).
            plain_process decode server bytes w =
              (case run_route server route ?q plain_fresh w of (p, w1) \<Rightarrow> after_routing plain_library server ?q p w1))"
    proof (cases "find (\<lambda>r. fst r = fst (decode bytes)) (get_routes server @ post_routes server)")
      case None
      then have "plain_process decode server bytes w
          = after_routing plain_library server ?q (p_set_status plain_library plain_fresh 404) w"
        by (simp add: plain_process_def case_prod_beta)
      then show ?thesis by (intro disjI1 exI [of _ 404]) simp
    next
      case (Some r)
      then have "r \<in> set (get_routes server @ post_routes server)" by (metis find_Some_iff nth_mem)
      with Some show ?thesis
        by (intro disjI2 bexI [of _ "snd r"]) (simp_all add: plain_process_def case_prod_beta)
    qed
  qed
  then show ?thesis unfolding pipeline_def by blast
qed

lemma plain_pipelines: "list_all (pipeline plain_library (plain_process decode) server) requests"
  by (simp add: list_all_iff plain_pipeline)

definition quiet_world :: "'w \<Rightarrow> 'w server_world" where
  "quiet_world v = \<lparr>application = v, ids = \<lparr>thread_engine = None, random_device = sconst 0\<rparr>, server_log = []\<rparr>"

definition sample_request :: plain_request where
  "sample_request =
     \<lparr>sent_headers = [(''X-Request-Id'', ''abc''), (''Content-Type'', ''text/plain; charset=utf-8'')],
      sent_path = ''/indexes'', sent_body = [], sent_params = []\<rparr>"

definition echo_handler :: "unit handler" where
  "echo_handler request v = (Inr \<lparr>status = 200, body = request_id request\<rparr>, v)"

definition echo_routes :: "unit route list" where
  "echo_routes = [(Get, ''/health'', echo_handler), (Post, ''/indexes'', echo_handler)]"

definition sample_listener :: listener where
  "sample_listener =
     \<lparr>bind_to_any_port = (\<lambda>h. 49152), bind_to_port = (\<lambda>h p. True),
      construct_thread_pool = (\<lambda>base_threads max_threads. None), listen_after_bind = Inr True\<rparr>"

text \<open>The same listener on a machine that cannot start another thread.\<close>

definition threadless_listener :: listener where
  "threadless_listener = sample_listener\<lparr>construct_thread_pool :=
     (\<lambda>base_threads max_threads. Some (StdException ''Resource temporarily unavailable''))\<rparr>"

subsection \<open>Properties\<close>

text \<open>
  FR-73, FR-71: every response the server sends, those the library makes by itself included,
  carries an X-Request-Id that is safe to echo; and it says either what a route answered or an error
  in the one form of errors.
\<close>

theorem every_response_contract:
  fixes routes :: "'w route list"
  assumes "message_laws lib" and "make_server lib options = Inr server"
    and "errors_have_bodies routes"
    and "pipeline lib process (with_routes lib routes server) bytes"
  shows "case fst (process (with_routes lib routes server) bytes w) of p \<Rightarrow>
     p_has_header lib p RequestIdHeader
     \<and> is_acceptable_request_id (p_header lib p RequestIdHeader)
     \<and> (\<exists>answer. p_status lib p = status answer \<and> p_body lib p = body answer
          \<and> (answer \<in> range error_response
             \<or> answer \<in> {a. \<exists>(m, t, h) \<in> set routes. \<exists>r v. fst (h r v) = Inr a}))"
proof -
  note facts = every_response [OF assms, of w]
  from facts(2) obtain answer where answer: "says lib (fst (process (with_routes lib routes server) bytes w)) answer"
    "answer \<in> range error_response \<or> (\<exists>(m, t, h) \<in> set routes. \<exists>r v. fst (h r v) = Inr answer)"
    by (fastforce dest: handler_gives_answer)
  then have "answer \<in> range error_response
      \<or> answer \<in> {a. \<exists>(m, t, h) \<in> set routes. \<exists>r v. fst (h r v) = Inr a}" by blast
  with facts(1) answer(1) show ?thesis
    unfolding has_request_id_def says_def by (intro conjI exI [of _ answer]) simp_all
qed

theorem every_response_contract_witness:
  "case make_server plain_library default_options of
     Inr server \<Rightarrow>
       p_has_header plain_library (fst (plain_process (\<lambda>b. (b, sample_request))
         (with_routes plain_library echo_routes server) ''/nowhere'' (quiet_world ()))) RequestIdHeader
   | Inl e \<Rightarrow> False"
proof -
  have bodies: "errors_have_bodies echo_routes"
    by (simp add: errors_have_bodies_def echo_routes_def echo_handler_def)
  obtain server where server: "make_server plain_library default_options
      = Inr (server :: (plain_request, plain_response, unit) library_server)"
    by (simp add: make_server_def configure_worker_pool_def default_options_def)
  show ?thesis
    using every_response_contract [OF plain_message_laws server bodies plain_pipeline,
        of "\<lambda>b. (b, sample_request)" "''/nowhere''" "quiet_world ()"] server
    by simp
qed

text \<open>
  C30. FR-70: a POST whose Content-Type is not JSON is answered 400 with an FR-71 body, and its handler
  is not called: the application is as it was.
\<close>

theorem non_json_post_refused:
  assumes "message_laws lib" and "\<not> is_json_content_type (q_header lib q ContentTypeHeader)"
  shows "case adapt lib Post handler q p w of (thrown, p', w') \<Rightarrow>
     thrown = None \<and> application w' = application w \<and> p_status lib p' = 400
     \<and> read_object (p_body lib p') = Some
         [(''code'', JString ''malformed_request''),
          (''message'', JString ''The request body must be JSON, sent with Content-Type: application/json.''),
          (''type'', JString ''invalid_request'')]"
proof -
  have "refused_by_type lib Post q" using assms(2) by (simp add: refused_by_type_def)
  from adapt_refused [OF this, of handler p w] show ?thesis
    by (simp add: case_prod_beta write_response_facts [OF assms(1)] status_error_response
        body_error_response wire error_members_def non_json_body_error_def)
qed

theorem non_json_post_refused_witness:
  "p_status plain_library (fst (snd (adapt plain_library Post echo_handler sample_request plain_fresh
      (quiet_world ())))) = 400"
proof -
  have "\<not> is_json_content_type (q_header plain_library sample_request ContentTypeHeader)"
    by code_simp
  from non_json_post_refused [OF plain_message_laws this,
      where handler = echo_handler and p = plain_fresh and w = "quiet_world ()"]
  show ?thesis by (auto simp: case_prod_beta)
qed

text \<open>
  C29. A request that is not refused for its type reaches the handler once, with the verb, path,
  parameters and body the library read and the very id the response carries; the response is what
  the handler answered, and the application is what the handler left.
\<close>

theorem adapt_calls_handler:
  assumes "message_laws lib" and "\<not> p_has_header lib p RequestIdHeader"
    and "verb = Get \<or> is_json_content_type (q_header lib q ContentTypeHeader)"
  shows "case adapt lib verb handler q p w of (thrown, p', w') \<Rightarrow>
     (case handler \<lparr>request_method = verb, path = q_path lib q,
                    path_parameters = map (\<lambda>(n, v). \<lparr>name = n, val = v\<rparr>) (q_path_params lib q),
                    request_body = q_body lib q, request_id = p_header lib p' RequestIdHeader\<rparr>
             (application w) of (outcome, changed) \<Rightarrow>
        application w' = changed
        \<and> (case outcome of
             Inl ex \<Rightarrow> thrown = Some ex \<and> p_body lib p' = p_body lib p
           | Inr answer \<Rightarrow> thrown = None \<and> p_status lib p' = status answer \<and> p_body lib p' = body answer))"
proof -
  obtain id_text source where id: "resolve_request_id lib q (ids w) = (id_text, source)"
    by (cases "resolve_request_id lib q (ids w)")
  then have "is_acceptable_request_id id_text"
    using resolve_request_id_acceptable [of lib q "ids w"] by simp
  note set = message_lawsD(2) [OF assms(1,2) this] message_lawsD(4) [OF assms(1)]
  have "\<not> refused_by_type lib verb q"
    using assms(3) by (auto simp: refused_by_type_def)
  note runs = adapt_runs [OF this, of handler p w]
  obtain outcome changed where h:
    "handler (neutral_request lib verb q id_text) (application w) = (outcome, changed)"
    by (cases "handler (neutral_request lib verb q id_text) (application w)")
  have result: "adapt lib verb handler q p w =
      (case outcome of
         Inl ex \<Rightarrow> (Some ex, p_set_header lib p RequestIdHeader id_text, w\<lparr>ids := source, application := changed\<rparr>)
       | Inr answer \<Rightarrow> (None, write_response lib (p_set_header lib p RequestIdHeader id_text) answer,
           w\<lparr>ids := source, application := changed\<rparr>))"
    by (simp only: runs id h prod.case)
  have called: "handler \<lparr>request_method = verb, path = q_path lib q,
      path_parameters = map (\<lambda>(n, v). \<lparr>name = n, val = v\<rparr>) (q_path_params lib q),
      request_body = q_body lib q, request_id = id_text\<rparr> (application w) = (outcome, changed)"
    using h by (simp only: neutral_request_def path_parameters_of_def)
  show ?thesis
    unfolding result by (cases outcome) (simp_all add: called set write_response_facts [OF assms(1)])
qed

theorem adapt_calls_handler_witness:
  "p_body plain_library (fst (snd (adapt plain_library Get echo_handler sample_request plain_fresh
      (quiet_world ())))) = ''abc''"
proof -
  have fresh: "\<not> p_has_header plain_library plain_fresh RequestIdHeader"
    by (simp add: plain_library_def plain_fresh_def)
  have "q_header plain_library sample_request RequestIdHeader = ''abc''" "is_acceptable_request_id ''abc''"
    by code_simp+
  then have "resolve_request_id plain_library sample_request source = (''abc'', source)" for source
    by (simp add: resolve_request_id_def)
  then have "p_header plain_library (fst (snd (adapt plain_library Get echo_handler sample_request plain_fresh
      (quiet_world ())))) RequestIdHeader = ''abc''"
    by (simp add: adapt_def echo_handler_def write_response_facts [OF plain_message_laws])
      (simp add: plain_library_def header_or_empty_def)
  with adapt_calls_handler [OF plain_message_laws fresh,
      where verb = Get and q = sample_request and handler = echo_handler and w = "quiet_world ()"]
  show ?thesis by (simp add: case_prod_beta echo_handler_def)
qed

text \<open>
  C35. A handler that throws is answered 500 \<open>internal\<close> with one fixed body, whatever was thrown and
  whatever the handler had written: no detail reaches the client. The detail and the request id are
  appended to the server log, and the application and the ids are left as they are.
\<close>

theorem handler_exception_hidden:
  assumes "message_laws lib"
  shows "case report_handler_exception lib q p thrown w of (p', w') \<Rightarrow>
     p_status lib p' = 500
     \<and> read_object (p_body lib p') = Some
         [(''code'', JString ''internal''), (''message'', JString ''Internal error.''),
          (''type'', JString ''internal'')]
     \<and> server_log w' = server_log w @ ''leta: unhandled exception in request ''
         @ p_header lib p RequestIdHeader @ '': ''
         @ (case thrown of StdException what \<Rightarrow> what
            | ForeignException \<Rightarrow> ''an exception not derived from std::exception'') @ [CHR 0x0A]
     \<and> application w' = application w \<and> ids w' = ids w"
  by (cases thrown)
    (simp_all add: report_handler_exception_def Let_def write_response_facts [OF assms]
      status_error_response body_error_response wire error_members_def)

theorem handler_exception_hidden_witness:
  "p_status plain_library (fst (report_handler_exception plain_library sample_request plain_fresh
      (StdException ''/etc/passwd: no such file'') (quiet_world ()))) = 500"
  using handler_exception_hidden [OF plain_message_laws, where q = sample_request and p = plain_fresh
      and thrown = "StdException ''/etc/passwd: no such file''" and w = "quiet_world ()"]
  by (simp add: case_prod_beta)

text \<open>
  C36. A response that has a body passes the library-error hook unchanged; one that has none leaves
  it with the FR-71 body of its status: \<open>route_not_found\<close> for 404, \<open>payload_too_large\<close> for 413,
  \<open>internal\<close> under 500 from 500 on, \<open>malformed_request\<close> under 400 for every other one.
\<close>

theorem library_error_filled:
  assumes "message_laws lib"
  shows "case fill_library_error lib q p of (handled, p') \<Rightarrow>
     (if p_body lib p = [] then
        handled = Handled
        \<and> p_status lib p' =
            (if p_status lib p \<in> {404, 413} then p_status lib p else if 500 \<le> p_status lib p then 500 else 400)
        \<and> map_option (\<lambda>ms. map_of ms ''code'') (read_object (p_body lib p')) =
            Some (Some (JString
              (if p_status lib p = 404 then ''route_not_found''
               else if p_status lib p = 413 then ''payload_too_large''
               else if 500 \<le> p_status lib p then ''internal'' else ''malformed_request'')))
      else handled = Unhandled \<and> p' = p)"
  by (simp add: fill_library_error_def write_response_facts [OF assms] error_for_library_status_def
      status_error_response body_error_response wire error_members_def)

theorem library_error_filled_witness:
  "p_status plain_library (snd (fill_library_error plain_library sample_request
      (p_set_status plain_library plain_fresh 414))) = 400"
proof -
  have "p_body plain_library (p_set_status plain_library plain_fresh 414) = []"
    "p_status plain_library (p_set_status plain_library plain_fresh 414) = 414"
    by (simp_all add: plain_library_def plain_fresh_def)
  then show ?thesis
    using library_error_filled [OF plain_message_laws, where q = sample_request
        and p = "p_set_status plain_library plain_fresh 414"]
    by (simp add: case_prod_beta)
qed

text \<open>A path of the port, segment by segment, as the port and as the library write it.\<close>

datatype segment =
    Plain string
  | Parameter string

fun port_segment :: "segment \<Rightarrow> string" where
  "port_segment (Plain s) = ''/'' @ s"
| "port_segment (Parameter n) = ''/{'' @ n @ ''}''"

fun library_segment :: "segment \<Rightarrow> string" where
  "library_segment (Plain s) = ''/'' @ s"
| "library_segment (Parameter n) = ''/:'' @ n"

fun segment_text :: "segment \<Rightarrow> string" where
  "segment_text (Plain s) = s"
| "segment_text (Parameter n) = n"

definition pattern_of_char :: "char \<Rightarrow> string" where
  "pattern_of_char c = (if c = CHR ''{'' then '':'' else if c = CHR ''}'' then [] else [c])"

lemma to_library_pattern_concat: "to_library_pattern s = concat (map pattern_of_char s)"
proof -
  have "foldl (\<lambda>pattern character.
        if character = CHR ''{'' then pattern @ '':''
        else if character \<noteq> CHR ''}'' then pattern @ [character]
        else pattern) acc s = acc @ concat (map pattern_of_char s)" for acc
    by (induction s arbitrary: acc) (simp_all add: pattern_of_char_def)
  then show ?thesis by (simp add: to_library_pattern_def)
qed

lemma pattern_of_plain:
  "set s \<inter> {CHR ''{'', CHR ''}''} = {} \<Longrightarrow> concat (map pattern_of_char s) = s"
  by (induction s) (auto simp: pattern_of_char_def)

text \<open>
  C38. The pattern given to the library is the path with every \<open>{name}\<close> segment written \<open>:name\<close> and
  every other segment unchanged, for any path whose names and segments hold no brace.
\<close>

theorem to_library_pattern_segments:
  assumes "list_all (\<lambda>s. set (segment_text s) \<inter> {CHR ''{'', CHR ''}''} = {}) segments"
  shows "to_library_pattern (concat (map port_segment segments)) = concat (map library_segment segments)"
  using assms
proof (induction segments)
  case Nil
  then show ?case by (simp add: to_library_pattern_concat)
next
  case (Cons s segments)
  have "concat (map pattern_of_char (port_segment s)) = library_segment s"
    using Cons.prems pattern_of_plain [of "segment_text s"]
    by (cases s) (simp_all add: pattern_of_char_def)
  with Cons show ?case by (simp add: to_library_pattern_concat)
qed

theorem to_library_pattern_segments_witness:
  "to_library_pattern ''/indexes/{uid}/documents'' = ''/indexes/:uid/documents''"
  using to_library_pattern_segments [of "[Plain ''indexes'', Parameter ''uid'', Plain ''documents'']"]
  by simp

text \<open>Reading a memory stream with buffers of the given sizes.\<close>

fun read_all :: "nat list \<Rightarrow> memory_stream \<Rightarrow> string list \<times> memory_stream" where
  "read_all [] stream = ([], stream)"
| "read_all (n # ns) stream =
     (case stream_read n stream of (part, s1) \<Rightarrow> map_prod ((#) part) id (read_all ns s1))"

fun write_all :: "string list \<Rightarrow> memory_stream \<Rightarrow> memory_stream" where
  "write_all [] stream = stream"
| "write_all (d # ds) stream = write_all ds (snd (stream_write d stream))"

lemma read_all_from:
  assumes "read_position stream \<le> length (stream_input stream)"
  shows "concat (fst (read_all ns stream))
      = take (sum_list ns) (drop (read_position stream) (stream_input stream))
    \<and> stream_output (snd (read_all ns stream)) = stream_output stream"
  using assms
proof (induction ns arbitrary: stream)
  case Nil
  then show ?case by simp
next
  case (Cons n ns)
  define s1 where "s1 = snd (stream_read n stream)"
  have s1: "read_position s1 = read_position stream + min n (length (stream_input stream) - read_position stream)"
    "stream_input s1 = stream_input stream" "stream_output s1 = stream_output stream"
    "fst (stream_read n stream) = take n (drop (read_position stream) (stream_input stream))"
    by (simp_all add: s1_def stream_read_def substr_def min.commute)
  then have "read_position s1 \<le> length (stream_input s1)" using Cons.prems by simp
  from Cons.IH [OF this] s1 Cons.prems show ?case
    by (auto simp: case_prod_beta s1_def [symmetric] min_def take_add add.commute)
qed

lemma write_all_output:
  "stream_output (write_all ds stream) = stream_output stream @ concat ds"
  by (induction ds arbitrary: stream) (simp_all add: stream_write_def)

text \<open>
  The stream \<open>serve_raw\<close> hands the library gives the request bytes in order, in pieces no longer
  than asked for, whatever sizes are asked for, then nothing; what is written to it is the output,
  in order.
\<close>

theorem memory_stream_faithful:
  "concat (fst (read_all ns (new_memory_stream bytes))) = take (sum_list ns) bytes
   \<and> take_output (write_all ds (snd (read_all ns (new_memory_stream bytes)))) = concat ds"
  using read_all_from [of "new_memory_stream bytes" ns]
  by (simp add: new_memory_stream_def take_output_def write_all_output)

text \<open>
  Binding asks the library for the port named, or for any when it is 0; a port that is returned
  is the one bound, and a failure is an \<open>Internal\<close> error that names the host and the port.
\<close>

theorem bind_server_outcome:
  "bind_server net host port =
     (if (if port = 0 then bind_to_any_port net host < 0 else \<not> bind_to_port net host port)
      then failure Internal (''Cannot listen on '' @ host @ '':'' @ to_string (unat port) @ ''.'')
      else Inr (if port = 0 then word_of_int (bind_to_any_port net host) else port))
   \<and> (bind_to_any_port net host \<in> {0..<65536} \<longrightarrow>
        map_sum id uint (bind_server net host 0) = Inr (bind_to_any_port net host))"
  by (simp add: bind_server_def cannot_listen_message_def Let_def unsigned_of_int take_bit_int_eq_self)

theorem bind_server_outcome_witness:
  "map_sum id uint (bind_server sample_listener ''0.0.0.0'' 0) = Inr 49152"
  using bind_server_outcome [of sample_listener "''0.0.0.0''" 0] by (simp add: sample_listener_def)

end
