(* ===== verification/App.thy ===== *)
theory App
  imports Index_Routes Http_Contract
begin

text \<open>
  \<open>src/adapters/http/system_routes.cpp\<close>, \<open>src/adapters/config/build_info.cpp\<close> and \<open>src/main.cpp\<close>: the
  health route, the version line, and the program that puts the parts together. What the process
  writes is part of the result. \<open>run()\<close> blocks while requests are served; what a request does is
  \<open>Http_Server\<close>, so here it is only what \<open>run()\<close> comes to: its result, or the exception it throws.
\<close>

subsection \<open>GET /health\<close>

fun health_response :: "Readiness \<Rightarrow> HttpResponse" where
  "health_response Available = \<lparr>status = 200, body = ''{\"status\":\"available\"}''\<rparr>"
| "health_response Starting = \<lparr>status = 503, body = ''{\"status\":\"starting\"}''\<rparr>"

definition register_system_routes ::
  "('s, 'r route_state) http_server \<Rightarrow> 's \<Rightarrow> 's" where
  "register_system_routes http server =
     port_add_route http server Get ''/health'' (\<lambda>request s. (Inr (health_response (readiness (health s))), s))"

subsection \<open>The build info\<close>

record BuildInfo =
  version :: string
  commit :: string
  build_type :: string
  compiler :: string

definition version_line :: "BuildInfo \<Rightarrow> string" where
  "version_line info =
     ''leta '' @ version info @ '' ('' @ commit info @ '', '' @ build_type info @ '', '' @ compiler info @ '')''"

subsection \<open>The program\<close>

definition VersionFlag :: string where
  "VersionFlag = ''--version''"

definition ListenHost :: string where
  "ListenHost = ''0.0.0.0''"

definition ListenPort :: "16 word" where
  "ListenPort = 7700"

record process_output =
  standard_output :: string
  standard_error :: string

definition print_line :: "string \<Rightarrow> process_output \<Rightarrow> process_output" where
  "print_line text out = out\<lparr>standard_error := standard_error out @ ''leta: '' @ text @ [CHR 0x0A]\<rparr>"

definition print_listening :: "16 word \<Rightarrow> nat \<Rightarrow> process_output \<Rightarrow> process_output" where
  "print_listening port workers out =
     print_line (''listening on '' @ ListenHost @ '':'' @ to_string (unat port) @ '' (''
       @ to_string workers @ '' worker threads)'') out"

text \<open>The wall clock, a reading in nanoseconds of the system clock, floored to milliseconds.\<close>

definition system_clock_now :: "int \<Rightarrow> timestamp" where
  "system_clock_now nanoseconds = nanoseconds div 1000000"

text \<open>
  What a call of \<open>serve\<close> with a server leaves: how it is left, with a status or by an exception that
  goes on to \<open>main\<close>, what was printed by then, the server it built and the objects behind it.
\<close>

record ('q, 'p) serve_result =
  left_with :: "cpp_exception + int"
  printed :: process_output
  served_by :: "('q, 'p, in_memory_repository route_state) library_server"
  objects :: "in_memory_repository route_state"

definition new_objects :: "int stream \<Rightarrow> int stream \<Rightarrow> in_memory_repository route_state" where
  "new_objects system_clock steady =
     \<lparr>health = new_health_service,
      services = \<lparr>clock = smap system_clock_now system_clock, repository = empty_repository\<rparr>,
      steady_clock = steady\<rparr>"

definition register_all ::
  "('s, in_memory_repository route_state) http_server \<Rightarrow> 'h simdjson \<Rightarrow> 's \<Rightarrow> 's" where
  "register_all http json server0 =
     (let server1 = register_system_routes http server0;
          server2 = register_index_routes http in_memory_port json server1
      in register_document_routes http in_memory_port json server2)"

text \<open>\<open>Inl\<close> is an exception of the server's constructor: there is no server yet, and nothing was printed.\<close>

definition serve ::
  "('q, 'p) http_library \<Rightarrow> 'h simdjson \<Rightarrow> listener \<Rightarrow> int stream \<Rightarrow> int stream \<Rightarrow> process_output
     \<Rightarrow> cpp_exception + ('q, 'p) serve_result" where
  "serve lib json net system_clock steady out =
     (let options = default_options;
          world = new_objects system_clock steady
      in case make_server lib options of
           Inl thrown \<Rightarrow> Inl thrown
         | Inr server0 \<Rightarrow>
             (let http = httplib_server lib net;
                  server = register_all http json server0
              in case port_bind http server ListenHost ListenPort of
                   Inl e \<Rightarrow> Inr \<lparr>left_with = Inr 1, printed = print_line (message e) out,
                                served_by = server, objects = world\<rparr>
                 | Inr bound_port \<Rightarrow>
                     (let world1 = world\<lparr>health := mark_available (health world)\<rparr>;
                          out1 = print_listening bound_port (worker_threads options) out
                      in case port_run http server of
                           Inl thrown \<Rightarrow> Inr \<lparr>left_with = Inl thrown, printed = out1,
                                             served_by = server, objects = world1\<rparr>
                         | Inr (Inl e) \<Rightarrow> Inr \<lparr>left_with = Inr 1, printed = print_line (message e) out1,
                                              served_by = server, objects = world1\<rparr>
                         | Inr (Inr _) \<Rightarrow> Inr \<lparr>left_with = Inr 0, printed = out1,
                                              served_by = server, objects = world1\<rparr>)))"

text \<open>
  The \<open>try\<close> of \<open>main\<close> around \<open>serve\<close>: how the process ends and what it printed. An exception is
  reported after what was printed before it; one that is not derived from \<open>std::exception\<close> is not
  caught, and ends the process without an exit status: \<open>Inl\<close>.
\<close>

fun catch_std :: "cpp_exception + int \<Rightarrow> process_output \<Rightarrow> (cpp_exception + int) \<times> process_output" where
  "catch_std (Inr exit_status) out = (Inr exit_status, out)"
| "catch_std (Inl (StdException what)) out = (Inr 1, print_line what out)"
| "catch_std (Inl ForeignException) out = (Inl ForeignException, out)"

definition silent :: process_output where
  "silent = \<lparr>standard_output = [], standard_error = []\<rparr>"

text \<open>\<open>main\<close>: the arguments are the program's name and what follows it.\<close>

definition main_program ::
  "('q, 'p) http_library \<Rightarrow> 'h simdjson \<Rightarrow> listener \<Rightarrow> int stream \<Rightarrow> int stream \<Rightarrow> BuildInfo \<Rightarrow> string list
     \<Rightarrow> (cpp_exception + int) \<times> process_output" where
  "main_program lib json net system_clock steady info argv =
     (if length argv = 1 then
        (case serve lib json net system_clock steady silent of
           Inl thrown \<Rightarrow> catch_std (Inl thrown) silent
         | Inr result \<Rightarrow> catch_std (left_with result) (printed result))
      else if length argv = 2 \<and> argv ! 1 = VersionFlag then
        (Inr 0, silent\<lparr>standard_output := version_line info @ [CHR 0x0A]\<rparr>)
      else
        (Inr 2, silent\<lparr>standard_error := ''usage: leta [--version]'' @ [CHR 0x0A]\<rparr>))"

subsection \<open>The routes of the program\<close>

definition leta_routes :: "'h simdjson \<Rightarrow> in_memory_repository route_state route list" where
  "leta_routes json =
     [(Get, ''/health'', \<lambda>request s. (Inr (health_response (readiness (health s))), s)),
      (Post, ''/indexes'',
        \<lambda>request s. map_prod Inr id (create_index_response in_memory_port json (request_body request) s)),
      (Post, ''/indexes/{uid}/documents'',
        \<lambda>request s. map_prod Inr id
          (add_documents_response in_memory_port json (path_parameter request UidParameter) (request_body request) s))]"

lemma register_all_routes:
  "register_all (httplib_server lib net) json server = with_routes lib (leta_routes json) server"
  by (simp add: register_all_def register_system_routes_def register_index_routes_def
      register_document_routes_def leta_routes_def with_routes_def Let_def)

lemma register_all_fold:
  "register_all http json server = fold (\<lambda>(verb, path_text, h) s. port_add_route http s verb path_text h) (leta_routes json) server"
  by (simp add: register_all_def register_system_routes_def register_index_routes_def
      register_document_routes_def leta_routes_def Let_def)

lemma leta_routes_served:
  "list_all (\<lambda>(verb, path_text, h). serves_route lib (stop_server (register_all (httplib_server lib net) json server)) verb path_text h
     \<and> serves_route lib (register_all (httplib_server lib net) json server) verb path_text h) (leta_routes json)"
  using httplib.serves_all [of _ _ _ "leta_routes json" lib net server] httplib.serves_stopped [of lib _ _ _ _ net]
  by (fastforce simp: list_all_iff register_all_fold)

text \<open>An answer that is an error has the body of an error, but for the readiness probe's.\<close>

definition good_answer :: "HttpResponse \<Rightarrow> bool" where
  "good_answer a \<longleftrightarrow> status a < 400 \<or> a \<in> range error_response \<or> a = health_response Starting"

lemma good_create_index: "good_answer (fst (create_index_response port json text s))"
  by (auto simp: create_index_response_def good_answer_def case_prod_beta Let_def CreatedStatus_def split: sum.split)

lemma good_add_documents: "good_answer (fst (add_documents_response port json u text s))"
  by (auto simp: add_documents_response_def good_answer_def case_prod_beta Let_def OkStatus_def split: sum.split)

lemma good_health: "good_answer (health_response r)"
  by (cases r) (simp_all add: good_answer_def)

lemma leta_routes_good:
  "(m, t, h) \<in> set (leta_routes json) \<Longrightarrow> fst (h r v) = Inr a \<Longrightarrow> good_answer a"
  by (auto simp: leta_routes_def good_create_index good_add_documents good_health)

lemma leta_errors_have_bodies: "errors_have_bodies (leta_routes json)"
  unfolding errors_have_bodies_def
  using leta_routes_good [of _ _ _ json]
  by (fastforce simp: good_answer_def body_error_response_nonempty)

lemma health_create_index: "health (snd (create_index_response port json text s)) = health s"
  by (auto simp: create_index_response_def case_prod_beta Let_def split: sum.split)

lemma health_add_documents: "health (snd (add_documents_response port json u text s)) = health s"
  by (auto simp: add_documents_response_def case_prod_beta Let_def split: sum.split)

lemma make_server_default: "\<exists>server. make_server lib default_options = Inr server"
  by (simp add: make_server_def configure_worker_pool_def default_options_def)

lemma new_task_queue_default:
  fixes server0 :: "('q, 'p, in_memory_repository route_state) library_server"
  assumes "make_server lib default_options = Inr server0"
  shows "new_task_queue net (register_all (httplib_server lib net') json server0) = construct_thread_pool net 64 64"
  using assms
  by (auto simp: new_task_queue_def register_all_routes make_server_def
      configure_worker_pool_def default_options_def install_hooks_def configure_limits_def)

subsection \<open>Properties\<close>

text \<open>
  C12. The server of the program has exactly the three routes of the API, each with its handler behind
  its pattern, also while it stops; every response it sends carries an X-Request-Id that is safe to
  echo; and a response from 400 on decodes as an FR-71 error
  under its own status, or is the readiness probe's 503 while the server starts.
\<close>

theorem leta_every_response:
  assumes "message_laws lib" and "make_server lib options = Inr server0"
    and "pipeline lib process (register_all (httplib_server lib net) json server0) bytes"
  defines "server \<equiv> register_all (httplib_server lib net) json server0"
  shows "map fst (get_routes server) = [''/health'']
   \<and> map fst (post_routes server) = [''/indexes'', ''/indexes/:uid/documents'']
   \<and> list_all (\<lambda>(verb, path_text, h). serves_route lib (stop_server server) verb path_text h
        \<and> serves_route lib server verb path_text h) (leta_routes json)
   \<and> (case fst (process server bytes w) of p \<Rightarrow>
        p_has_header lib p RequestIdHeader \<and> is_acceptable_request_id (p_header lib p RequestIdHeader)
        \<and> (p_status lib p < 400
           \<or> (\<exists>e. p_status lib p = wire_status (wire_error (code e))
                \<and> read_object (p_body lib p) = Some (error_members e))
           \<or> p_status lib p = 503 \<and> p_body lib p = ''{\"status\":\"starting\"}''))"
proof -
  have "get_routes server0 = []" "post_routes server0 = []"
    using all_routes_make [OF assms(2)] by (simp_all add: all_routes_def)
  then have routes: "map fst (get_routes server) = [''/health'']"
    "map fst (post_routes server) = [''/indexes'', ''/indexes/:uid/documents'']"
    by (simp_all add: server_def register_all_routes with_routes_def leta_routes_def add_route_def Let_def
        to_library_pattern_def)
  have "pipeline lib process (with_routes lib (leta_routes json) server0) bytes"
    using assms(3) by (simp only: register_all_routes)
  note facts = every_response [OF assms(1,2) leta_errors_have_bodies this, of w]
  obtain answer where answer: "says lib (fst (process server bytes w)) answer" "good_answer answer"
  proof -
    from facts(2) obtain answer where said: "says lib (fst (process server bytes w)) answer"
      and "answer \<in> range error_response
        \<or> (\<exists>(m, t, h) \<in> set (leta_routes json). \<exists>r v. fst (h r v) = Inr answer)"
      unfolding server_def register_all_routes by (fastforce dest: handler_gives_answer)
    then have "good_answer answer"
      using leta_routes_good [of _ _ _ json] by (fastforce simp: good_answer_def)
    with said that show thesis by blast
  qed
  have "status answer < 400
      \<or> (\<exists>e. status answer = wire_status (wire_error (code e)) \<and> read_object (body answer) = Some (error_members e))
      \<or> status answer = 503 \<and> body answer = ''{\"status\":\"starting\"}''"
    using answer(2) unfolding good_answer_def
    by (elim disjE) (auto simp: status_error_response body_error_response wire)
  with answer(1) facts(1) routes leta_routes_served [of lib net json server0] show ?thesis
    unfolding has_request_id_def says_def server_def register_all_routes by simp
qed

theorem leta_every_response_witness:
  "\<exists>server0. make_server plain_library default_options = Inr server0
     \<and> map fst (post_routes (register_all (httplib_server plain_library sample_listener) text_reader server0))
       = [''/indexes'', ''/indexes/:uid/documents'']"
proof -
  obtain server0 :: "(plain_request, plain_response, in_memory_repository route_state) library_server"
    where server0: "make_server plain_library default_options = Inr server0"
    using make_server_default by blast
  from leta_every_response [OF plain_message_laws server0
      plain_pipeline [of "\<lambda>b. (b, sample_request)" "register_all (httplib_server plain_library sample_listener) text_reader server0"]] server0
  show ?thesis by blast
qed

text \<open>
  FR-60: GET /health answers 503 until the listening socket is open and 200 from then on: \<open>serve\<close>
  leaves the readiness \<open>Available\<close> exactly when binding succeeded, and no route changes it.
\<close>

theorem health_follows_binding:
  "(case serve lib json net system_clock steady out of
      Inl thrown \<Rightarrow> False
    | Inr result \<Rightarrow>
        status (health_response (readiness (health (objects result))))
          = (if bind_to_port net ''0.0.0.0'' 7700 then 200 else 503))
   \<and> list_all (\<lambda>(m, t, h). \<forall>request s. health (snd (h request s)) = health s) (leta_routes json)"
proof -
  obtain server0 where server0: "make_server lib default_options
      = Inr (server0 :: ('a, 'b, in_memory_repository route_state) library_server)"
    using make_server_default by blast
  have bound: "bind_server net ListenHost ListenPort =
      (if bind_to_port net ''0.0.0.0'' 7700 then Inr 7700
       else failure Internal (cannot_listen_message ListenHost ListenPort))"
    by (simp add: bind_server_def ListenHost_def ListenPort_def)
  show ?thesis
    by (simp add: serve_def server0 bound Let_def failure_def new_objects_def leta_routes_def
        health_create_index health_add_documents split: sum.split)
qed

text \<open>
  C37. The process's contract with its caller: with no argument it serves, with 64 workers, and exits 0
  only when serving ended normally; a port that cannot be bound, workers that cannot be started and
  a listener that fails, by its verdict or by an exception, exit 1 with the reason on the error stream, after the
  line that says where it listens once it does; an exception outside \<open>std::exception\<close> ends the
  process with that line alone; \<open>--version\<close> prints the version line and exits 0; anything else
  prints the usage and exits 2.
\<close>

theorem main_program_outcome:
  "main_program lib json net system_clock steady info argv =
     (if length argv = 1 then
        (if \<not> bind_to_port net ''0.0.0.0'' 7700 then
           (Inr 1, \<lparr>standard_output = [],
                    standard_error = ''leta: Cannot listen on 0.0.0.0:7700.'' @ [CHR 0x0A]\<rparr>)
         else
           (let listening = ''leta: listening on 0.0.0.0:7700 (64 worker threads)'' @ [CHR 0x0A] in
            case (case construct_thread_pool net 64 64 of Some thrown \<Rightarrow> Inl thrown | None \<Rightarrow> listen_after_bind net) of
              Inl (StdException what) \<Rightarrow>
                (Inr 1, \<lparr>standard_output = [],
                         standard_error = listening @ ''leta: '' @ what @ [CHR 0x0A]\<rparr>)
            | Inl ForeignException \<Rightarrow>
                (Inl ForeignException, \<lparr>standard_output = [], standard_error = listening\<rparr>)
            | Inr False \<Rightarrow>
                (Inr 1, \<lparr>standard_output = [],
                         standard_error = listening
                           @ ''leta: The HTTP listener failed while accepting connections.'' @ [CHR 0x0A]\<rparr>)
            | Inr True \<Rightarrow> (Inr 0, \<lparr>standard_output = [], standard_error = listening\<rparr>)))
      else if length argv = 2 \<and> argv ! 1 = ''--version'' then
        (Inr 0, \<lparr>standard_output = version_line info @ [CHR 0x0A], standard_error = []\<rparr>)
      else (Inr 2, \<lparr>standard_output = [], standard_error = ''usage: leta [--version]'' @ [CHR 0x0A]\<rparr>))"
proof -
  obtain server0 where server0: "make_server lib default_options
      = Inr (server0 :: ('a, 'b, in_memory_repository route_state) library_server)"
    using make_server_default by blast
  have "to_string 7700 = [digit_char 7, digit_char 7, digit_char 0, digit_char 0]"
    "to_string 64 = [digit_char 6, digit_char 4]"
    by (simp_all add: to_string_step to_string_small)
  moreover have "[digit_char 7, digit_char 7, digit_char 0, digit_char 0] = ''7700''"
    "[digit_char 6, digit_char 4] = ''64''"
    by code_simp+
  ultimately have numbers: "to_string 64 = ''64''" "to_string 7700 = ''7700''" by simp_all
  have bound: "bind_server net ListenHost ListenPort =
      (if bind_to_port net ''0.0.0.0'' 7700 then Inr 7700
       else Inl \<lparr>code = Internal, message = ''Cannot listen on 0.0.0.0:7700.''\<rparr>)"
    by (simp add: bind_server_def ListenHost_def ListenPort_def cannot_listen_message_def numbers failure_def)
  have workers: "worker_threads default_options = 64" by (simp add: default_options_def)
  have line: "print_listening 7700 64 out = print_line ''listening on 0.0.0.0:7700 (64 worker threads)'' out" for out
    by (simp add: print_listening_def ListenHost_def numbers)
  note defs = main_program_def serve_def server0 bound Let_def print_line_def VersionFlag_def silent_def
    run_server_def new_task_queue_default [OF server0] failure_def workers line
  show ?thesis
  proof (cases "bind_to_port net ''0.0.0.0'' 7700")
    case False
    then show ?thesis by (simp add: defs)
  next
    case True
    then show ?thesis
      by (simp add: defs split: option.split sum.split cpp_exception.split bool.split)
  qed
qed

definition sample_build :: BuildInfo where
  "sample_build = \<lparr>version = ''0.1.0'', commit = ''abc1234'', build_type = ''Release'', compiler = ''gcc''\<rparr>"

theorem main_program_outcome_witness:
  "main_program plain_library text_reader threadless_listener (sconst 0) (sconst 0)
     sample_build [''leta'']
   = (Inr 1, \<lparr>standard_output = [],
       standard_error = ''leta: listening on 0.0.0.0:7700 (64 worker threads)'' @ [CHR 0x0A]
         @ ''leta: Resource temporarily unavailable'' @ [CHR 0x0A]\<rparr>)"
  using main_program_outcome [of plain_library text_reader threadless_listener "sconst 0" "sconst 0"
      sample_build "[''leta'']"]
  by (simp add: threadless_listener_def sample_listener_def)

end
