(* ===== verification/Api_Spec.thy ===== *)
theory Api_Spec
  imports App
begin

text \<open>
  What the HTTP API promises, without the server: a step relation on the catalog, one event for each
  way a request can end, and the response each event gives. \<open>Session\<close> shows that the server of
  \<open>main.cpp\<close> is a run of it. The lemmas here are about the relation alone: what is stored is typed,
  nothing is lost, and documents are counted.
\<close>

subsection \<open>The relation\<close>

datatype api_event =
    Denied                                  \<comment> \<open>an error answer; nothing changed\<close>
  | Probed                                  \<comment> \<open>GET /health\<close>
  | Conflicted string                       \<comment> \<open>POST /indexes on a uid that is taken\<close>
  | Created index_metadata
  | Ingested index_metadata "document list" \<comment> \<open>the stored index and the batch\<close>

text \<open>Metadata as the services make it.\<close>

definition fresh_metadata :: "index_metadata \<Rightarrow> bool" where
  "fresh_metadata m \<longleftrightarrow> valid_uid (uid m) \<and> created_at m = updated_at m"

inductive api_step :: "catalog \<Rightarrow> api_event \<Rightarrow> catalog \<Rightarrow> bool" where
  deny: "api_step A Denied A"
| probe: "api_step A Probed A"
| conflict: "A k \<noteq> None \<Longrightarrow> api_step A (Conflicted k) A"
| create: "A (key_of m) = None \<Longrightarrow> fresh_metadata m \<Longrightarrow>
    api_step A (Created m) (A(key_of m \<mapsto> (m, [])))"
| ingest_new: "A (key_of m) = None \<Longrightarrow> fresh_metadata m \<Longrightarrow> primary_key m = None \<Longrightarrow>
    length ds \<in> {1..MaxBatchDocuments} \<Longrightarrow>
    api_step A (Ingested m ds) (A(key_of m \<mapsto> (m, ds)))"
| ingest_more: "A (key_of m) = Some (m, old) \<Longrightarrow> length ds \<in> {1..MaxBatchDocuments} \<Longrightarrow>
    api_step A (Ingested m ds) (A(key_of m \<mapsto> (m, old @ ds)))"

inductive_cases api_step_cases: "api_step A e A'"

inductive api_run :: "catalog \<Rightarrow> api_event list \<Rightarrow> catalog \<Rightarrow> bool" where
  finished: "api_run A [] A"
| more: "api_step A e A1 \<Longrightarrow> api_run A1 es A2 \<Longrightarrow> api_run A (e # es) A2"

text \<open>The response of an event, as bytes.\<close>

fun event_answer :: "api_event \<Rightarrow> HttpResponse \<Rightarrow> bool" where
  "event_answer Denied a \<longleftrightarrow> a \<in> range error_response"
| "event_answer Probed a \<longleftrightarrow> a \<in> range health_response"
| "event_answer (Conflicted k) a \<longleftrightarrow> (\<exists>e. a = error_response e \<and> code e = IndexAlreadyExists)"
| "event_answer (Created m) a \<longleftrightarrow> a = \<lparr>status = 201, body = index_json m\<rparr>"
| "event_answer (Ingested m ds) a \<longleftrightarrow>
     (\<exists>elapsed. a = \<lparr>status = 200, body = ingest_result_json (length ds)
        \<lparr>indexed = length ds, outcome_primary_key = primary_key m\<rparr> elapsed\<rparr>)"

subsection \<open>Nothing is lost\<close>

definition extends_entry :: "index_metadata \<times> document list \<Rightarrow> index_metadata \<times> document list \<Rightarrow> bool" where
  "extends_entry old new \<longleftrightarrow> fst new = fst old \<and> (\<exists>later. snd new = snd old @ later)"

lemma extends_entry_refl [simp]: "extends_entry x x"
  by (simp add: extends_entry_def)

lemma extends_entry_append [simp]: "extends_entry (m, ds) (m, ds @ later)"
  by (simp add: extends_entry_def)

lemma extends_entry_trans: "extends_entry x y \<Longrightarrow> extends_entry y z \<Longrightarrow> extends_entry x z"
  by (auto simp: extends_entry_def)

lemma api_step_extends:
  assumes "api_step A e A'" and "A k = Some entry"
  obtains entry' where "A' k = Some entry'" "extends_entry entry entry'"
  using assms by (cases "A' k"; cases rule: api_step.cases) (auto split: if_splits)

lemma api_run_extends:
  assumes "api_run A es A'" and "A k = Some entry"
  obtains entry' where "A' k = Some entry'" "extends_entry entry entry'"
  using assms
proof (induction arbitrary: entry thesis rule: api_run.induct)
  case (finished A)
  then show ?case by simp
next
  case (more A e A1 es A2)
  from more.hyps(1) more.prems(2) obtain mid where "A1 k = Some mid" "extends_entry entry mid"
    by (rule api_step_extends)
  with more.IH [of mid] more.prems(1) show ?case by (metis extends_entry_trans)
qed

subsection \<open>What is stored is typed\<close>

definition typed_catalog :: "catalog \<Rightarrow> bool" where
  "typed_catalog A \<longleftrightarrow> (\<forall>k m ds. A k = Some (m, ds) \<longrightarrow> k = key_of m \<and> fresh_metadata m)"

lemma typed_catalog_empty [simp]: "typed_catalog Map.empty"
  by (simp add: typed_catalog_def)

lemma api_step_typed: "api_step A e A' \<Longrightarrow> typed_catalog A \<Longrightarrow> typed_catalog A'"
  by (induction rule: api_step.induct) (auto simp: typed_catalog_def)

lemma api_run_typed: "api_run A es A' \<Longrightarrow> typed_catalog A \<Longrightarrow> typed_catalog A'"
  by (induction rule: api_run.induct) (auto intro: api_step_typed)

subsection \<open>Documents are counted\<close>

fun event_documents :: "api_event \<Rightarrow> nat" where
  "event_documents (Ingested m ds) = length ds"
| "event_documents _ = 0"

definition catalog_documents :: "catalog \<Rightarrow> nat" where
  "catalog_documents A = (\<Sum>k \<in> dom A. length (snd (the (A k))))"

lemma catalog_documents_empty [simp]: "catalog_documents Map.empty = 0"
  by (simp add: catalog_documents_def)

lemma catalog_documents_update:
  assumes "finite (dom A)"
  shows "catalog_documents (A(k \<mapsto> x)) + (case A k of None \<Rightarrow> 0 | Some old \<Rightarrow> length (snd old))
    = catalog_documents A + length (snd x)"
proof -
  let ?n = "\<lambda>k. length (snd (the (A k)))"
  have rest: "(\<Sum>j \<in> dom A - {k}. length (snd (the ((A(k \<mapsto> x)) j)))) = sum ?n (dom A - {k})"
    by (intro sum.cong) auto
  have new: "catalog_documents (A(k \<mapsto> x)) = length (snd x) + sum ?n (dom A - {k})"
    using assms rest by (simp add: catalog_documents_def sum.insert_remove)
  show ?thesis
  proof (cases "A k")
    case None
    then have "dom A - {k} = dom A" by auto
    with None new show ?thesis by (simp add: catalog_documents_def)
  next
    case (Some old)
    then have "catalog_documents A = length (snd old) + sum ?n (dom A - {k})"
      using sum.remove [OF assms, of k ?n] by (simp add: catalog_documents_def domI)
    with Some new show ?thesis by simp
  qed
qed

lemma finite_dom_update: "finite (dom A) \<Longrightarrow> finite (dom (A(k \<mapsto> x)))"
  by simp

lemma api_step_documents:
  "api_step A e A' \<Longrightarrow> finite (dom A) \<Longrightarrow>
   finite (dom A') \<and> catalog_documents A' = catalog_documents A + event_documents e"
proof (induction rule: api_step.induct)
  case (create A m)
  then show ?case
    using catalog_documents_update [of A "key_of m" "(m, [])"] finite_dom_update [of A "key_of m" "(m, [])"]
    by (simp add: fun_upd_def)
next
  case (ingest_new A m ds)
  then show ?case
    using catalog_documents_update [of A "key_of m" "(m, ds)"] finite_dom_update [of A "key_of m" "(m, ds)"]
    by (simp add: fun_upd_def)
next
  case (ingest_more A m old ds)
  then show ?case
    using catalog_documents_update [of A "key_of m" "(m, old @ ds)"] finite_dom_update [of A "key_of m" "(m, old @ ds)"]
    by (simp add: fun_upd_def)
qed auto

lemma api_run_documents:
  "api_run A es A' \<Longrightarrow> finite (dom A) \<Longrightarrow>
   finite (dom A') \<and> catalog_documents A' = catalog_documents A + sum_list (map event_documents es)"
  by (induction rule: api_run.induct) (auto dest: api_step_documents)

lemma api_step_bounded:
  "api_step A e A' \<Longrightarrow> catalog_bounded A n \<Longrightarrow> catalog_bounded A' (n + MaxBatchDocuments)"
  by (induction rule: api_step.induct) (force simp: catalog_bounded_def)+

subsection \<open>What a client reads of an acknowledgement\<close>

text \<open>The \<open>indexed\<close> member of a body, 0 where there is none.\<close>

definition acknowledged :: "string \<Rightarrow> nat" where
  "acknowledged text =
     (case read_object text of
        None \<Rightarrow> 0
      | Some members \<Rightarrow>
          (case map_of members ''indexed'' of Some (JInt n) \<Rightarrow> nat n | _ \<Rightarrow> 0))"

lemma read_health_response:
  "read_object (body (health_response r)) =
     Some [(''status'', JString (case r of Available \<Rightarrow> ''available'' | Starting \<Rightarrow> ''starting''))]"
  by (cases r) (simp; code_simp)+

lemma acknowledged_event: "event_answer e a \<Longrightarrow> acknowledged (body a) = event_documents e"
  by (cases e)
    (auto simp: acknowledged_def body_error_response wire error_members_def read_health_response
      index_json_render index_members_def ingest_result_json_render ingest_members_def)

end
