(* ===== verification/Session.thy ===== *)
theory Session
  imports Api_Spec
begin

text \<open>
  The server of \<open>main.cpp\<close> over a whole session: requests as bytes, one after the other, through the
  library's pipeline, the hooks, the three routes, the services and the repository. Every session is
  a run of \<open>Api_Spec\<close>, and its responses are those of the run. \<open>Workers\<close> says that requests
  that overlap are answered as requests in some order, so that one order after the other is enough.
\<close>

fun serve_all ::
  "(('q, 'p, 'w) library_server \<Rightarrow> string \<Rightarrow> 'w server_world \<Rightarrow> 'p \<times> 'w server_world)
     \<Rightarrow> ('q, 'p, 'w) library_server \<Rightarrow> string list \<Rightarrow> 'w server_world \<Rightarrow> 'p list \<times> 'w server_world" where
  "serve_all process server [] w = ([], w)"
| "serve_all process server (bytes # later) w =
     (case process server bytes w of (p, w1) \<Rightarrow> map_prod ((#) p) id (serve_all process server later w1))"

definition leta_server ::
  "('q, 'p) http_library \<Rightarrow> listener \<Rightarrow> 'h simdjson
     \<Rightarrow> ('q, 'p, in_memory_repository route_state) library_server
     \<Rightarrow> ('q, 'p, in_memory_repository route_state) library_server" where
  "leta_server lib net json fresh = register_all (httplib_server lib net) json fresh"

text \<open>What the server has stored.\<close>

definition stored_in :: "in_memory_repository route_state server_world \<Rightarrow> in_memory_repository" where
  "stored_in w = repository (services (application w))"

subsection \<open>One request\<close>

lemma room_for_batch_bounded: "catalog_bounded A n \<Longrightarrow> n + MaxBatchDocuments \<le> 2 ^ 32 \<Longrightarrow> room_for_batch A"
  by (fastforce simp: room_for_batch_def catalog_bounded_def ran_def)

lemma ingest_step:
  fixes now :: timestamp
  assumes "repository_holds r A" and "valid_uid u" and "length ds \<in> {1..MaxBatchDocuments}"
  defines "entry \<equiv> target_entry A u now"
  shows "api_step A (Ingested (fst entry) ds) (A(uid_value u \<mapsto> (fst entry, snd entry @ ds)))"
proof (cases "A (uid_value u)")
  case None
  have "api_step A (Ingested (new_index u None now) ds) (A(key_of (new_index u None now) \<mapsto> (new_index u None now, ds)))"
    using None assms(2,3) by (intro ingest_new) (simp_all add: fresh_metadata_def)
  with None show ?thesis by (simp add: entry_def target_entry_def)
next
  case (Some stored)
  obtain m old where stored: "stored = (m, old)" by (cases stored)
  have "key_of m = uid_value u"
    using repository_holds_at [OF assms(1), of "uid_value u"] Some stored
    by (auto elim: option.rel_cases)
  with Some stored ingest_more [of A m old ds] assms(3) show ?thesis
    by (simp add: entry_def target_entry_def)
qed

lemma create_route_step:
  fixes json :: "'h simdjson" and payload :: string
  assumes "repository_holds (repository (services s)) A"
  defines "answer \<equiv> create_index_response in_memory_port json payload s"
  shows "\<exists>e A'. event_answer e (fst answer) \<and> api_step A e A'
    \<and> repository_holds (repository (services (snd answer))) A'"
proof (cases "parse_create_index_request json payload")
  case (Inl e)
  then have "fst answer = error_response e" "snd answer = s"
    by (simp_all add: answer_def create_index_response_def)
  with assms(1) deny [of A] show ?thesis by (intro exI [of _ Denied] exI [of _ A]) simp
next
  case (Inr command)
  then have valid: "valid_uid (command_uid command)"
    by (auto simp: parse_create_index_request_iff to_command_iff parse_uid_returns)
  let ?index = "created_index command (shd (clock (services s)))"
  show ?thesis
  proof (cases "A (uid_value (command_uid command))")
    case None
    have "api_step A (Created ?index) (A(key_of ?index \<mapsto> (?index, [])))"
      using None valid by (intro create) (simp_all add: fresh_metadata_def created_index_def)
    with create_index_response_creates [OF assms(1) Inr None] show ?thesis
      unfolding answer_def by (intro exI [of _ "Created ?index"] exI) auto
  next
    case (Some entry)
    then have taken: "A (uid_value (command_uid command)) \<noteq> None" by simp
    from create_index_response_conflicts [OF assms(1) Inr this] assms(1)
      conflict [of A "uid_value (command_uid command)"] taken
    show ?thesis
      unfolding answer_def
      by (intro exI [of _ "Conflicted (uid_value (command_uid command))"] exI [of _ A]) auto
  qed
qed

lemma ingest_route_step:
  fixes json :: "'h simdjson" and uid_text payload :: string
  assumes "repository_holds (repository (services s)) A" and "room_for_batch A"
  defines "answer \<equiv> add_documents_response in_memory_port json uid_text payload s"
  shows "\<exists>e A'. event_answer e (fst answer) \<and> api_step A e A'
    \<and> repository_holds (repository (services (snd answer))) A'"
proof (cases "\<exists>u ds. parse_uid uid_text = Inr u \<and> parse_document_batch json payload = Inr ds")
  case True
  then obtain u ds where parsed: "parse_uid uid_text = Inr u" "parse_document_batch json payload = Inr ds"
    by blast
  let ?entry = "target_entry A u (shd (clock (services s)))"
  have "valid_uid u" and "length ds \<in> {1..MaxBatchDocuments}"
    using parsed by (simp add: parse_uid_returns, auto simp: parse_document_batch_iff)
  from ingest_step [OF assms(1) this] add_documents_response_accepts [OF assms(1,2) parsed]
  show ?thesis
    unfolding answer_def
    by (intro exI [of _ "Ingested (fst ?entry) ds"] exI) (auto simp: ingest_result_json_render)
next
  case False
  then have "\<exists>e. fst answer = error_response e \<and> services (snd answer) = services s"
    by (auto simp: answer_def add_documents_response_def Let_def split: sum.splits)
  with assms(1) deny [of A] show ?thesis by (intro exI [of _ Denied] exI [of _ A]) auto
qed

lemma leta_route_step:
  assumes "(m, t, h) \<in> set (leta_routes json)" and "handler_gives h v answer v'"
    and "repository_holds (repository (services v)) A" and "room_for_batch A"
  shows "\<exists>e A'. event_answer e answer \<and> api_step A e A' \<and> repository_holds (repository (services v')) A'"
proof -
  from assms(2) obtain r outcome where h: "h r v = (outcome, v')"
    and answer: "answer = (case outcome of Inl thrown \<Rightarrow> internal_error_response | Inr a \<Rightarrow> a)"
    unfolding handler_gives_def by blast
  from assms(1) consider
      "h = (\<lambda>request s. (Inr (health_response (readiness (health s))), s))"
    | "h = (\<lambda>request s. map_prod Inr id (create_index_response in_memory_port json (request_body request) s))"
    | "h = (\<lambda>request s. map_prod Inr id (add_documents_response in_memory_port json
        (path_parameter request UidParameter) (request_body request) s))"
    by (auto simp: leta_routes_def)
  then show ?thesis
  proof cases
    case 1
    with h answer assms(3) probe [of A] show ?thesis by (intro exI [of _ Probed] exI [of _ A]) auto
  next
    case 2
    with h have "outcome = Inr (fst (create_index_response in_memory_port json (request_body r) v))"
      "v' = snd (create_index_response in_memory_port json (request_body r) v)"
      by (auto simp: prod_eq_iff)
    with answer create_route_step [OF assms(3), of json "request_body r"] show ?thesis by simp
  next
    case 3
    let ?call = "add_documents_response in_memory_port json (path_parameter r UidParameter) (request_body r) v"
    from 3 h have "outcome = Inr (fst ?call)" "v' = snd ?call" by (auto simp: prod_eq_iff)
    with answer ingest_route_step [OF assms(3,4), of json "path_parameter r UidParameter" "request_body r"]
    show ?thesis by simp
  qed
qed

lemma leta_request_step:
  fixes lib :: "('q, 'p) http_library" and bytes :: string
  assumes "message_laws lib" and "make_server lib options = Inr fresh"
    and "pipeline lib process (leta_server lib net json fresh) bytes"
    and "repository_holds (stored_in w) A" and "room_for_batch A"
  defines "sent \<equiv> process (leta_server lib net json fresh) bytes w"
  shows "\<exists>answer e A'. says lib (fst sent) answer \<and> event_answer e answer \<and> api_step A e A'
    \<and> repository_holds (stored_in (snd sent)) A'"
proof -
  have server: "leta_server lib net json fresh = with_routes lib (leta_routes json) fresh"
    by (simp only: leta_server_def register_all_routes)
  from every_response(2) [OF assms(1,2) leta_errors_have_bodies assms(3) [unfolded server], of w]
  obtain answer where said: "says lib (fst sent) answer"
    and effect: "answer \<in> range error_response \<and> application (snd sent) = application w
      \<or> (\<exists>(m, t, h) \<in> set (leta_routes json). handler_gives h (application w) answer (application (snd sent)))"
    unfolding sent_def server by blast
  from effect have "\<exists>e A'. event_answer e answer \<and> api_step A e A' \<and> repository_holds (stored_in (snd sent)) A'"
  proof (elim disjE)
    assume "answer \<in> range error_response \<and> application (snd sent) = application w"
    with assms(4) deny [of A] show ?thesis
      by (intro exI [of _ Denied] exI [of _ A]) (simp add: stored_in_def)
  next
    assume "\<exists>(m, t, h) \<in> set (leta_routes json). handler_gives h (application w) answer (application (snd sent))"
    with leta_route_step assms(4,5) show ?thesis unfolding stored_in_def by fast
  qed
  with said show ?thesis by blast
qed

subsection \<open>A session\<close>

definition answers_event :: "('q, 'p) http_library \<Rightarrow> api_event \<Rightarrow> 'p \<Rightarrow> bool" where
  "answers_event lib e p \<longleftrightarrow> (\<exists>answer. says lib p answer \<and> event_answer e answer)"

lemma serve_all_run:
  fixes lib :: "('q, 'p) http_library"
  assumes "message_laws lib" and "make_server lib options = Inr fresh"
    and "list_all (pipeline lib process (leta_server lib net json fresh)) requests"
    and "repository_holds (stored_in w) A" and "catalog_bounded A n"
    and "n + length requests * MaxBatchDocuments \<le> 2 ^ 32"
  shows "\<exists>events A'. api_run A events A'
    \<and> list_all2 (answers_event lib) events (fst (serve_all process (leta_server lib net json fresh) requests w))
    \<and> repository_holds (stored_in (snd (serve_all process (leta_server lib net json fresh) requests w))) A'"
  using assms(3-6)
proof (induction requests arbitrary: w A n)
  case Nil
  then show ?case using finished [of A] by (intro exI [of _ "[]"] exI [of _ A]) simp
next
  case (Cons bytes later)
  obtain p w1 where sent: "process (leta_server lib net json fresh) bytes w = (p, w1)" by fastforce
  have "room_for_batch A" by (rule room_for_batch_bounded [OF Cons.prems(3)]) (use Cons.prems(4) in simp)
  moreover have now: "pipeline lib process (leta_server lib net json fresh) bytes"
    and rest: "list_all (pipeline lib process (leta_server lib net json fresh)) later"
    using Cons.prems(1) by simp_all
  ultimately obtain answer e A1 where step: "says lib p answer" "event_answer e answer" "api_step A e A1"
    "repository_holds (stored_in w1) A1"
    using leta_request_step [OF assms(1,2) now Cons.prems(2)] sent by auto  have "n + MaxBatchDocuments + length later * MaxBatchDocuments \<le> 2 ^ 32" using Cons.prems(4) by simp
  from Cons.IH [OF rest step(4) api_step_bounded [OF step(3) Cons.prems(3)] this]
  obtain events A' where run: "api_run A1 events A'"
    "list_all2 (answers_event lib) events (fst (serve_all process (leta_server lib net json fresh) later w1))"
    "repository_holds (stored_in (snd (serve_all process (leta_server lib net json fresh) later w1))) A'"
    by blast
  have "answers_event lib e p" using step(1,2) unfolding answers_event_def by blast
  with run more [OF step(3) run(1)] sent show ?case
    by (intro exI [of _ "e # events"] exI [of _ A']) (simp add: case_prod_beta)
qed

text \<open>From the empty repository \<open>serve\<close> starts with.\<close>

lemma serve_all_from_empty:
  fixes lib :: "('q, 'p) http_library"
  assumes "message_laws lib" and "make_server lib options = Inr fresh"
    and "list_all (pipeline lib process (leta_server lib net json fresh)) requests"
    and "stored_in w = empty_repository" and "length requests * MaxBatchDocuments \<le> 2 ^ 32"
  defines "session \<equiv> serve_all process (leta_server lib net json fresh) requests w"
  obtains events A where "api_run Map.empty events A"
    "list_all2 (answers_event lib) events (fst session)" "repository_holds (stored_in (snd session)) A"
proof -
  have "repository_holds (stored_in w) Map.empty" by (simp add: assms(4) memory.holds_new)
  moreover have "catalog_bounded Map.empty 0" by (simp add: catalog_bounded_def)
  ultimately show thesis
    using serve_all_run [OF assms(1-3), of w Map.empty 0] assms(5) that
    unfolding session_def by auto
qed

text \<open>What \<open>serve\<close> runs: the server with the three routes, on objects that hold nothing yet.\<close>

lemma serve_result_server:
  assumes "serve lib json net system_clock steady out = Inr result"
  shows "\<exists>fresh. make_server lib default_options = Inr fresh
    \<and> served_by result = leta_server lib net json fresh
    \<and> repository (services (objects result)) = empty_repository"
  using assms
  by (auto simp: serve_def Let_def leta_server_def new_objects_def split: sum.splits)

text \<open>
  The default options have workers, so that the constructor of the server does not throw. How \<open>serve\<close> is
  left then, by an exception of \<open>run()\<close> among others, is \<open>left_with\<close> of its result.
\<close>

lemma serve_returns: "\<exists>result. serve lib json net system_clock steady out = Inr result"
proof -
  obtain fresh where fresh: "make_server lib default_options
      = Inr (fresh :: ('a, 'b, in_memory_repository route_state) library_server)"
    using make_server_default by blast
  show ?thesis by (auto simp: serve_def fresh Let_def split: sum.splits)
qed

subsection \<open>Counting\<close>

definition documents_stored :: "in_memory_repository \<Rightarrow> nat" where
  "documents_stored r = (\<Sum>k \<in> dom (indexes r). document_count (documents (the (indexes r k))))"

lemma documents_stored_holds:
  assumes "repository_holds r A"
  shows "documents_stored r = catalog_documents A"
proof -
  have "dom (indexes r) = dom A"
    by (intro set_eqI) (simp only: domIff repository_holds_None [OF assms])
  moreover have "document_count (documents (the (indexes r k))) = length (snd (the (A k)))"
    if some: "k \<in> dom A" for k
  proof -
    obtain stored where stored: "indexes r k = Some stored"
      using some repository_holds_None [OF assms, of k] by auto
    then obtain ds where "A k = Some (metadata stored, ds)" "index_holds (documents stored) ds"
      by (rule repository_holds_Some [OF assms])
    with stored show ?thesis by (simp add: exact.count_holds)
  qed
  ultimately show ?thesis unfolding documents_stored_def catalog_documents_def by (intro sum.cong) auto
qed

lemma acknowledged_answers:
  "list_all2 (answers_event lib) es ps \<Longrightarrow>
   sum_list (map (\<lambda>p. acknowledged (p_body lib p)) ps) = sum_list (map event_documents es)"
  by (induction rule: list_all2_induct)
    (auto simp: answers_event_def says_def dest: acknowledged_event)

subsection \<open>Words\<close>

lemma stored_word_found:
  assumes "repository_holds r A" and "A k = Some (m, docs)" and "d \<in> set docs"
    and "word \<in> set (document_words d)"
  shows "\<exists>stored i. indexes r k = Some stored \<and> i \<in> set (documents_containing (documents stored) word)
    \<and> source_of (documents stored) i = Inr (doc_source d)"
proof -
  from repository_holds_None [OF assms(1), of k] assms(2) obtain stored where stored: "indexes r k = Some stored"
    by auto
  then obtain ds where "A k = Some (metadata stored, ds)" "index_holds (documents stored) ds"
    by (rule repository_holds_Some [OF assms(1)])
  with assms(2) have holds: "index_holds (documents stored) docs" by simp
  from assms(3) obtain n where n: "n < length docs" "docs ! n = d" by (auto simp: in_set_conv_nth)
  then have "doc_id_of_position n \<in> set (documents_containing (documents stored) word)"
    using assms(4) by (auto simp: exact.containing_holds [OF holds] ids_containing_def)
  moreover have "source_of (documents stored) (doc_id_of_position n) = Inr (doc_source d)"
    using exact.source_holds [OF holds n(1)] n(2) by simp
  ultimately show ?thesis using stored by blast
qed

subsection \<open>A request that reaches a route\<close>

text \<open>
  The library hands the request \<open>q\<close> that the bytes stand for to the route under \<open>pattern\<close>, with a
  fresh response: what the port promises of a path that matches, with the parameters filled in.
\<close>

definition routed ::
  "('q, 'p) http_library \<Rightarrow> (('q, 'p, 'w) library_server \<Rightarrow> string \<Rightarrow> 'w server_world \<Rightarrow> 'p \<times> 'w server_world)
     \<Rightarrow> ('q, 'p, 'w) library_server \<Rightarrow> (string \<times> ('q, 'p, 'w) library_handler) list
     \<Rightarrow> string \<Rightarrow> string \<Rightarrow> 'q \<Rightarrow> bool" where
  "routed lib process server routes bytes pattern q \<longleftrightarrow>
     (\<forall>w. \<exists>p0 route. \<not> p_has_header lib p0 RequestIdHeader \<and> (pattern, route) \<in> set routes
        \<and> process server bytes w =
            (case run_route server route q p0 w of (p, w1) \<Rightarrow> after_routing lib server q p w1))"

definition reaches ::
  "('q, 'p) http_library \<Rightarrow> (('q, 'p, 'w) library_server \<Rightarrow> string \<Rightarrow> 'w server_world \<Rightarrow> 'p \<times> 'w server_world)
     \<Rightarrow> ('q, 'p, 'w) library_server \<Rightarrow> string \<Rightarrow> string \<Rightarrow> 'q \<Rightarrow> bool" where
  "reaches lib process server = routed lib process server (post_routes server)"

definition reaches_get ::
  "('q, 'p) http_library \<Rightarrow> (('q, 'p, 'w) library_server \<Rightarrow> string \<Rightarrow> 'w server_world \<Rightarrow> 'p \<times> 'w server_world)
     \<Rightarrow> ('q, 'p, 'w) library_server \<Rightarrow> string \<Rightarrow> string \<Rightarrow> 'q \<Rightarrow> bool" where
  "reaches_get lib process server = routed lib process server (get_routes server)"

lemma routedE:
  assumes "routed lib process server routes bytes pattern q"
  obtains p0 route where "\<not> p_has_header lib p0 RequestIdHeader" and "(pattern, route) \<in> set routes"
    and "process server bytes w = (case run_route server route q p0 w of (p, w1) \<Rightarrow> after_routing lib server q p w1)"
  using assms unfolding routed_def by blast

lemma json_post_accepted:
  "is_json_content_type (q_header lib q ''Content-Type'') \<Longrightarrow> \<not> refused_by_type lib Post q"
  by (simp add: refused_by_type_def ContentTypeHeader_def)

lemma leta_post_routes:
  assumes "make_server lib options = Inr fresh"
    and "(pattern, route) \<in> set (post_routes (leta_server lib net json fresh))"
  shows "pattern = ''/indexes'' \<Longrightarrow> route = adapt lib Post
      (\<lambda>request s. map_prod Inr id (create_index_response in_memory_port json (request_body request) s))"
    and "pattern = ''/indexes/:uid/documents'' \<Longrightarrow> route = adapt lib Post
      (\<lambda>request s. map_prod Inr id (add_documents_response in_memory_port json
        (path_parameter request UidParameter) (request_body request) s))"
proof -
  have "post_routes fresh = []"
    using all_routes_make [OF assms(1)] by (simp add: all_routes_def)
  moreover have "to_library_pattern ''/indexes'' = ''/indexes''"
    "to_library_pattern ''/indexes/{uid}/documents'' = ''/indexes/:uid/documents''"
    by code_simp+
  ultimately show "pattern = ''/indexes'' \<Longrightarrow> route = adapt lib Post
      (\<lambda>request s. map_prod Inr id (create_index_response in_memory_port json (request_body request) s))"
    and "pattern = ''/indexes/:uid/documents'' \<Longrightarrow> route = adapt lib Post
      (\<lambda>request s. map_prod Inr id (add_documents_response in_memory_port json
        (path_parameter request UidParameter) (request_body request) s))"
    using assms(2)
    by (auto simp: leta_server_def register_all_routes with_routes_def leta_routes_def add_route_def Let_def)
qed

lemma reached_route:
  fixes handler :: "in_memory_repository route_state handler" and w :: "in_memory_repository route_state server_world"
  assumes "message_laws lib" and "our_server lib server" and "\<not> refused_by_type lib verb q"
    and "\<not> p_has_header lib p0 RequestIdHeader"
    and "\<And>id_text. handler (neutral_request lib verb q id_text) (application w) = (Inr (fst answered), snd answered)"
    and "good_answer (fst answered)"
  defines "handled \<equiv> run_route server (adapt lib verb handler) q p0 w"
  defines "sent \<equiv> after_routing lib server q (fst handled) (snd handled)"
  shows "says lib (fst sent) (fst answered)" and "application (snd sent) = snd answered"
proof -
  obtain id_text source where id: "resolve_request_id lib q (ids w) = (id_text, source)" by fastforce
  have handled: "says lib (fst handled) (fst answered)" "application (snd handled) = snd answered"
    by (simp_all add: handled_def run_route_def adapt_runs [OF assms(3)] id assms(5) says_write [OF assms(1)])
  have tagged: "has_request_id lib (fst handled)" unfolding handled_def by (rule run_route_facts(1) [OF assms(1,2,4)])
  then have tagged': "p_has_header lib (fst handled) RequestIdHeader \<longrightarrow> has_request_id lib (fst handled)" ..
  have "p_status lib (fst handled) < 400 \<or> p_body lib (fst handled) \<noteq> []"
    using assms(6) handled(1) by (auto simp: good_answer_def says_def body_error_response_nonempty)
  from after_routing_facts(2) [OF assms(1,2) tagged' this handled(1)] show "says lib (fst sent) (fst answered)"
    by (simp add: sent_def)
  from after_routing_facts(4) [OF assms(1,2) tagged'] handled(2) show "application (snd sent) = snd answered"
    by (simp add: sent_def)
qed

lemma our_leta_server: "make_server lib options = Inr fresh \<Longrightarrow> our_server lib (leta_server lib net json fresh)"
  by (simp add: our_server_make leta_server_def register_all_routes)

lemma reached_documents:
  fixes lib :: "('q, 'p) http_library" and w :: "in_memory_repository route_state server_world"
  assumes "message_laws lib" and "make_server lib options = Inr fresh"
    and "reaches lib process (leta_server lib net json fresh) bytes ''/indexes/:uid/documents'' q"
    and "\<not> refused_by_type lib Post q" and "q_path_params lib q = [(''uid'', uid_text)]"
  defines "sent \<equiv> process (leta_server lib net json fresh) bytes w"
    and "answered \<equiv> add_documents_response in_memory_port json uid_text (q_body lib q) (application w)"
  shows "says lib (fst sent) (fst answered)" and "application (snd sent) = snd answered"
proof -
  let ?server = "leta_server lib net json fresh"
  let ?h = "\<lambda>request s. map_prod Inr id (add_documents_response in_memory_port json
    (path_parameter request UidParameter) (request_body request) s)"
  obtain p0 route where p0: "\<not> p_has_header lib p0 RequestIdHeader"
    "(''/indexes/:uid/documents'', route) \<in> set (post_routes ?server)"
    "process ?server bytes w = (case run_route ?server route q p0 w of (p, w1) \<Rightarrow> after_routing lib ?server q p w1)"
    by (rule routedE [OF assms(3) [unfolded reaches_def]])
  have "path_parameter (neutral_request lib Post q id_text) UidParameter = uid_text" for id_text
    by (simp add: neutral_request_def path_parameter_def path_parameters_of_def UidParameter_def assms(5))
  moreover have "request_body (neutral_request lib Post q id_text) = q_body lib q" for id_text
    by (simp add: neutral_request_def)
  ultimately have h: "?h (neutral_request lib Post q id_text) (application w) = (Inr (fst answered), snd answered)"
    for id_text
    by (simp add: answered_def map_prod_def case_prod_beta)
  have "good_answer (fst answered)" unfolding answered_def by (rule good_add_documents)
  note reached = reached_route [where handler = ?h and w = w and answered = answered,
      OF assms(1) our_leta_server [OF assms(2)] assms(4) p0(1) h this]
  have sent: "sent = (case run_route ?server (adapt lib Post ?h) q p0 w of (p, w1) \<Rightarrow> after_routing lib ?server q p w1)"
    unfolding sent_def p0(3) leta_post_routes(2) [OF assms(2) p0(2) refl] ..
  show "says lib (fst sent) (fst answered)" and "application (snd sent) = snd answered"
    unfolding sent case_prod_beta by (rule reached)+
qed

lemma reached_indexes:
  fixes lib :: "('q, 'p) http_library" and w :: "in_memory_repository route_state server_world"
  assumes "message_laws lib" and "make_server lib options = Inr fresh"
    and "reaches lib process (leta_server lib net json fresh) bytes ''/indexes'' q"
    and "\<not> refused_by_type lib Post q"
  defines "sent \<equiv> process (leta_server lib net json fresh) bytes w"
    and "answered \<equiv> create_index_response in_memory_port json (q_body lib q) (application w)"
  shows "says lib (fst sent) (fst answered)" and "application (snd sent) = snd answered"
proof -
  let ?server = "leta_server lib net json fresh"
  let ?h = "\<lambda>request s. map_prod Inr id (create_index_response in_memory_port json (request_body request) s)"
  obtain p0 route where p0: "\<not> p_has_header lib p0 RequestIdHeader" "(''/indexes'', route) \<in> set (post_routes ?server)"
    "process ?server bytes w = (case run_route ?server route q p0 w of (p, w1) \<Rightarrow> after_routing lib ?server q p w1)"
    by (rule routedE [OF assms(3) [unfolded reaches_def]])
  have h: "?h (neutral_request lib Post q id_text) (application w) = (Inr (fst answered), snd answered)" for id_text
    by (simp add: answered_def neutral_request_def map_prod_def case_prod_beta)
  have "good_answer (fst answered)" unfolding answered_def by (rule good_create_index)
  note reached = reached_route [where handler = ?h and w = w and answered = answered,
      OF assms(1) our_leta_server [OF assms(2)] assms(4) p0(1) h this]
  have sent: "sent = (case run_route ?server (adapt lib Post ?h) q p0 w of (p, w1) \<Rightarrow> after_routing lib ?server q p w1)"
    unfolding sent_def p0(3) leta_post_routes(1) [OF assms(2) p0(2) refl] ..
  show "says lib (fst sent) (fst answered)" and "application (snd sent) = snd answered"
    unfolding sent case_prod_beta by (rule reached)+
qed

text \<open>GET /health, and a POST to either route whose Content-Type is not JSON.\<close>

lemma leta_get_routes:
  assumes "make_server lib options = Inr fresh"
    and "(pattern, route) \<in> set (get_routes (leta_server lib net json fresh))"
  shows "route = adapt lib Get (\<lambda>request s. (Inr (health_response (readiness (health s))), s))"
  using assms(2) all_routes_make [OF assms(1)]
  by (simp add: leta_server_def register_all_routes with_routes_def leta_routes_def add_route_def Let_def all_routes_def)

lemma leta_post_route_adapts:
  assumes "make_server lib options = Inr fresh"
    and "(pattern, route) \<in> set (post_routes (leta_server lib net json fresh))"
  obtains h where "route = adapt lib Post h"
  using assms(2) all_routes_make [OF assms(1)]
  by (auto simp: leta_server_def register_all_routes with_routes_def leta_routes_def add_route_def Let_def all_routes_def)

lemma reached_health:
  fixes lib :: "('q, 'p) http_library" and w :: "in_memory_repository route_state server_world"
  assumes "message_laws lib" and "make_server lib options = Inr fresh"
    and "reaches_get lib process (leta_server lib net json fresh) bytes pattern q"
  defines "sent \<equiv> process (leta_server lib net json fresh) bytes w"
  shows "says lib (fst sent) (health_response (readiness (health (application w))))"
    and "application (snd sent) = application w"
proof -
  let ?server = "leta_server lib net json fresh"
  let ?h = "\<lambda>request s. (Inr (health_response (readiness (health s))), s)"
  let ?answered = "(health_response (readiness (health (application w))), application w)"
  obtain p0 route where p0: "\<not> p_has_header lib p0 RequestIdHeader" "(pattern, route) \<in> set (get_routes ?server)"
    "process ?server bytes w = (case run_route ?server route q p0 w of (p, w1) \<Rightarrow> after_routing lib ?server q p w1)"
    by (rule routedE [OF assms(3) [unfolded reaches_get_def]])
  have accepted: "\<not> refused_by_type lib Get q" by (simp add: refused_by_type_def)
  have h: "?h (neutral_request lib Get q id_text) (application w) = (Inr (fst ?answered), snd ?answered)" for id_text
    by simp
  have good: "good_answer (fst ?answered)" by (simp add: good_health)
  note reached = reached_route [where handler = ?h and w = w and answered = ?answered,
      OF assms(1) our_leta_server [OF assms(2)] accepted p0(1) h good]
  have sent: "sent = (case run_route ?server (adapt lib Get ?h) q p0 w of (p, w1) \<Rightarrow> after_routing lib ?server q p w1)"
    unfolding sent_def p0(3) leta_get_routes [OF assms(2) p0(2)] ..
  show "says lib (fst sent) (health_response (readiness (health (application w))))"
    and "application (snd sent) = application w"
    unfolding sent case_prod_beta using reached by simp_all
qed

lemma reached_refused:
  fixes lib :: "('q, 'p) http_library" and w :: "in_memory_repository route_state server_world"
  assumes "message_laws lib" and "make_server lib options = Inr fresh"
    and "reaches lib process (leta_server lib net json fresh) bytes pattern q"
    and "refused_by_type lib Post q"
  defines "sent \<equiv> process (leta_server lib net json fresh) bytes w"
  shows "says lib (fst sent) (error_response non_json_body_error)" and "application (snd sent) = application w"
proof -
  let ?server = "leta_server lib net json fresh"
  obtain p0 route where p0: "\<not> p_has_header lib p0 RequestIdHeader" "(pattern, route) \<in> set (post_routes ?server)"
    "process ?server bytes w = (case run_route ?server route q p0 w of (p, w1) \<Rightarrow> after_routing lib ?server q p w1)"
    by (rule routedE [OF assms(3) [unfolded reaches_def]])
  obtain h where route: "route = adapt lib Post h" by (rule leta_post_route_adapts [OF assms(2) p0(2)])
  define handled where "handled = run_route ?server route q p0 w"
  obtain id_text source where id: "resolve_request_id lib q (ids w) = (id_text, source)" by fastforce
  have refused: "says lib (fst handled) (error_response non_json_body_error)" "application (snd handled) = application w"
    by (simp_all add: handled_def route run_route_def adapt_refused [OF assms(4)] id says_write [OF assms(1)])
  have tagged: "has_request_id lib (fst handled)"
    unfolding handled_def route by (rule run_route_facts(1) [OF assms(1) our_leta_server [OF assms(2)] p0(1)])
  then have tagged': "p_has_header lib (fst handled) RequestIdHeader \<longrightarrow> has_request_id lib (fst handled)" ..
  have bodied: "p_status lib (fst handled) < 400 \<or> p_body lib (fst handled) \<noteq> []"
    using refused(1) by (simp add: says_def body_error_response_nonempty)
  have sent: "sent = after_routing lib ?server q (fst handled) (snd handled)"
    by (simp add: sent_def p0(3) handled_def case_prod_beta)
  note facts = after_routing_facts [OF assms(1) our_leta_server [OF assms(2)] tagged']
  show "says lib (fst sent) (error_response non_json_body_error)"
    unfolding sent by (rule facts(2) [OF bodied refused(1)])
  show "application (snd sent) = application w"
    unfolding sent facts(4) by (rule refused(2))
qed

subsection \<open>A session to try\<close>

text \<open>Every request posts one batch of one document.\<close>

definition sample_batch_request :: plain_request where
  "sample_batch_request =
     \<lparr>sent_headers = [(''Content-Type'', ''application/json'')],
      sent_path = ''/indexes/products/documents'', sent_body = ''[{\"title\":\"DDR5 kit\"}]'',
      sent_params = [(''uid'', ''products'')]\<rparr>"

definition sample_decode :: "string \<Rightarrow> string \<times> plain_request" where
  "sample_decode bytes = (''/indexes/:uid/documents'', sample_batch_request)"

lemma stored_in_start [simp]: "stored_in (quiet_world start_routes) = empty_repository"
  by (simp add: stored_in_def quiet_world_def start_routes_def start_state_def)

lemma sample_batch:
  "parse_uid ''products'' = Inr (IndexUid ''products'')"
  "parse_document_batch text_reader ''[{\"title\":\"DDR5 kit\"}]''
    = Inr [\<lparr>doc_source = ''{\"title\":\"DDR5 kit\"}'', searchable_text = [''DDR5 kit'']\<rparr>]"
  by code_simp+

lemma plain_reaches:
  assumes "decode bytes = (pattern, q)" and "find (\<lambda>r. fst r = pattern) (get_routes server) = None"
    and "\<exists>route. (pattern, route) \<in> set (post_routes server)"
  shows "reaches plain_library (plain_process decode) server bytes pattern q"
proof -
  have "find (\<lambda>r. fst r = pattern) (gs @ ps) = find (\<lambda>r. fst r = pattern) ps"
    if "find (\<lambda>r. fst r = pattern) gs = None" for gs ps
    using that by (induction gs) (auto split: if_splits)
  note skips = this
  obtain r where r: "find (\<lambda>r. fst r = pattern) (post_routes server) = Some r"
    using assms(3) by (cases "find (\<lambda>r. fst r = pattern) (post_routes server)") (auto simp: find_None_iff)
  then have "fst r = pattern" "r \<in> set (post_routes server)" by (auto simp: find_Some_iff)
  then have "(pattern, snd r) \<in> set (post_routes server)" by auto
  moreover have "plain_process decode server bytes w =
      (case run_route server (snd r) q plain_fresh w of (p, w1) \<Rightarrow> after_routing plain_library server q p w1)" for w
    by (simp only: plain_process_def assms(1) prod.case skips [OF assms(2)] r option.case)
  moreover have "\<not> p_has_header plain_library plain_fresh RequestIdHeader"
    by (simp add: plain_library_def plain_fresh_def)
  ultimately show ?thesis unfolding reaches_def routed_def by blast
qed

lemma json_type_sample: "is_json_content_type ''application/json''"
  by (rule is_json_content_type_intro [of _ "[]" "''application/json''" "[]" "[]"])
    (simp_all add: npos_def JsonMediaType_def to_ascii_lower_def)

lemma sample_reaches:
  assumes "make_server plain_library default_options = Inr fresh"
    and "pattern \<in> {''/indexes'', ''/indexes/:uid/documents''}" and "decode bytes = (pattern, q)"
  shows "reaches plain_library (plain_process decode)
    (leta_server plain_library sample_listener text_reader fresh) bytes pattern q"
proof (rule plain_reaches [of decode, OF assms(3)])
  have none: "get_routes fresh = []" "post_routes fresh = []"
    using all_routes_make [OF assms(1)] by (simp_all add: all_routes_def)
  have patterns: "to_library_pattern ''/health'' = ''/health''" "to_library_pattern ''/indexes'' = ''/indexes''"
    "to_library_pattern ''/indexes/{uid}/documents'' = ''/indexes/:uid/documents''"
    by code_simp+
  note routes = leta_server_def register_all_routes with_routes_def leta_routes_def add_route_def Let_def
  show "find (\<lambda>r. fst r = pattern)
      (get_routes (leta_server plain_library sample_listener text_reader fresh)) = None"
    using assms(2) by (auto simp: routes none patterns)
  show "\<exists>route. (pattern, route)
      \<in> set (post_routes (leta_server plain_library sample_listener text_reader fresh))"
    using assms(2) by (auto simp: routes none patterns)
qed

lemma sample_post:
  fixes w :: "in_memory_repository route_state server_world" and bytes :: string
  assumes "make_server plain_library default_options = Inr fresh"
  defines "server \<equiv> leta_server plain_library sample_listener text_reader fresh"
  shows "application (snd (plain_process sample_decode server bytes w))
    = snd (add_documents_response in_memory_port text_reader ''products'' ''[{\"title\":\"DDR5 kit\"}]'' (application w))"
proof -
  have accepted: "\<not> refused_by_type plain_library Post sample_batch_request"
    by (simp add: refused_by_type_def plain_library_def header_or_empty_def ContentTypeHeader_def
        sample_batch_request_def json_type_sample)
  have params: "q_path_params plain_library sample_batch_request = [(''uid'', ''products'')]"
    "q_body plain_library sample_batch_request = ''[{\"title\":\"DDR5 kit\"}]''"
    by (simp_all add: plain_library_def sample_batch_request_def)
  from reached_documents(2) [OF plain_message_laws assms(1) sample_reaches [OF assms(1)] accepted params(1)]
  show ?thesis unfolding server_def params(2) by (simp add: sample_decode_def)
qed

lemma sample_post_stores:
  assumes "make_server plain_library default_options = Inr fresh"
  defines "server \<equiv> leta_server plain_library sample_listener text_reader fresh"
  shows "\<exists>stored. indexes (stored_in (snd (serve_all (plain_process sample_decode) server [bytes]
    (quiet_world start_routes)))) ''products'' = Some stored"
proof -
  have empty: "repository_holds (repository (services start_routes)) Map.empty" by (simp add: start_routes_def)
  from add_documents_response_accepts(2) [OF empty room_for_batch_empty sample_batch]
  have "\<exists>A. repository_holds (stored_in (snd (plain_process sample_decode server bytes (quiet_world start_routes)))) A
      \<and> A ''products'' \<noteq> None"
    by (auto simp: stored_in_def server_def sample_post [OF assms(1)] quiet_world_def)
  then obtain A where "repository_holds (stored_in (snd (plain_process sample_decode server bytes (quiet_world start_routes)))) A"
    "A ''products'' \<noteq> None" by blast
  then have "indexes (stored_in (snd (plain_process sample_decode server bytes (quiet_world start_routes)))) ''products'' \<noteq> None"
    by (simp only: repository_holds_None not_False_eq_True)
  then show ?thesis by (simp add: case_prod_beta)
qed

subsection \<open>Properties\<close>

text \<open>
  C1. Refinement of the API, for the whole program: whatever bytes clients send to the server that
  \<open>serve\<close> built, with the objects it made, as long as the library runs each request through its
  \<open>pipeline\<close>, the session is a run of the abstract API from the empty
  catalog. Each response is the response of its event: an error with nothing changed, the readiness,
  409 for a uid that is taken, 201 with the new index under a free uid, 200 with the counts of a
  batch that was appended whole; and what is stored at the end is what the run leaves in the catalog.
  The bound keeps every index within the \<open>2 ^ 32\<close> ids it has.
\<close>

theorem session_refines_api:
  fixes lib :: "('q, 'p) http_library"
  assumes "message_laws lib" and "serve lib json net system_clock steady out = Inr result"
    and "list_all (pipeline lib process (served_by result)) requests"
    and "application w = objects result" and "length requests * MaxBatchDocuments \<le> 2 ^ 32"
  shows "\<exists>events A. api_run Map.empty events A
    \<and> list_all2 (\<lambda>e p. \<exists>answer. p_status lib p = status answer \<and> p_body lib p = body answer \<and> event_answer e answer)
        events (fst (serve_all process (served_by result) requests w))
    \<and> repository_holds (stored_in (snd (serve_all process (served_by result) requests w))) A"
proof -
  from serve_result_server [OF assms(2)] obtain fresh where fresh: "make_server lib default_options = Inr fresh"
    "served_by result = leta_server lib net json fresh" "repository (services (objects result)) = empty_repository"
    by blast
  then have "stored_in w = empty_repository" by (simp add: stored_in_def assms(4))
  with serve_all_from_empty [OF assms(1) fresh(1) assms(3) [unfolded fresh(2)]] assms(5)
  obtain events A where run: "api_run Map.empty events A"
    "list_all2 (answers_event lib) events (fst (serve_all process (served_by result) requests w))"
    "repository_holds (stored_in (snd (serve_all process (served_by result) requests w))) A"
    unfolding fresh(2) by metis
  have "answers_event lib = (\<lambda>e p. \<exists>answer. p_status lib p = status answer
      \<and> p_body lib p = body answer \<and> event_answer e answer)"
    by (simp add: fun_eq_iff answers_event_def says_def conj_assoc)
  with run show ?thesis by auto
qed

theorem session_refines_api_witness:
  "\<exists>result events A. serve plain_library text_reader sample_listener (sconst 0) (sconst 0)
        \<lparr>standard_output = [], standard_error = []\<rparr> = Inr result
    \<and> api_run Map.empty events A \<and> length events = 2
    \<and> repository_holds (stored_in (snd (serve_all (plain_process sample_decode) (served_by result)
        [''a'', ''b''] (quiet_world (objects result))))) A"
proof -
  obtain result where result: "serve plain_library text_reader sample_listener (sconst 0) (sconst 0)
      \<lparr>standard_output = [], standard_error = []\<rparr> = Inr result"
    using serve_returns by blast
  have world: "application (quiet_world (objects result)) = objects result" by (simp add: quiet_world_def)
  have bound: "length [''a'', ''b''] * MaxBatchDocuments \<le> 2 ^ 32" by (simp add: MaxBatchDocuments_def)
  let ?session = "serve_all (plain_process sample_decode) (served_by result) [''a'', ''b'']
    (quiet_world (objects result))"
  from session_refines_api [OF plain_message_laws result plain_pipelines [of sample_decode] world bound]
  obtain events A where run: "api_run Map.empty events A" "repository_holds (stored_in (snd ?session)) A"
    and "length events = length (fst ?session)"
    by (blast dest: list_all2_lengthD)
  moreover have "length (fst ?session) = 2" by (simp add: case_prod_beta)
  ultimately show ?thesis using result by (intro exI conjI) simp_all
qed

text \<open>
  C9. Nothing acknowledged is lost and nothing else is stored: over any session, the sum of the
  \<open>indexed\<close> counts that clients read in the responses is the number of documents in the repository.
\<close>

theorem acknowledged_documents_are_stored:
  fixes lib :: "('q, 'p) http_library"
  assumes "message_laws lib" and "make_server lib options = Inr fresh"
    and "list_all (pipeline lib process (leta_server lib net json fresh)) requests"
    and "stored_in w = empty_repository" and "length requests * MaxBatchDocuments \<le> 2 ^ 32"
  shows "case serve_all process (leta_server lib net json fresh) requests w of (responses, w') \<Rightarrow>
    sum_list (map (\<lambda>p. acknowledged (p_body lib p)) responses) = documents_stored (stored_in w')"
proof -
  from serve_all_from_empty [OF assms] obtain events A where run: "api_run Map.empty events A"
    "list_all2 (answers_event lib) events (fst (serve_all process (leta_server lib net json fresh) requests w))"
    "repository_holds (stored_in (snd (serve_all process (leta_server lib net json fresh) requests w))) A" .
  have "catalog_documents A = sum_list (map event_documents events)"
    using api_run_documents [OF run(1)] by simp
  with acknowledged_answers [OF run(2)] documents_stored_holds [OF run(3)] show ?thesis
    by (simp add: case_prod_beta)
qed

theorem acknowledged_documents_are_stored_witness:
  "\<exists>fresh. make_server plain_library default_options = Inr fresh
    \<and> (case serve_all (plain_process sample_decode)
          (leta_server plain_library sample_listener text_reader fresh) [''a'', ''b''] (quiet_world start_routes) of
        (responses, w') \<Rightarrow> sum_list (map (\<lambda>p. acknowledged (p_body plain_library p)) responses)
          = documents_stored (stored_in w'))"
proof -
  obtain fresh :: "(plain_request, plain_response, in_memory_repository route_state) library_server"
    where fresh: "make_server plain_library default_options = Inr fresh"
    using make_server_default by blast
  have "length [''a'', ''b''] * MaxBatchDocuments \<le> 2 ^ 32" by (simp add: MaxBatchDocuments_def)
  from acknowledged_documents_are_stored [where net = sample_listener and json = text_reader,
      OF plain_message_laws fresh plain_pipelines [of sample_decode] stored_in_start this]
  show ?thesis by (intro exI [of _ fresh] conjI fresh)
qed

text \<open>
  C17. Well-typedness of the state: after any session, every index is stored under its own uid, the uid
  is 1 to 64 characters of the alphabet, and the index was never modified since it was created.
\<close>

theorem session_state_typed:
  fixes lib :: "('q, 'p) http_library"
  assumes "message_laws lib" and "make_server lib options = Inr fresh"
    and "list_all (pipeline lib process (leta_server lib net json fresh)) requests"
    and "stored_in w = empty_repository" and "length requests * MaxBatchDocuments \<le> 2 ^ 32"
  shows "case indexes (stored_in (snd (serve_all process (leta_server lib net json fresh) requests w))) k of
      None \<Rightarrow> True
    | Some stored \<Rightarrow> parse_uid k = Inr (uid (metadata stored))
        \<and> created_at (metadata stored) = updated_at (metadata stored)"
proof -
  from serve_all_from_empty [OF assms(1-5)] obtain events A where run: "api_run Map.empty events A"
    "repository_holds (stored_in (snd (serve_all process (leta_server lib net json fresh) requests w))) A" .
  show ?thesis
  proof (cases "indexes (stored_in (snd (serve_all process (leta_server lib net json fresh) requests w))) k")
    case (Some stored)
    from repository_holds_Some [OF run(2) Some] obtain ds where "A k = Some (metadata stored, ds)" .
    with api_run_typed [OF run(1)] have "k = key_of (metadata stored)" "fresh_metadata (metadata stored)"
      by (auto simp: typed_catalog_def)
    with Some show ?thesis by (simp add: fresh_metadata_def key_of_def parse_uid_returns)
  qed simp
qed

theorem session_state_typed_witness:
  "\<exists>fresh stored. make_server plain_library default_options = Inr fresh
    \<and> indexes (stored_in (snd (serve_all (plain_process sample_decode)
          (leta_server plain_library sample_listener text_reader fresh) [''a''] (quiet_world start_routes))))
        ''products'' = Some stored
    \<and> parse_uid ''products'' = Inr (uid (metadata stored))"
proof -
  obtain fresh :: "(plain_request, plain_response, in_memory_repository route_state) library_server"
    where fresh: "make_server plain_library default_options = Inr fresh"
    using make_server_default by blast
  obtain stored where stored: "indexes (stored_in (snd (serve_all (plain_process sample_decode)
      (leta_server plain_library sample_listener text_reader fresh) [''a''] (quiet_world start_routes))))
      ''products'' = Some stored"
    using sample_post_stores [OF fresh] by blast
  have "length [''a''] * MaxBatchDocuments \<le> 2 ^ 32" by (simp add: MaxBatchDocuments_def)
  from session_state_typed [where net = sample_listener and json = text_reader and k = "''products''",
      OF plain_message_laws fresh plain_pipelines [of sample_decode] stored_in_start this]
  have "parse_uid ''products'' = Inr (uid (metadata stored))" by (simp only: stored option.case)
  with fresh stored show ?thesis by blast
qed

end
