(* ===== verification/Concurrency.thy ===== *)
theory Concurrency
  imports Services
begin

text \<open>
  \<open>InMemoryIndexRepository\<close> called from every HTTP worker at once
  (\<open>src/adapters/storage/in_memory_index_repository.cpp\<close>). A worker thread takes the mutex, works on
  the map in steps (the insertion, one step per document of a batch) and leaves; any thread may run
  between two steps. \<open>log\<close> is a ghost: the calls in the order in which they left the mutex, each with
  the thread that made it and its answer.
\<close>

datatype phase =
    Idle
  | Waiting repository_call                                    \<comment> \<open>before \<open>scoped_lock lock{mutex_}\<close>\<close>
  | Entered repository_call                                    \<comment> \<open>the mutex is held\<close>
  | Filling index_metadata "document list" "document list"   \<comment> \<open>the batch, and what is left of it\<close>
  | Leaving repository_call repository_answer                  \<comment> \<open>about to return, and so to unlock\<close>

type_synonym thread = nat

record system =
  mutex :: "thread option"
  shared :: in_memory_repository
  threads :: "thread \<Rightarrow> phase"
  log :: "(thread \<times> repository_call \<times> repository_answer) list"

definition initial_system :: system where
  "initial_system =
     \<lparr>mutex = None, shared = empty_repository, threads = (\<lambda>_. Idle), log = []\<rparr>"

definition move_to :: "thread \<Rightarrow> phase \<Rightarrow> system \<Rightarrow> system" where
  "move_to t p s = s\<lparr>threads := (threads s)(t := p)\<rparr>"

inductive step :: "thread \<Rightarrow> system \<Rightarrow> system \<Rightarrow> bool" where
  call: "threads s t = Idle \<Longrightarrow> step t s (move_to t (Waiting c) s)"
| lock: "threads s t = Waiting c \<Longrightarrow> mutex s = None \<Longrightarrow>
    step t s (move_to t (Entered c) (s\<lparr>mutex := Some t\<rparr>))"
| insert_index: "threads s t = Entered (AddIndex m) \<Longrightarrow> repository_add (shared s) m = (answer, r) \<Longrightarrow>
    step t s (move_to t (Leaving (AddIndex m) (Added answer)) (s\<lparr>shared := r\<rparr>))"
| find_or_insert: "threads s t = Entered (AddBatch m ds) \<Longrightarrow>
    try_emplace (indexes (shared s)) (key_of m) \<lparr>metadata = m, documents = empty_index\<rparr>
      = (emplaced, stored, fresh) \<Longrightarrow>
    step t s (move_to t (Filling m ds ds) (s\<lparr>shared := (shared s)\<lparr>indexes := emplaced\<rparr>\<rparr>))"
| insert_document: "threads s t = Filling m ds (d # rest) \<Longrightarrow>
    indexes (shared s) (key_of m) = Some stored \<Longrightarrow>
    step t s (move_to t (Filling m ds rest)
      (s\<lparr>shared := (shared s)\<lparr>indexes := (indexes (shared s))(key_of m \<mapsto> store_document d stored)\<rparr>\<rparr>))"
| read_metadata: "threads s t = Filling m ds [] \<Longrightarrow> indexes (shared s) (key_of m) = Some stored \<Longrightarrow>
    step t s (move_to t (Leaving (AddBatch m ds) (Stored (Inr (metadata stored)))) s)"
| unlock: "threads s t = Leaving c a \<Longrightarrow>
    step t s (move_to t Idle (s\<lparr>mutex := None, log := log s @ [(t, c, a)]\<rparr>))"

inductive_cases step_cases: "step t s s'"

inductive reachable :: "system \<Rightarrow> bool" where
  start: "reachable initial_system"
| continue: "reachable s \<Longrightarrow> step t s s' \<Longrightarrow> reachable s'"

subsection \<open>A batch in steps\<close>

lemma repository_add_documents_at:
  "indexes (snd (repository_add_documents r m ds)) (key_of m) = Some s \<Longrightarrow>
   fst (repository_add_documents r m ds) = Inr (metadata s)"
  by (auto simp: repository_add_documents_def key_of_def Let_def split: prod.splits)

lemma repository_add_documents_present:
  "\<exists>s. indexes (snd (repository_add_documents r m ds)) (key_of m) = Some s"
  by (auto simp: repository_add_documents_def key_of_def Let_def split: prod.splits)

lemma repository_add_documents_none:
  assumes "try_emplace (indexes r) (key_of m) \<lparr>metadata = m, documents = empty_index\<rparr> = (emplaced, stored, fresh)"
  shows "r\<lparr>indexes := emplaced\<rparr> = snd (repository_add_documents r m [])"
proof -
  have "emplaced (key_of m) = Some stored"
    using assms by (auto simp: try_emplace_def split: option.splits)
  then have "emplaced(key_of m \<mapsto> stored) = emplaced" by auto
  with assms show ?thesis by (simp add: repository_add_documents_def key_of_def)
qed

lemma repository_add_documents_snoc:
  assumes "indexes (snd (repository_add_documents r m ds)) (key_of m) = Some s"
  defines "r' \<equiv> snd (repository_add_documents r m ds)"
  shows "r'\<lparr>indexes := (indexes r')(key_of m \<mapsto> store_document d s)\<rparr>
    = snd (repository_add_documents r m (ds @ [d]))"
proof -
  obtain emplaced stored fresh where
    e: "try_emplace (indexes r) (key_of m) \<lparr>metadata = m, documents = empty_index\<rparr> = (emplaced, stored, fresh)"
    by (metis prod_cases3)
  with assms(1) have "s = fold store_document ds stored"
    by (simp add: repository_add_documents_def key_of_def Let_def)
  with e show ?thesis by (simp add: r'_def repository_add_documents_def key_of_def Let_def)
qed

subsection \<open>The invariant\<close>

fun in_critical_section :: "phase \<Rightarrow> bool" where
  "in_critical_section Idle = False"
| "in_critical_section (Waiting c) = False"
| "in_critical_section _ = True"

text \<open>How far the thread in the critical section has come from the repository it found.\<close>

fun progress :: "phase \<Rightarrow> in_memory_repository \<Rightarrow> in_memory_repository \<Rightarrow> bool" where
  "progress (Entered c) found now \<longleftrightarrow> now = found"
| "progress (Filling m ds rest) found now \<longleftrightarrow>
     (\<exists>inserted. ds = inserted @ rest \<and> now = snd (repository_add_documents found m inserted))"
| "progress (Leaving c a) found now \<longleftrightarrow> call_repository found c = (a, now)"
| "progress p found now \<longleftrightarrow> False"

definition calls_of :: "system \<Rightarrow> repository_call list" where
  "calls_of s = map (\<lambda>e. fst (snd e)) (log s)"

definition answers_of :: "system \<Rightarrow> repository_answer list" where
  "answers_of s = map (\<lambda>e. snd (snd e)) (log s)"

definition system_invariant :: "system \<Rightarrow> bool" where
  "system_invariant s \<longleftrightarrow>
     (\<forall>t. in_critical_section (threads s t) \<longleftrightarrow> mutex s = Some t)
   \<and> fst (run_repository empty_repository (calls_of s)) = answers_of s
   \<and> (case mutex s of
        None \<Rightarrow> shared s = snd (run_repository empty_repository (calls_of s))
      | Some t \<Rightarrow> progress (threads s t) (snd (run_repository empty_repository (calls_of s))) (shared s))"

lemma move_to_simps [simp]:
  "mutex (move_to t p s) = mutex s" "shared (move_to t p s) = shared s" "log (move_to t p s) = log s"
  "threads (move_to t p s) = (threads s)(t := p)"
  "calls_of (move_to t p s) = calls_of s" "answers_of (move_to t p s) = answers_of s"
  by (simp_all add: move_to_def calls_of_def answers_of_def)

lemma calls_of_simps [simp]:
  "calls_of (s\<lparr>mutex := x\<rparr>) = calls_of s" "calls_of (s\<lparr>shared := r\<rparr>) = calls_of s"
  "answers_of (s\<lparr>mutex := x\<rparr>) = answers_of s" "answers_of (s\<lparr>shared := r\<rparr>) = answers_of s"
  "calls_of (s\<lparr>mutex := x, log := l\<rparr>) = map (\<lambda>e. fst (snd e)) l"
  "answers_of (s\<lparr>mutex := x, log := l\<rparr>) = map (\<lambda>e. snd (snd e)) l"
  by (simp_all add: calls_of_def answers_of_def)

lemma run_repository_snoc:
  "run_repository r (cs @ [c]) =
     (case run_repository r cs of (as, r1) \<Rightarrow> case call_repository r1 c of (a, r2) \<Rightarrow> (as @ [a], r2))"
  by (induction cs arbitrary: r) (simp_all add: case_prod_beta)

text \<open>A step inside the critical section, by the thread that holds the mutex.\<close>

lemma invariant_inside:
  assumes "system_invariant s" and "in_critical_section (threads s t)" and "in_critical_section p"
    and "\<And>found. progress (threads s t) found (shared s) \<Longrightarrow> progress p found r"
  shows "system_invariant (move_to t p (s\<lparr>shared := r\<rparr>))"
proof -
  have "mutex s = Some t" using assms(1,2) by (simp add: system_invariant_def)
  with assms show ?thesis by (auto simp: system_invariant_def)
qed

lemma invariant_step: "step t s s' \<Longrightarrow> system_invariant s \<Longrightarrow> system_invariant s'"
proof (induction rule: step.induct)
  case (call s t c)
  then have "mutex s \<noteq> Some t" by (metis in_critical_section.simps(1) system_invariant_def)
  with call show ?case by (auto simp: system_invariant_def split: option.splits)
next
  case (lock s t c)
  then show ?case by (auto simp: system_invariant_def)
next
  case (insert_index s t m answer r)
  then show ?case by (intro invariant_inside) auto
next
  case (find_or_insert s t m ds emplaced stored fresh)
  then show ?case
    by (intro invariant_inside) (auto simp: repository_add_documents_none)
next
  case (insert_document s t m ds d rest stored)
  then show ?case
    by (intro invariant_inside) (auto simp: repository_add_documents_snoc)
next
  case (read_metadata s t m ds stored)
  have "system_invariant (move_to t (Leaving (AddBatch m ds) (Stored (Inr (metadata stored)))) (s\<lparr>shared := shared s\<rparr>))"
  proof (rule invariant_inside)
    fix found
    assume "progress (threads s t) found (shared s)"
    with read_metadata have now: "shared s = snd (repository_add_documents found m ds)" by simp
    with read_metadata have "fst (repository_add_documents found m ds) = Inr (metadata stored)"
      by (intro repository_add_documents_at) simp
    with now show "progress (Leaving (AddBatch m ds) (Stored (Inr (metadata stored)))) found (shared s)"
      by (simp add: prod_eq_iff)
  qed (use read_metadata in auto)
  then show ?case by simp
next
  case (unlock s t c a)
  then have mine: "mutex s = Some t" by (metis in_critical_section.simps(5) system_invariant_def)
  with unlock have "call_repository (snd (run_repository empty_repository (calls_of s))) c = (a, shared s)"
    by (simp add: system_invariant_def)
  with unlock mine show ?case
    by (auto simp: system_invariant_def run_repository_snoc case_prod_beta calls_of_def answers_of_def)
qed

lemma reachable_invariant: "reachable s \<Longrightarrow> system_invariant s"
proof (induction rule: reachable.induct)
  case start
  then show ?case by (simp add: system_invariant_def initial_system_def calls_of_def answers_of_def)
next
  case (continue s t s')
  then show ?case using invariant_step by blast
qed

subsection \<open>Progress\<close>

text \<open>The thread in the critical section can always take its next step.\<close>

lemma inside_can_step:
  assumes "system_invariant s" and "in_critical_section (threads s t)"
  shows "\<exists>s'. step t s s'"
proof -
  have mine: "mutex s = Some t" using assms by (simp add: system_invariant_def)
  with assms(1) have found: "progress (threads s t) (snd (run_repository empty_repository (calls_of s))) (shared s)"
    by (simp add: system_invariant_def)
  show ?thesis
  proof (cases "threads s t")
    case (Entered c)
    show ?thesis
    proof (cases c)
      case (AddIndex m)
      obtain answer r where "repository_add (shared s) m = (answer, r)" by fastforce
      with Entered AddIndex show ?thesis by (blast intro: insert_index)
    next
      case (AddBatch m ds)
      obtain emplaced stored fresh where "try_emplace (indexes (shared s)) (key_of m)
          \<lparr>metadata = m, documents = empty_index\<rparr> = (emplaced, stored, fresh)"
        by (metis prod_cases3)
      with Entered AddBatch show ?thesis by (blast intro: find_or_insert)
    qed
  next
    case (Filling m ds rest)
    with found obtain stored where "indexes (shared s) (key_of m) = Some stored"
      using repository_add_documents_present by fastforce
    with Filling show ?thesis by (cases rest) (blast intro: insert_document read_metadata)+
  next
    case (Leaving c a)
    then show ?thesis by (blast intro: unlock)
  qed (use assms(2) in auto)
qed

subsection \<open>One create per uid\<close>

fun creates :: "string \<Rightarrow> thread \<times> repository_call \<times> repository_answer \<Rightarrow> bool" where
  "creates k (t, AddIndex m, Added (Inr u)) \<longleftrightarrow> key_of m = k"
| "creates k entry \<longleftrightarrow> False"

lemma creates_iff: "creates k (t, c, a) \<longleftrightarrow> (\<exists>m. c = AddIndex m \<and> key_of m = k \<and> a = Added (Inr ()))"
  by (cases "(k, (t, c, a))" rule: creates.cases) auto

lemma call_repository_creates:
  assumes "creates k (t, c, fst (call_repository r c))"
  shows "indexes r k = None" and "indexes (snd (call_repository r c)) k \<noteq> None"
proof -
  from assms obtain m where m: "c = AddIndex m" "key_of m = k" "fst (repository_add r m) = Inr ()"
    by (auto simp: creates_iff)
  then show free: "indexes r k = None"
    by (cases "indexes r k") (auto simp: repository_add_taken)
  with m show "indexes (snd (call_repository r c)) k \<noteq> None" by (simp add: repository_add_free)
qed

lemma creates_at_most_once:
  "fst (run_repository r (map (\<lambda>e. fst (snd e)) entries)) = map (\<lambda>e. snd (snd e)) entries \<Longrightarrow>
   length (filter (creates k) entries) \<le> (if indexes r k = None then 1 else 0)"
proof (induction entries arbitrary: r)
  case Nil
  then show ?case by simp
next
  case (Cons e entries)
  obtain t c a where e: "e = (t, c, a)" by (metis prod_cases3)
  define r1 where "r1 = snd (call_repository r c)"
  from Cons.prems have a: "a = fst (call_repository r c)"
    and rest: "fst (run_repository r1 (map (\<lambda>e. fst (snd e)) entries)) = map (\<lambda>e. snd (snd e)) entries"
    by (simp_all add: e r1_def case_prod_beta)
  note bound = Cons.IH [OF rest]
  have kept: "indexes r k \<noteq> None \<Longrightarrow> indexes r1 k \<noteq> None"
    unfolding r1_def by (metis call_repository_extends not_None_eq)
  show ?case
  proof (cases "creates k e")
    case True
    then have "indexes r k = None" "indexes r1 k \<noteq> None"
      using call_repository_creates [of k t c r] by (simp_all add: e a r1_def)
    with bound True show ?thesis by simp
  next
    case False
    with bound kept show ?thesis by (auto split: if_splits)
  qed
qed

subsection \<open>Properties\<close>

text \<open>
  C8. The repository is linearizable: in every reachable state at most the holder of the mutex is at
  work on the map, the calls that have returned gave the answers of a run of the same calls one after
  the other, and whenever no thread holds the mutex the map is exactly what that run leaves.
\<close>

theorem concurrent_calls_linearize:
  assumes "reachable s"
  shows "(\<forall>t. in_critical_section (threads s t) = (mutex s = Some t))
    \<and> fst (run_repository empty_repository (calls_of s)) = answers_of s
    \<and> (mutex s = None \<longrightarrow> shared s = snd (run_repository empty_repository (calls_of s)))"
  using reachable_invariant [OF assms] by (auto simp: system_invariant_def split: option.splits)

text \<open>One thread that creates an index, alone.\<close>

definition created_system :: system where
  "created_system =
     move_to 0 Idle
       (initial_system\<lparr>shared := snd (repository_add empty_repository sample_metadata),
         log := [(0, AddIndex sample_metadata, Added (Inr ()))]\<rparr>)"

lemma reachable_created: "reachable created_system"
proof -
  let ?c = "AddIndex sample_metadata"
  let ?r = "snd (repository_add empty_repository sample_metadata)"
  have added: "repository_add empty_repository sample_metadata = (Inr (), ?r)"
    by (simp add: repository_add_free empty_repository_def)
  define s1 where "s1 = move_to 0 (Waiting ?c) initial_system"
  define s2 where "s2 = move_to 0 (Entered ?c) (s1\<lparr>mutex := Some 0\<rparr>)"
  define s3 where "s3 = move_to 0 (Leaving ?c (Added (Inr ()))) (s2\<lparr>shared := ?r\<rparr>)"
  have "reachable s1"
    unfolding s1_def by (rule continue [OF start call]) (simp add: initial_system_def)
  then have "reachable s2"
    by (rule continue) (unfold s2_def, rule lock, simp_all add: s1_def initial_system_def)
  have "shared s2 = empty_repository" and entered: "threads s2 0 = Entered ?c"
    by (simp_all add: s2_def s1_def initial_system_def)
  with added have "repository_add (shared s2) sample_metadata = (Inr (), ?r)" by (simp only:)
  with entered have "step 0 s2 s3" unfolding s3_def by (rule insert_index)
  with \<open>reachable s2\<close> have "reachable s3" by (rule continue)
  then have "reachable (move_to 0 Idle (s3\<lparr>mutex := None, log := log s3 @ [(0, ?c, Added (Inr ()))]\<rparr>))"
    by (rule continue) (rule unlock, simp add: s3_def)
  also have "move_to 0 Idle (s3\<lparr>mutex := None, log := log s3 @ [(0, ?c, Added (Inr ()))]\<rparr>) = created_system"
    by (simp add: s3_def s2_def s1_def created_system_def initial_system_def move_to_def)
  finally show ?thesis .
qed

theorem concurrent_calls_linearize_witness:
  "reachable created_system
   \<and> shared created_system = snd (run_repository empty_repository [AddIndex sample_metadata])"
proof -
  have "calls_of created_system = [AddIndex sample_metadata]" "mutex created_system = None"
    by (simp_all add: created_system_def calls_of_def initial_system_def)
  with concurrent_calls_linearize [OF reachable_created] reachable_created show ?thesis by simp
qed

text \<open>
  The contract of \<open>IndexRepository::add\<close> under concurrency: however the workers interleave, at
  most one create of a uid ever succeeds.
\<close>

theorem one_create_succeeds:
  assumes "reachable s"
  shows "length (filter (creates k) (log s)) \<le> 1"
proof -
  have "fst (run_repository empty_repository (map (\<lambda>e. fst (snd e)) (log s))) = map (\<lambda>e. snd (snd e)) (log s)"
    using reachable_invariant [OF assms]
    by (simp add: system_invariant_def calls_of_def answers_of_def)
  from creates_at_most_once [OF this, of k] show ?thesis by (simp split: if_splits)
qed

theorem one_create_succeeds_witness:
  "reachable created_system \<and> length (filter (creates ''products'') (log created_system)) = 1"
proof -
  have "0 < length (filter (creates ''products'') (log created_system))"
    by (simp add: created_system_def sample_metadata_def key_of_def)
  with one_create_succeeds [OF reachable_created, of "''products''"] reachable_created
  show ?thesis by linarith
qed

text \<open>
  C34. No deadlock: whenever some worker is inside a call, a worker that is inside a call can take its
  next step.
\<close>

theorem no_deadlock:
  assumes "reachable s" and "threads s t \<noteq> Idle"
  shows "\<exists>u s'. threads s u \<noteq> Idle \<and> step u s s'"
proof (cases "mutex s")
  case (Some u)
  then have "in_critical_section (threads s u)"
    using reachable_invariant [OF assms(1)] by (simp add: system_invariant_def)
  with inside_can_step [OF reachable_invariant [OF assms(1)]] show ?thesis
    by (metis in_critical_section.simps(1))
next
  case None
  then have "\<not> in_critical_section (threads s t)"
    using reachable_invariant [OF assms(1)] by (simp add: system_invariant_def)
  with assms(2) obtain c where "threads s t = Waiting c" by (cases "threads s t") auto
  with None assms(2) show ?thesis by (blast intro: lock)
qed

theorem no_deadlock_witness:
  "reachable (move_to 0 (Waiting (AddIndex sample_metadata)) initial_system)
   \<and> (\<exists>u s'. step u (move_to 0 (Waiting (AddIndex sample_metadata)) initial_system) s')"
proof -
  have "reachable (move_to 0 (Waiting (AddIndex sample_metadata)) initial_system)"
    by (rule continue [OF start call]) (simp add: initial_system_def)
  moreover have "threads (move_to 0 (Waiting (AddIndex sample_metadata)) initial_system) 0 \<noteq> Idle" by simp
  ultimately show ?thesis using no_deadlock by blast
qed

end
