(* ===== verification/Workers.thy ===== *)
theory Workers
  imports Session Concurrency
begin

text \<open>
  The handlers of \<open>src/adapters/http\<close> on the worker threads of the HTTP server, overlapping. A handler
  is three parts: it reads the clocks and the body, which no other thread sees; it makes one call on
  the repository, in the steps of \<open>Concurrency\<close>; it makes the answer of what the call returned, which
  again no other thread sees. \<open>alone_splits\<close> says that the three parts together are the handler. The
  readiness is set before the first request is accepted, so that here it does not change.
\<close>

subsection \<open>The parts of a handler\<close>

datatype api_request =
    GetHealth
  | PostIndexes string
  | PostDocuments string string      \<comment> \<open>the uid of the path, and the body\<close>

text \<open>What the clocks give to one request: the wall clock, and the steady one at both ends.\<close>

record readings =
  now_reading :: timestamp
  started_reading :: int
  stopped_reading :: int

datatype begun =
    Answered HttpResponse
  | Calling repository_call

fun begin_request :: "'h simdjson \<Rightarrow> health_service \<Rightarrow> api_request \<Rightarrow> timestamp \<Rightarrow> begun" where
  "begin_request json h GetHealth now = Answered (health_response (readiness h))"
| "begin_request json h (PostIndexes payload) now =
     (case parse_create_index_request json payload of
        Inl e \<Rightarrow> Answered (error_response e)
      | Inr command \<Rightarrow> Calling (AddIndex (new_index (command_uid command) (command_primary_key command) now)))"
| "begin_request json h (PostDocuments uid_text payload) now =
     (case parse_uid uid_text of
        Inl e \<Rightarrow> Answered (error_response e)
      | Inr u \<Rightarrow>
          (case parse_document_batch json payload of
             Inl e \<Rightarrow> Answered (error_response e)
           | Inr docs \<Rightarrow> Calling (AddBatch (new_index u None now) docs)))"

text \<open>A call of \<open>add\<close> returns \<open>Added\<close> and one of \<open>add_documents\<close> returns \<open>Stored\<close>.\<close>

fun finish_request :: "repository_call \<Rightarrow> repository_answer \<Rightarrow> int \<Rightarrow> HttpResponse" where
  "finish_request (AddIndex m) (Added added) elapsed =
     (case added of
        Inl e \<Rightarrow> error_response e
      | Inr _ \<Rightarrow> \<lparr>status = CreatedStatus, body = index_json m\<rparr>)"
| "finish_request (AddBatch m docs) (Stored stored) elapsed =
     (case stored of
        Inl e \<Rightarrow> error_response e
      | Inr found \<Rightarrow> \<lparr>status = OkStatus, body = ingest_result_json (length docs)
          \<lparr>indexed = length docs, outcome_primary_key = primary_key found\<rparr> elapsed\<rparr>)"

definition elapsed_between :: "readings \<Rightarrow> int" where
  "elapsed_between at = milliseconds_of (stopped_reading at - started_reading at)"

text \<open>The handler as the route runs it, on a repository it has for itself.\<close>

definition alone_state ::
  "health_service \<Rightarrow> readings \<Rightarrow> in_memory_repository \<Rightarrow> in_memory_repository route_state" where
  "alone_state h at r =
     \<lparr>health = h, services = \<lparr>clock = sconst (now_reading at), repository = r\<rparr>,
      steady_clock = started_reading at ## sconst (stopped_reading at)\<rparr>"

fun run_handler ::
  "'h simdjson \<Rightarrow> api_request \<Rightarrow> in_memory_repository route_state
     \<Rightarrow> HttpResponse \<times> in_memory_repository route_state" where
  "run_handler json GetHealth s = (health_response (readiness (health s)), s)"
| "run_handler json (PostIndexes payload) s = create_index_response in_memory_port json payload s"
| "run_handler json (PostDocuments uid_text payload) s =
     add_documents_response in_memory_port json uid_text payload s"

definition alone ::
  "'h simdjson \<Rightarrow> health_service \<Rightarrow> in_memory_repository \<Rightarrow> api_request \<times> readings
     \<Rightarrow> HttpResponse \<times> in_memory_repository" where
  "alone json h r = (\<lambda>(request, at).
     map_prod id (\<lambda>s. repository (services s)) (run_handler json request (alone_state h at r)))"

text \<open>Requests one after the other.\<close>

fun in_turn ::
  "'h simdjson \<Rightarrow> health_service \<Rightarrow> in_memory_repository \<Rightarrow> (api_request \<times> readings) list
     \<Rightarrow> HttpResponse list \<times> in_memory_repository" where
  "in_turn json h r [] = ([], r)"
| "in_turn json h r (x # later) =
     (case alone json h r x of (answer, r1) \<Rightarrow> map_prod ((#) answer) id (in_turn json h r1 later))"

lemma in_turn_snoc:
  "in_turn json h r (xs @ [x]) =
     (case in_turn json h r xs of (answers, r1) \<Rightarrow> map_prod (\<lambda>a. answers @ [a]) id (alone json h r1 x))"
  by (induction xs arbitrary: r) (simp_all add: case_prod_beta prod_eq_iff)

lemma alone_splits:
  "alone json h r (request, at) =
     (case begin_request json h request (now_reading at) of
        Answered answer \<Rightarrow> (answer, r)
      | Calling c \<Rightarrow> (case call_repository r c of (a, r1) \<Rightarrow> (finish_request c a (elapsed_between at), r1)))"
  by (cases request)
    (simp_all add: alone_def alone_state_def create_index_response_def add_documents_response_def
      create_index_def add_documents_def elapsed_between_def Let_def failure_of_def case_prod_beta
      prod_eq_iff split: sum.split)

lemma alone_answered:
  "begin_request json h request (now_reading at) = Answered answer \<Longrightarrow> alone json h r (request, at) = (answer, r)"
  by (simp add: alone_splits)

lemma alone_calling:
  "begin_request json h request (now_reading at) = Calling c \<Longrightarrow> call_repository r c = (a, r1) \<Longrightarrow>
   alone json h r (request, at) = (finish_request c a (elapsed_between at), r1)"
  by (simp add: alone_splits)

subsection \<open>The workers\<close>

text \<open>
  \<open>pending\<close>: what a worker that is inside a call has in its own variables. \<open>served\<close> is a ghost: the
  requests in the order in which their calls left the mutex, with their clocks and answers.
\<close>

record workers =
  calls :: system
  pending :: "thread \<Rightarrow> (api_request \<times> timestamp \<times> int) option"
  served :: "((api_request \<times> readings) \<times> HttpResponse) list"

definition idle_workers :: workers where
  "idle_workers = \<lparr>calls = initial_system, pending = (\<lambda>_. None), served = []\<rparr>"

inductive work :: "'h simdjson \<Rightarrow> health_service \<Rightarrow> workers \<Rightarrow> workers \<Rightarrow> bool" for json h where
  at_once: "threads (calls s) t = Idle \<Longrightarrow>
    begin_request json h request (now_reading at) = Answered answer \<Longrightarrow>
    work json h s (s\<lparr>served := served s @ [((request, at), answer)]\<rparr>)"
| enter: "threads (calls s) t = Idle \<Longrightarrow> begin_request json h request now = Calling c \<Longrightarrow>
    work json h s (s\<lparr>calls := move_to t (Waiting c) (calls s),
      pending := (pending s)(t \<mapsto> (request, now, started))\<rparr>)"
| inside: "threads (calls s) t \<noteq> Idle \<Longrightarrow> step t (calls s) s1 \<Longrightarrow> threads s1 t \<noteq> Idle \<Longrightarrow>
    work json h s (s\<lparr>calls := s1\<rparr>)"
| leave: "threads (calls s) t = Leaving c a \<Longrightarrow> step t (calls s) s1 \<Longrightarrow>
    pending s t = Some (request, now, started) \<Longrightarrow>
    at = \<lparr>now_reading = now, started_reading = started, stopped_reading = stopped\<rparr> \<Longrightarrow>
    work json h s (s\<lparr>calls := s1, pending := (pending s)(t := None),
      served := served s @ [((request, at), finish_request c a (elapsed_between at))]\<rparr>)"

inductive working :: "'h simdjson \<Rightarrow> health_service \<Rightarrow> workers \<Rightarrow> bool" for json h where
  idle: "working json h idle_workers"
| busy: "working json h s \<Longrightarrow> work json h s s' \<Longrightarrow> working json h s'"

subsection \<open>The invariant\<close>

fun call_in :: "phase \<Rightarrow> repository_call option" where
  "call_in Idle = None"
| "call_in (Waiting c) = Some c"
| "call_in (Entered c) = Some c"
| "call_in (Filling m ds rest) = Some (AddBatch m ds)"
| "call_in (Leaving c a) = Some c"

lemma call_in_Idle [simp]: "call_in p = None \<longleftrightarrow> p = Idle"
  by (cases p) simp_all

lemma step_threads: "step t s s' \<Longrightarrow> \<exists>p. threads s' = (threads s)(t := p)"
  by (induction rule: step.induct) auto

lemma step_same_call:
  "step t s s' \<Longrightarrow> threads s t \<noteq> Idle \<Longrightarrow> threads s' t \<noteq> Idle \<Longrightarrow>
   call_in (threads s' t) = call_in (threads s t) \<and> log s' = log s"
  by (induction rule: step.induct) auto

lemma step_leaves:
  "step t s s' \<Longrightarrow> threads s t = Leaving c a \<Longrightarrow>
   s' = move_to t Idle (s\<lparr>mutex := None, log := log s @ [(t, c, a)]\<rparr>)"
  by (erule step_cases) auto

text \<open>A worker that is inside a call is inside the call its request asked for.\<close>

fun waits_for :: "'h simdjson \<Rightarrow> health_service \<Rightarrow> phase \<Rightarrow> (api_request \<times> timestamp \<times> int) option \<Rightarrow> bool" where
  "waits_for json h p None \<longleftrightarrow> p = Idle"
| "waits_for json h p (Some (request, now, started)) \<longleftrightarrow>
     map_option Calling (call_in p) = Some (begin_request json h request now)"

lemma waits_for_same_call: "waits_for json h p entry \<Longrightarrow> p \<noteq> Idle \<Longrightarrow> call_in p' = call_in p \<Longrightarrow> waits_for json h p' entry"
  by (cases "(json, h, p, entry)" rule: waits_for.cases) auto

definition pending_calls :: "'h simdjson \<Rightarrow> health_service \<Rightarrow> workers \<Rightarrow> bool" where
  "pending_calls json h s \<longleftrightarrow> (\<forall>t. waits_for json h (threads (calls s) t) (pending s t))"

definition served_in_turn :: "'h simdjson \<Rightarrow> health_service \<Rightarrow> workers \<Rightarrow> bool" where
  "served_in_turn json h s \<longleftrightarrow>
     in_turn json h empty_repository (map fst (served s))
       = (map snd (served s), snd (run_repository empty_repository (calls_of (calls s))))"

lemma pending_calls_work: "work json h s s' \<Longrightarrow> pending_calls json h s \<Longrightarrow> pending_calls json h s'"
proof (induction rule: work.induct)
  case (inside s t s1)
  then have "waits_for json h (threads s1 t) (pending s t)"
    using step_same_call [OF inside(2,1,3)] waits_for_same_call unfolding pending_calls_def by blast
  with inside(4) step_threads [OF inside(2)] show ?case by (auto simp: pending_calls_def)
next
  case (leave s t c a s1 request now started at stopped)
  then show ?case using step_leaves [OF leave(2,1)] by (simp add: pending_calls_def)
qed (simp_all add: pending_calls_def)

lemma served_in_turn_same:
  "log s1 = log (calls s) \<Longrightarrow> served_in_turn json h (s\<lparr>calls := s1\<rparr>) = served_in_turn json h s"
  "log s1 = log (calls s) \<Longrightarrow> served_in_turn json h (s\<lparr>calls := s1, pending := p\<rparr>) = served_in_turn json h s"
  by (simp_all add: served_in_turn_def calls_of_def)

lemma served_in_turn_work:
  "work json h s s' \<Longrightarrow> system_invariant (calls s) \<Longrightarrow> pending_calls json h s \<Longrightarrow> served_in_turn json h s \<Longrightarrow>
   served_in_turn json h s'"
proof (induction rule: work.induct)
  case (at_once s t request at answer)
  then show ?case by (simp add: served_in_turn_def in_turn_snoc alone_answered)
next
  case (enter s t request now c started)
  then show ?case by (simp add: served_in_turn_same)
next
  case (inside s t s1)
  then show ?case using step_same_call [OF inside(2,1,3)] by (simp add: served_in_turn_same)
next
  case (leave s t c a s1 request now started at stopped)
  let ?found = "snd (run_repository empty_repository (calls_of (calls s)))"
  have "call_repository ?found c = (a, shared (calls s))"
    using leave(1,5) unfolding system_invariant_def
    by (metis in_critical_section.simps(5) option.simps(5) progress.simps(3))
  moreover have "begin_request json h request (now_reading at) = Calling c"
  proof -
    have "waits_for json h (threads (calls s) t) (pending s t)" using leave(6) unfolding pending_calls_def ..
    then show ?thesis by (simp add: leave(1,3,4))
  qed
  ultimately show ?case
    using leave(7) step_leaves [OF leave(2,1)]
    by (simp add: served_in_turn_def in_turn_snoc alone_calling run_repository_snoc case_prod_beta
        calls_of_def)
qed

lemma work_reachable: "work json h s s' \<Longrightarrow> reachable (calls s) \<Longrightarrow> reachable (calls s')"
  by (induction rule: work.induct) (auto intro: continue call)

lemma working_invariant:
  "working json h s \<Longrightarrow> reachable (calls s) \<and> pending_calls json h s \<and> served_in_turn json h s"
proof (induction rule: working.induct)
  case idle
  have "pending_calls json h idle_workers" "served_in_turn json h idle_workers"
    by (simp_all add: pending_calls_def served_in_turn_def idle_workers_def initial_system_def calls_of_def)
  then show ?case by (simp add: idle_workers_def start)
next
  case (busy s s')
  then show ?case
    using work_reachable pending_calls_work served_in_turn_work reachable_invariant by blast
qed

subsection \<open>The requests in turn are a run of the API\<close>

lemma run_handler_step:
  assumes "repository_holds (repository (services s)) A" and "room_for_batch A"
  shows "\<exists>e A'. event_answer e (fst (run_handler json request s)) \<and> api_step A e A'
    \<and> repository_holds (repository (services (snd (run_handler json request s)))) A'"
proof (cases request)
  case GetHealth
  with assms(1) probe [of A] show ?thesis by (intro exI [of _ Probed] exI [of _ A]) simp
next
  case (PostIndexes payload)
  with create_route_step [OF assms(1), of json payload] show ?thesis by simp
next
  case (PostDocuments uid_text payload)
  with ingest_route_step [OF assms, of json uid_text payload] show ?thesis by simp
qed

lemma in_turn_run:
  assumes "repository_holds r A" and "catalog_bounded A n" and "n + length xs * MaxBatchDocuments \<le> 2 ^ 32"
  shows "\<exists>events A'. api_run A events A' \<and> list_all2 event_answer events (fst (in_turn json h r xs))
    \<and> repository_holds (snd (in_turn json h r xs)) A'"
  using assms
proof (induction xs arbitrary: r A n)
  case Nil
  then show ?case using finished [of A] by (intro exI [of _ "[]"] exI [of _ A]) simp
next
  case (Cons x later)
  obtain request at where x: "x = (request, at)" by (cases x)
  have "repository_holds (repository (services (alone_state h at r))) A"
    using Cons.prems(1) by (simp add: alone_state_def)
  moreover have "room_for_batch A"
    by (rule room_for_batch_bounded [OF Cons.prems(2)]) (use Cons.prems(3) in simp)
  ultimately obtain e A1 where step: "event_answer e (fst (alone json h r x))" "api_step A e A1"
    "repository_holds (snd (alone json h r x)) A1"
    using run_handler_step [of "alone_state h at r" A json request] by (auto simp: x alone_def)
  have "n + MaxBatchDocuments + length later * MaxBatchDocuments \<le> 2 ^ 32" using Cons.prems(3) by simp
  from Cons.IH [OF step(3) api_step_bounded [OF step(2) Cons.prems(2)] this]
  obtain events A' where run: "api_run A1 events A'"
    "list_all2 event_answer events (fst (in_turn json h (snd (alone json h r x)) later))"
    "repository_holds (snd (in_turn json h (snd (alone json h r x)) later)) A'"
    by blast
  with step(1) more [OF step(2) run(1)] show ?case
    by (intro exI [of _ "e # events"] exI [of _ A']) (simp add: case_prod_beta)
qed

subsection \<open>Two workers that overlap\<close>

lemma add_index_completes:
  assumes "working json h s" and "mutex (calls s) = None" and "threads (calls s) t = Waiting (AddIndex m)"
    and "pending s t = Some (request, now, started)" and "repository_add (shared (calls s)) m = (answer, r)"
    and "at = \<lparr>now_reading = now, started_reading = started, stopped_reading = stopped\<rparr>"
  obtains s' where "working json h s'" "mutex (calls s') = None" "shared (calls s') = r"
    "threads (calls s') = (threads (calls s))(t := Idle)" "pending s' = (pending s)(t := None)"
    "served s' = served s @ [((request, at), finish_request (AddIndex m) (Added answer) (elapsed_between at))]"
proof -
  let ?c = "AddIndex m"
  define c1 where "c1 = move_to t (Entered ?c) ((calls s)\<lparr>mutex := Some t\<rparr>)"
  define c2 where "c2 = move_to t (Leaving ?c (Added answer)) (c1\<lparr>shared := r\<rparr>)"
  define c3 where "c3 = move_to t Idle (c2\<lparr>mutex := None, log := log c2 @ [(t, ?c, Added answer)]\<rparr>)"
  have "step t (calls s) c1" unfolding c1_def by (rule lock [OF assms(3,2)])
  with assms(1,3) have w1: "working json h (s\<lparr>calls := c1\<rparr>)"
    by (intro busy [OF assms(1)] inside [of s t]) (simp_all add: c1_def)
  have "step t c1 c2" unfolding c2_def by (rule insert_index) (simp_all add: c1_def assms(5))
  then have "work json h (s\<lparr>calls := c1\<rparr>) (s\<lparr>calls := c1\<rparr>\<lparr>calls := c2\<rparr>)"
    by (intro inside [of _ t]) (simp_all add: c1_def c2_def)
  with w1 have w2: "working json h (s\<lparr>calls := c2\<rparr>)" using busy by fastforce
  have "step t c2 c3" unfolding c3_def by (rule unlock) (simp add: c2_def)
  then have "work json h (s\<lparr>calls := c2\<rparr>) (s\<lparr>calls := c2\<rparr>\<lparr>calls := c3, pending := (pending (s\<lparr>calls := c2\<rparr>))(t := None),
      served := served (s\<lparr>calls := c2\<rparr>) @ [((request, at), finish_request ?c (Added answer) (elapsed_between at))]\<rparr>)"
    by (intro leave [where a = "Added answer"]) (simp_all add: c2_def assms(4,6))
  from busy [OF w2 this] that show thesis by (simp add: c3_def c2_def c1_def)
qed

definition sample_body :: string where
  "sample_body = ''{\"uid\":\"products\"}''"

lemma two_creates_overlap:
  obtains s where "working text_reader new_health_service s" "map (\<lambda>x. status (snd x)) (served s) = [201, 409]"
    "mutex (calls s) = None"
proof -
  let ?m = "\<lambda>now. new_index (IndexUid ''products'') None now"
  let ?request = "PostIndexes sample_body"
  let ?work = "working text_reader new_health_service"
  have "parse_create_index_request text_reader ''{\"uid\":\"products\"}''
      = Inr \<lparr>command_uid = IndexUid ''products'', command_primary_key = None\<rparr>"
    by code_simp
  then have begins: "begin_request text_reader new_health_service ?request now = Calling (AddIndex (?m now))" for now
    by (simp add: sample_body_def)
  define s1 where "s1 = idle_workers\<lparr>calls := move_to 0 (Waiting (AddIndex (?m 1))) (calls idle_workers),
    pending := (pending idle_workers)(0 \<mapsto> (?request, 1, 0))\<rparr>"
  define s2 where "s2 = s1\<lparr>calls := move_to 1 (Waiting (AddIndex (?m 2))) (calls s1),
    pending := (pending s1)(1 \<mapsto> (?request, 2, 0))\<rparr>"
  have "?work s1"
    unfolding s1_def by (intro busy [OF idle] enter begins) (simp add: idle_workers_def initial_system_def)
  then have "?work s2"
    unfolding s2_def by (rule busy) (intro enter begins, simp add: s1_def idle_workers_def initial_system_def)
  have at2: "mutex (calls s2) = None" "shared (calls s2) = empty_repository" "served s2 = []"
    "threads (calls s2) 0 = Waiting (AddIndex (?m 1))" "threads (calls s2) 1 = Waiting (AddIndex (?m 2))"
    "pending s2 0 = Some (?request, 1, 0)" "pending s2 1 = Some (?request, 2, 0)"
    by (simp_all add: s2_def s1_def idle_workers_def initial_system_def)
  obtain r3 where r3: "repository_add empty_repository (?m 2) = (Inr (), r3)"
    "indexes r3 ''products'' \<noteq> None"
    by (simp add: repository_add_free empty_repository_def)
  obtain s3 where s3: "?work s3" "mutex (calls s3) = None" "shared (calls s3) = r3"
    "threads (calls s3) = (threads (calls s2))(1 := Idle)" "pending s3 = (pending s2)(1 := None)"
    "map (\<lambda>x. status (snd x)) (served s3) = [201]"
    by (rule add_index_completes [OF \<open>?work s2\<close> at2(1,5,7) r3(1) [folded at2(2)] refl, of 0])
      (simp add: at2(3) CreatedStatus_def)
  have at3: "threads (calls s3) 0 = Waiting (AddIndex (?m 1))" "pending s3 0 = Some (?request, 1, 0)"
    by (simp_all add: s3(4,5) at2)
  obtain e where "repository_add r3 (?m 1) = (Inl e, r3)" "code e = IndexAlreadyExists"
    using r3(2) repository_add_taken [of r3 "?m 1"] by (auto simp: failure_def)
  then have conflict: "repository_add (shared (calls s3)) (?m 1) = (Inl e, r3)" "status (error_response e) = 409"
    by (simp_all add: s3(3) status_error_response)
  obtain s4 where s4: "?work s4" "mutex (calls s4) = None"
    "served s4 = served s3 @ [((?request, \<lparr>now_reading = 1, started_reading = 0, stopped_reading = 0\<rparr>),
      finish_request (AddIndex (?m 1)) (Added (Inl e))
        (elapsed_between \<lparr>now_reading = 1, started_reading = 0, stopped_reading = 0\<rparr>))]"
    by (rule add_index_completes [OF s3(1,2) at3 conflict(1) refl, of 0])
  have "finish_request (AddIndex (?m 1)) (Added (Inl e)) elapsed = error_response e" for elapsed
    by (simp only: finish_request.simps sum.case)
  then have "map (\<lambda>x. status (snd x)) (served s4) = [201, 409]"
    by (simp only: s4(3) map_append s3(6) list.map snd_conv conflict(2) append.simps)
  then show thesis using s4(1,2) by (intro that)
qed

subsection \<open>Properties\<close>

text \<open>
  C20. Overlapping requests are answered as if each had had the server for itself: however the workers
  interleave, the responses are those of the handlers run one after the other, in the order in which
  their calls left the mutex, each on what the one before it left and with the clocks it read; and
  whenever no call holds the mutex, what is stored is what that sequence leaves.
\<close>

theorem overlapping_requests_linearize:
  assumes "working json h s"
  shows "fst (in_turn json h empty_repository (map fst (served s))) = map snd (served s)
    \<and> (mutex (calls s) = None \<longrightarrow> shared (calls s) = snd (in_turn json h empty_repository (map fst (served s))))"
proof -
  from working_invariant [OF assms] have "system_invariant (calls s)"
    and "in_turn json h empty_repository (map fst (served s))
      = (map snd (served s), snd (run_repository empty_repository (calls_of (calls s))))"
    by (auto simp: served_in_turn_def reachable_invariant)
  then show ?thesis by (auto simp: system_invariant_def split: option.splits)
qed

theorem overlapping_requests_linearize_witness:
  "\<exists>s. working text_reader new_health_service s \<and> map (\<lambda>x. status (snd x)) (served s) = [201, 409]
    \<and> map status (fst (in_turn text_reader new_health_service empty_repository (map fst (served s)))) = [201, 409]"
proof -
  obtain s where s: "working text_reader new_health_service s" "map (\<lambda>x. status (snd x)) (served s) = [201, 409]"
    by (rule two_creates_overlap)
  from overlapping_requests_linearize [OF s(1)]
  have "map status (fst (in_turn text_reader new_health_service empty_repository (map fst (served s))))
      = map (\<lambda>x. status (snd x)) (served s)"
    by (simp add: comp_def)
  with s show ?thesis by metis
qed

text \<open>
  C3. The API holds under concurrency: in every state of the workers, the responses are those of a run of
  the abstract API from the empty catalog, and whenever no call holds the mutex the repository holds
  what the run leaves.
\<close>

theorem overlapping_requests_refine_api:
  assumes "working json h s" and "length (served s) * MaxBatchDocuments \<le> 2 ^ 32"
  shows "\<exists>events A. api_run Map.empty events A \<and> list_all2 event_answer events (map snd (served s))
    \<and> (mutex (calls s) = None \<longrightarrow> repository_holds (shared (calls s)) A)"
proof -
  from working_invariant [OF assms(1)] have inv: "system_invariant (calls s)" "served_in_turn json h s"
    by (auto simp: reachable_invariant)
  have "catalog_bounded Map.empty 0" by (simp add: catalog_bounded_def)
  from in_turn_run [OF memory.holds_new this, of "map fst (served s)" json h] assms(2) inv
  show ?thesis unfolding served_in_turn_def system_invariant_def by fastforce
qed

theorem overlapping_requests_refine_api_witness:
  "\<exists>s events A. working text_reader new_health_service s \<and> length (served s) = 2
    \<and> api_run Map.empty events A \<and> repository_holds (shared (calls s)) A"
proof -
  obtain s where s: "working text_reader new_health_service s" "map (\<lambda>x. status (snd x)) (served s) = [201, 409]"
    "mutex (calls s) = None"
    by (rule two_creates_overlap)
  from s(2) have "length (map (\<lambda>x. status (snd x)) (served s)) = 2" by simp
  then have two: "length (served s) = 2" by simp
  then have "length (served s) * MaxBatchDocuments \<le> 2 ^ 32" by (simp add: MaxBatchDocuments_def)
  from overlapping_requests_refine_api [OF s(1) this] s two show ?thesis by blast
qed

end
