(* ===== verification/Json_Text.thy ===== *)
theory Json_Text
  imports Text_Reader
begin

text \<open>
  JSON as text (RFC 8259): concrete trees with all their blanks, the text and the value of each tree, and
  which trees are well formed. \<open>parses_json\<close> states what simdjson documents of a body that is such a
  text; the properties of the routes over bytes name it as a hypothesis, and the reader of
  \<open>Text_Reader\<close> satisfies it. The trees are a part of JSON on which the documented limits of the
  library are not met: numbers of at most 100 characters with an exponent of at most two digits, so
  that they fit a double; escapes \<open>\u\<close> only below 128; at most 1000 levels; valid UTF-8.
\<close>

subsection \<open>Concrete trees\<close>

text \<open>
  The first string of an item or a pair is the blanks before it, the last one the blanks after it; a
  pair has the key as a literal, with the blanks on both sides of its colon.
\<close>

datatype json_text =
    SNumber string
  | SString string                 \<comment> \<open>the literal, with its quotes\<close>
  | SBoolean bool
  | SNull
  | SEmptyArray string
  | SArray items
  | SEmptyObject string
  | SObject pairs
  and items =
    LastItem string json_text string
  | Item string json_text string items
  and pairs =
    LastPair string string string string json_text string
  | Pair string string string string json_text string pairs

primrec written :: "json_text \<Rightarrow> string"
  and items_text :: "items \<Rightarrow> string"
  and pairs_text :: "pairs \<Rightarrow> string" where
  "written (SNumber n) = n"
| "written (SString l) = l"
| "written (SBoolean b) = (if b then ''true'' else ''false'')"
| "written SNull = ''null''"
| "written (SEmptyArray b) = CHR ''['' # b @ '']''"
| "written (SArray its) = CHR ''['' # items_text its"
| "written (SEmptyObject b) = CHR ''{'' # b @ ''}''"
| "written (SObject ps) = CHR ''{'' # pairs_text ps"
| "items_text (LastItem b v a) = b @ written v @ a @ '']''"
| "items_text (Item b v a its) = b @ written v @ a @ '','' @ items_text its"
| "pairs_text (LastPair b k c d v a) = b @ k @ c @ '':'' @ d @ written v @ a @ ''}''"
| "pairs_text (Pair b k c d v a ps) = b @ k @ c @ '':'' @ d @ written v @ a @ '','' @ pairs_text ps"

text \<open>The string a literal stands for; \<open>None\<close> when it is not one.\<close>

definition literal_value :: "string \<Rightarrow> string option" where
  "literal_value l = (case read_json_string l of Some (v, []) \<Rightarrow> Some v | _ \<Rightarrow> None)"

definition literal_string :: "string \<Rightarrow> string" where
  "literal_string l = (case literal_value l of Some v \<Rightarrow> v | None \<Rightarrow> [])"

primrec json_of :: "json_text \<Rightarrow> json"
  and items_json :: "items \<Rightarrow> json list"
  and pairs_json :: "pairs \<Rightarrow> (string \<times> json) list" where
  "json_of (SNumber n) = Number"
| "json_of (SString l) = Text (literal_string l)"
| "json_of (SBoolean b) = Boolean b"
| "json_of SNull = Null"
| "json_of (SEmptyArray b) = Arr []"
| "json_of (SArray its) = Arr (items_json its)"
| "json_of (SEmptyObject b) = Obj []"
| "json_of (SObject ps) = Obj (pairs_json ps)"
| "items_json (LastItem b v a) = [json_of v]"
| "items_json (Item b v a its) = json_of v # items_json its"
| "pairs_json (LastPair b k c d v a) = [(literal_string k, json_of v)]"
| "pairs_json (Pair b k c d v a ps) = (literal_string k, json_of v) # pairs_json ps"

text \<open>The elements of an array and the members of an object, as they are written.\<close>

fun item_list :: "items \<Rightarrow> json_text list" where
  "item_list (LastItem b v a) = [v]"
| "item_list (Item b v a its) = v # item_list its"

fun pair_list :: "pairs \<Rightarrow> (string \<times> json_text) list" where
  "pair_list (LastPair b k c d v a) = [(k, v)]"
| "pair_list (Pair b k c d v a ps) = (k, v) # pair_list ps"

fun elements_of :: "json_text \<Rightarrow> json_text list" where
  "elements_of (SArray its) = item_list its"
| "elements_of s = []"

lemma items_json_list: "items_json its = map json_of (item_list its)"
  by (induction its rule: item_list.induct) simp_all

subsection \<open>Well-formed trees\<close>

definition blank :: "string \<Rightarrow> bool" where
  "blank b \<longleftrightarrow> list_all is_json_space b"

text \<open>A number of RFC 8259 section 6, part by part: what follows the digits, a fraction, an exponent.\<close>

definition digits :: "string \<Rightarrow> bool" where
  "digits s \<longleftrightarrow> s \<noteq> [] \<and> list_all is_digit s"

fun number_exponent :: "string \<Rightarrow> bool" where
  "number_exponent [] = True"
| "number_exponent (c # s) \<longleftrightarrow> c \<in> set ''eE''
     \<and> (let ds = (if take 1 s \<in> {''+'', ''-''} then drop 1 s else s) in digits ds \<and> length ds \<le> 2)"

fun number_fraction :: "string \<Rightarrow> bool" where
  "number_fraction [] = True"
| "number_fraction (c # s) \<longleftrightarrow>
     (if c = CHR ''.'' then takeWhile is_digit s \<noteq> [] \<and> number_exponent (dropWhile is_digit s)
      else number_exponent (c # s))"

definition number_literal :: "string \<Rightarrow> bool" where
  "number_literal n \<longleftrightarrow> length n \<le> 100
     \<and> (let m = (if take 1 n = ''-'' then drop 1 n else n); whole = takeWhile is_digit m
        in whole \<noteq> [] \<and> (hd whole = CHR ''0'' \<longrightarrow> whole = ''0'') \<and> number_fraction (dropWhile is_digit m))"

primrec well_formed :: "json_text \<Rightarrow> bool"
  and well_formed_items :: "items \<Rightarrow> bool"
  and well_formed_pairs :: "pairs \<Rightarrow> bool" where
  "well_formed (SNumber n) = number_literal n"
| "well_formed (SString l) = (literal_value l \<noteq> None)"
| "well_formed (SBoolean b) = True"
| "well_formed SNull = True"
| "well_formed (SEmptyArray b) = blank b"
| "well_formed (SArray its) = well_formed_items its"
| "well_formed (SEmptyObject b) = blank b"
| "well_formed (SObject ps) = well_formed_pairs ps"
| "well_formed_items (LastItem b v a) = (blank b \<and> well_formed v \<and> blank a)"
| "well_formed_items (Item b v a its) = (blank b \<and> well_formed v \<and> blank a \<and> well_formed_items its)"
| "well_formed_pairs (LastPair b k c d v a) =
     (blank b \<and> literal_value k \<noteq> None \<and> blank c \<and> blank d \<and> well_formed v \<and> blank a)"
| "well_formed_pairs (Pair b k c d v a ps) =
     (blank b \<and> literal_value k \<noteq> None \<and> blank c \<and> blank d \<and> well_formed v \<and> blank a \<and> well_formed_pairs ps)"

text \<open>UTF-8 of RFC 3629: the second byte of a sequence has a range of its own after E0, ED, F0 and F4.\<close>

definition byte_in :: "nat \<Rightarrow> nat \<Rightarrow> char \<Rightarrow> bool" where
  "byte_in low high c \<longleftrightarrow> low \<le> of_char c \<and> of_char c \<le> high"

fun valid_utf8 :: "string \<Rightarrow> bool" where
  "valid_utf8 [] = True"
| "valid_utf8 (a # s) =
     (if byte_in 0 0x7F a then valid_utf8 s
      else (case s of
        [] \<Rightarrow> False
      | b # s1 \<Rightarrow>
          if byte_in 0xC2 0xDF a then byte_in 0x80 0xBF b \<and> valid_utf8 s1
          else (case s1 of
            [] \<Rightarrow> False
          | c # s2 \<Rightarrow>
              if byte_in 0xE0 0xEF a then
                byte_in (if a = CHR 0xE0 then 0xA0 else 0x80) (if a = CHR 0xED then 0x9F else 0xBF) b
                \<and> byte_in 0x80 0xBF c \<and> valid_utf8 s2
              else (case s2 of
                [] \<Rightarrow> False
              | d # s3 \<Rightarrow>
                  byte_in 0xF0 0xF4 a
                  \<and> byte_in (if a = CHR 0xF0 then 0x90 else 0x80) (if a = CHR 0xF4 then 0x8F else 0xBF) b
                  \<and> byte_in 0x80 0xBF c \<and> byte_in 0x80 0xBF d \<and> valid_utf8 s3))))"

text \<open>A body that is the text of the tree, with blanks around it, within the limits of the library.\<close>

definition body_of :: "string \<Rightarrow> json_text \<Rightarrow> string \<Rightarrow> string" where
  "body_of before s after = before @ written s @ after"

definition json_body :: "string \<Rightarrow> json_text \<Rightarrow> string \<Rightarrow> bool" where
  "json_body before s after \<longleftrightarrow>
     blank before \<and> well_formed s \<and> blank after \<and> valid_utf8 (body_of before s after)
     \<and> nesting (json_of s) \<le> 1000 \<and> length (body_of before s after) < 2 ^ 32"

subsection \<open>What the library does with such a body\<close>

text \<open>
  A value that is read, and asked for what it is not: \<open>get_string()\<close> gives a string for a string only,
  \<open>is_null()\<close> tells whether it is null.
\<close>

definition answers_value :: "'h simdjson \<Rightarrow> 'h \<Rightarrow> json \<Rightarrow> bool" where
  "answers_value lib v t \<longleftrightarrow> reads lib v t
     \<and> value_get_string lib v = (case t of Text x \<Rightarrow> Some x | _ \<Rightarrow> None)
     \<and> value_is_null lib v = Some (t = Null)"

definition answers_member :: "'h simdjson \<Rightarrow> 'h option \<Rightarrow> string \<times> json \<Rightarrow> bool" where
  "answers_member lib f m \<longleftrightarrow> (\<exists>w. f = Some w \<and> field_unescaped_key lib w = Some (fst m)
     \<and> answers_value lib (field_value lib w) (snd m))"

text \<open>
  An element of the array of the document. An object gives its text up to the next token, so with the
  blanks that follow it, and can be read again after it is rewound; anything else is not an object.
\<close>

definition answers_element :: "'h simdjson \<Rightarrow> 'h option \<Rightarrow> json_text \<Rightarrow> bool" where
  "answers_element lib e s \<longleftrightarrow> (\<exists>v. e = Some v \<and>
     (case json_of s of
        Obj ms \<Rightarrow> \<exists>obj after moved rewound. value_get_object lib v = Some obj
          \<and> object_raw_json lib obj = Some (written s @ after, moved) \<and> blank after
          \<and> object_reset lib moved = Some rewound
          \<and> list_all2 (answers_member lib) (object_fields lib rewound) ms
      | _ \<Rightarrow> value_get_object lib v = None))"

definition answers_document :: "'h simdjson \<Rightarrow> 'h \<Rightarrow> json_text \<Rightarrow> bool" where
  "answers_document lib document s \<longleftrightarrow> document_at_end lib document
     \<and> (case json_of s of
          Arr ts \<Rightarrow> \<exists>array. document_get_array lib document = Some array
            \<and> list_all2 (answers_element lib) (array_elements lib array) (elements_of s)
        | _ \<Rightarrow> document_get_array lib document = None)
     \<and> (case json_of s of
          Obj ms \<Rightarrow> \<exists>obj. document_get_object lib document = Some obj
            \<and> list_all2 (answers_member lib) (object_fields lib obj) ms
        | _ \<Rightarrow> document_get_object lib document = None)"

definition parses_json :: "'h simdjson \<Rightarrow> bool" where
  "parses_json lib \<longleftrightarrow> (\<forall>before s after. json_body before s after \<longrightarrow>
     (\<exists>document. iterate lib (body_of before s after) = Some document \<and> answers_document lib document s))"

lemma parses_jsonE:
  assumes "parses_json lib" and "json_body before s after"
  obtains document where "iterate lib (body_of before s after) = Some document" "answers_document lib document s"
  using assms unfolding parses_json_def by blast

end
