(* ===== verification/Json_Reader.thy ===== *)
theory Json_Reader
  imports Json_Text
begin

text \<open>
  The reader of \<open>Text_Reader\<close> does what \<open>parses_json\<close> asks of a library: the hypothesis can be met.
\<close>

subsection \<open>Blanks, literals and numbers\<close>

lemma skip_blank: "blank b \<Longrightarrow> skip (b @ s) = skip s"
  by (induction b) (simp_all add: blank_def skip_def)

lemma skip_none [simp]: "\<not> is_json_space c \<Longrightarrow> skip (c # s) = c # s" "skip [] = []"
  by (simp_all add: skip_def)

lemma skip_all [simp]: "blank b \<Longrightarrow> skip b = []"
  using skip_blank [of b "[]"] by simp

lemma not_space [simp]:
  "\<not> is_json_space (CHR 0x22)" "\<not> is_json_space (CHR '','')" "\<not> is_json_space (CHR '':'')"
  "\<not> is_json_space (CHR ''['')" "\<not> is_json_space (CHR '']'')" "\<not> is_json_space (CHR ''{'')"
  "\<not> is_json_space (CHR ''}'')" "\<not> is_json_space (CHR ''t'')" "\<not> is_json_space (CHR ''f'')"
  "\<not> is_json_space (CHR ''n'')"
  by (simp_all add: is_json_space_def)

lemma read_char_append: "read_char s = Some (c, r) \<Longrightarrow> read_char (s @ t) = Some (c, r @ t)"
  by (cases s) (auto split: if_splits list.splits)

lemma read_chars_append: "read_chars s = Some (v, r) \<Longrightarrow> read_chars (s @ t) = Some (v, r @ t)"
proof (induction s arbitrary: v rule: read_chars.induct)
  case (1 s)
  show ?case
  proof (cases "s \<noteq> [] \<and> hd s = CHR 0x22")
    case True
    with "1.prems" show ?thesis by (auto simp: read_chars.simps [of s] read_chars.simps [of "s @ t"])
  next
    case False
    with "1.prems" obtain c rest w where w: "read_char s = Some (c, rest)" "read_chars rest = Some (w, r)"
      "v = c # w"
      by (auto simp: read_chars.simps [of s] split: option.splits)
    from w(1) have "s \<noteq> []" by auto
    with False have "\<not> (s @ t \<noteq> [] \<and> hd (s @ t) = CHR 0x22)" by simp
    with "1.IH" [OF False w(1) refl w(2)] w(3) read_char_append [OF w(1)] show ?thesis
      by (simp add: read_chars.simps [of "s @ t"])
  qed
qed

lemma literal_read:
  assumes "literal_value l \<noteq> None"
  shows "read_json_string (l @ t) = Some (literal_string l, t)"
    and "\<exists>l'. l = CHR 0x22 # l'"
proof -
  from assms obtain v where v: "literal_value l = Some v" by blast
  then have l: "read_json_string l = Some (v, [])"
    by (auto simp: literal_value_def split: option.splits list.splits)
  then obtain l' where "l = CHR 0x22 # l'" by (cases l) (auto simp: read_json_string_def split: if_splits)
  with l v read_chars_append [of l' v "[]" t] show "read_json_string (l @ t) = Some (literal_string l, t)"
    and "\<exists>l'. l = CHR 0x22 # l'"
    by (simp_all add: read_json_string_def literal_string_def)
qed

lemma digit_number_character [simp]: "is_digit c \<Longrightarrow> is_number_character c"
  by (simp add: is_number_character_def)

lemma digits_number: "digits s \<Longrightarrow> list_all is_number_character s"
  by (auto simp: digits_def list_all_iff)

lemma exponent_number:
  assumes "number_exponent s"
  shows "list_all is_number_character s"
proof (cases s)
  case (Cons c r)
  from assms Cons have c: "c = CHR ''e'' \<or> c = CHR ''E''"
    and ds: "digits (if take 1 r \<in> {''+'', ''-''} then drop 1 r else r)"
    by (auto simp: Let_def)
  have "list_all is_number_character r"
  proof (cases r)
    case r: (Cons x xs)
    show ?thesis
    proof (cases "x = CHR ''+'' \<or> x = CHR ''-''")
      case True
      with ds r have "digits xs" by auto
      moreover have "is_number_character x" using True by (auto simp: is_number_character_def)
      ultimately show ?thesis by (simp add: r digits_number)
    next
      case False
      with ds r have "digits r" by simp
      then show ?thesis by (rule digits_number)
    qed
  qed simp
  moreover have "is_number_character c" using c by (auto simp: is_number_character_def)
  ultimately show ?thesis by (simp add: Cons)
qed simp

lemma takeWhile_number: "list_all is_number_character (dropWhile is_digit s) \<Longrightarrow> list_all is_number_character s"
  by (induction s) (auto split: if_splits)

lemma fraction_number:
  assumes "number_fraction s"
  shows "list_all is_number_character s"
proof (cases s)
  case (Cons c r)
  show ?thesis
  proof (cases "c = CHR ''.''")
    case True
    with assms Cons have "number_exponent (dropWhile is_digit r)" by simp
    then have "list_all is_number_character r" by (rule takeWhile_number [OF exponent_number])
    moreover have "is_number_character (CHR ''.'')" by (simp add: is_number_character_def)
    ultimately show ?thesis by (simp add: Cons True)
  next
    case False
    with assms Cons have "number_exponent s" by (simp del: number_exponent.simps)
    then show ?thesis by (rule exponent_number)
  qed
qed simp

lemma number_literal_characters:
  assumes "number_literal n"
  shows "list_all is_number_character n" and "\<exists>c n'. n = c # n' \<and> (is_digit c \<or> c = CHR ''-'')"
proof -
  obtain m where m: "m = (if take 1 n = ''-'' then drop 1 n else n)" "takeWhile is_digit m \<noteq> []"
    "number_fraction (dropWhile is_digit m)"
    using assms by (auto simp: number_literal_def Let_def)
  have "list_all is_number_character m" by (rule takeWhile_number [OF fraction_number [OF m(3)]])
  moreover obtain c r where "m = c # r" "is_digit c" using m(2) by (cases m) (auto split: if_splits)
  moreover have "is_number_character (CHR ''-'')" by (simp add: is_number_character_def)
  ultimately show "list_all is_number_character n" and "\<exists>c n'. n = c # n' \<and> (is_digit c \<or> c = CHR ''-'')"
    using m(1) by (cases n; simp split: if_splits)+
qed

text \<open>What may follow a value: nothing a number would go on with.\<close>

definition stops :: "string \<Rightarrow> bool" where
  "stops rest \<longleftrightarrow> dropWhile is_number_character rest = rest"

lemma stops_simps [simp]:
  "stops []" "stops (CHR '','' # s)" "stops (CHR '']'' # s)" "stops (CHR ''}'' # s)"
  by (simp_all add: stops_def is_number_character_def is_digit_def)

lemma stops_blank [simp]: "blank b \<Longrightarrow> stops s \<Longrightarrow> stops (b @ s)"
  by (cases b) (auto simp: stops_def blank_def is_json_space_def is_number_character_def is_digit_def)

subsection \<open>Reading a tree\<close>

primrec tree_of :: "json_text \<Rightarrow> text_value"
  and item_trees :: "items \<Rightarrow> text_value list"
  and pair_trees :: "pairs \<Rightarrow> (string \<times> text_value) list" where
  "tree_of (SNumber n) = VNumber"
| "tree_of (SString l) = VString (literal_string l)"
| "tree_of (SBoolean b) = VBoolean b"
| "tree_of SNull = VNull"
| "tree_of (SEmptyArray b) = VArray []"
| "tree_of (SArray its) = VArray (item_trees its)"
| "tree_of (SEmptyObject b) = VObject (written (SEmptyObject b)) []"
| "tree_of (SObject ps) = VObject (written (SObject ps)) (pair_trees ps)"
| "item_trees (LastItem b v a) = [tree_of v]"
| "item_trees (Item b v a its) = tree_of v # item_trees its"
| "pair_trees (LastPair b k c d v a) = [(literal_string k, tree_of v)]"
| "pair_trees (Pair b k c d v a ps) = (literal_string k, tree_of v) # pair_trees ps"

lemma written_first:
  assumes "well_formed s"
  obtains c r where "written s = c # r" "\<not> is_json_space c" "c \<noteq> CHR '']''"
proof -
  have "\<exists>c r. written s = c # r \<and> \<not> is_json_space c \<and> c \<noteq> CHR '']''"
  proof (cases s)
    case (SNumber n)
    with assms obtain c n' where n: "n = c # n'" "is_digit c \<or> c = CHR ''-''"
      using number_literal_characters(2) [of n] by auto
    from n(2) have "\<not> is_json_space c" "c \<noteq> CHR '']''"
      by (auto simp: is_json_space_def is_digit_def)
    with n(1) SNumber show ?thesis by simp
  next
    case (SString l)
    with assms obtain l' where "l = CHR 0x22 # l'" using literal_read(2) [of l] by auto
    with SString show ?thesis by simp
  next
    case (SBoolean b)
    then show ?thesis by (cases b) simp_all
  qed simp_all
  with that show thesis by blast
qed

lemma items_text_first: "well_formed_items its \<Longrightarrow> take 1 (skip (items_text its @ t)) \<noteq> '']''"
  by (cases its) (auto simp: skip_blank elim: written_first)

lemma pairs_text_first: "well_formed_pairs ps \<Longrightarrow> take 1 (skip (pairs_text ps @ t)) \<noteq> ''}''"
proof (cases ps)
  case (LastPair b k c d v a)
  assume "well_formed_pairs ps"
  with LastPair literal_read(2) [of k] show ?thesis by (auto simp: skip_blank)
next
  case (Pair b k c d v a ps')
  assume "well_formed_pairs ps"
  with Pair literal_read(2) [of k] show ?thesis by (auto simp: skip_blank)
qed

lemma read_number: "number_literal n \<Longrightarrow> stops rest \<Longrightarrow> read_value (Suc fuel) (n @ rest) = Some (VNumber, rest)"
proof -
  assume n: "number_literal n" and "stops rest"
  then have "dropWhile is_number_character (n @ rest) = rest"
    using number_literal_characters(1) by (simp add: stops_def list_all_iff dropWhile_append2)
  moreover obtain c n' where c: "n = c # n'" "is_digit c \<or> c = CHR ''-''"
    using number_literal_characters(2) [OF n] by blast
  moreover from c(2) have "is_number_character c" "c \<notin> set ''ntf'' \<and> c \<noteq> CHR 0x22"
    by (auto simp: is_number_character_def is_digit_def)
  ultimately show ?thesis by simp
qed

lemma skip_written [simp]: "well_formed s \<Longrightarrow> skip (written s @ t) = written s @ t"
  by (auto elim: written_first)

lemma read_written:
  "well_formed s \<Longrightarrow> length (written s) \<le> fuel \<Longrightarrow> stops rest \<Longrightarrow>
     read_value fuel (written s @ rest) = Some (tree_of s, rest)"
  "well_formed_items its \<Longrightarrow> length (items_text its) \<le> fuel \<Longrightarrow>
     read_elements fuel (items_text its @ rest) = Some (item_trees its, rest)"
  "well_formed_pairs ps \<Longrightarrow> length (pairs_text ps) \<le> fuel \<Longrightarrow>
     read_members fuel (pairs_text ps @ rest) = Some (pair_trees ps, rest)"
proof (induction s and its and ps arbitrary: fuel rest and fuel rest and fuel rest)
  case (SNumber n)
  then obtain f where "fuel = Suc f" using number_literal_characters(2) [of n] by (cases fuel) auto
  with SNumber read_number [of n] show ?case by simp
next
  case (SString l)
  then obtain l' where "l = CHR 0x22 # l'" using literal_read(2) [of l] by auto
  with SString literal_read(1) [of l rest] show ?case by (cases fuel) auto
next
  case (SBoolean b)
  then show ?case by (cases fuel; cases b) auto
next
  case SNull
  then show ?case by (cases fuel) auto
next
  case (SEmptyArray b)
  then show ?case by (cases fuel) (auto simp: skip_blank is_number_character_def is_digit_def)
next
  case (SArray its)
  then obtain f where f: "fuel = Suc f" "length (items_text its) \<le> f" by (cases fuel) auto
  with SArray.IH [of f rest] SArray.prems items_text_first [of its rest] show ?case
    by (simp add: is_number_character_def is_digit_def)
next
  case (SEmptyObject b)
  then show ?case
    by (cases fuel) (auto simp: skip_blank is_number_character_def is_digit_def)
next
  case (SObject ps)
  then obtain f where f: "fuel = Suc f" "length (pairs_text ps) \<le> f" by (cases fuel) auto
  with SObject.IH [of f rest] SObject.prems pairs_text_first [of ps rest] show ?case
    by (simp add: is_number_character_def is_digit_def)
next
  case (LastItem b v a)
  then obtain f where f: "fuel = Suc f" "length (written v) \<le> f" by (cases fuel) auto
  with LastItem.IH [of f "a @ '']'' @ rest"] LastItem.prems show ?case
    by (simp add: skip_blank)
next
  case (Item b v a its)
  then obtain f where f: "fuel = Suc f" "length (written v) \<le> f" "length (items_text its) \<le> f"
    by (cases fuel) auto
  with Item.IH(1) [of f "a @ '','' @ items_text its @ rest"] Item.IH(2) [of f rest] Item.prems show ?case
    by (simp add: skip_blank)
next
  case (LastPair b k c d v a)
  then obtain f k' where f: "fuel = Suc f" "length (written v) \<le> f" "k = CHR 0x22 # k'"
    using literal_read(2) [of k] by (cases fuel) auto
  with LastPair.IH [of f "a @ ''}'' @ rest"] LastPair.prems
    literal_read(1) [of k "c @ '':'' @ d @ written v @ a @ ''}'' @ rest"] show ?case
    by (simp add: skip_blank)
next
  case (Pair b k c d v a ps)
  then obtain f k' where f: "fuel = Suc f" "length (written v) \<le> f" "length (pairs_text ps) \<le> f" "k = CHR 0x22 # k'"
    using literal_read(2) [of k] by (cases fuel) auto
  with Pair.IH(1) [of f "a @ '','' @ pairs_text ps @ rest"] Pair.IH(2) [of f rest] Pair.prems
    literal_read(1) [of k "c @ '':'' @ d @ written v @ a @ '','' @ pairs_text ps @ rest"] show ?case
    by (simp add: skip_blank)
qed

subsection \<open>What the handles answer\<close>

text \<open>The operations of \<open>text_reader\<close> on the handle of a value.\<close>

lemma text_reader_value [simp]:
  "value_type text_reader (AtValue v) = Some (type_of_value v)"
  "value_get_string text_reader (AtValue v) = (case v of VString x \<Rightarrow> Some x | _ \<Rightarrow> None)"
  "value_is_null text_reader (AtValue v) = Some (v = VNull)"
  "value_get_object text_reader (AtValue v) = (case v of VObject raw ms \<Rightarrow> Some (AtValue v) | _ \<Rightarrow> None)"
  "value_get_array text_reader (AtValue v) = (case v of VArray es \<Rightarrow> Some (AtValue v) | _ \<Rightarrow> None)"
  "value_get_double text_reader (AtValue v) = (case v of VNumber \<Rightarrow> Some () | _ \<Rightarrow> None)"
  "value_get_bool text_reader (AtValue v) = (case v of VBoolean b \<Rightarrow> Some b | _ \<Rightarrow> None)"
  by (simp_all add: text_reader_def split: text_value.split)

lemma text_reader_inside [simp]:
  "array_elements text_reader (AtValue (VArray es)) = map (\<lambda>e. Some (AtValue e)) es"
  "object_fields text_reader (AtValue (VObject raw ms)) = map (\<lambda>(k, v). Some (AtField k v)) ms"
  "object_raw_json text_reader (AtValue (VObject raw ms)) = Some (raw, AtEnd (VObject raw ms))"
  "object_reset text_reader (AtEnd v) = Some (AtValue v)"
  "field_unescaped_key text_reader (AtField k v) = Some k"
  "field_value text_reader (AtField k v) = AtValue v"
  by (simp_all add: text_reader_def)

lemma reads_tree:
  "reads text_reader (AtValue (tree_of s)) (json_of s)"
  "list_all2 (reads_element text_reader) (map (\<lambda>e. Some (AtValue e)) (item_trees its)) (items_json its)"
  "list_all2 (reads_member text_reader) (map (\<lambda>(k, v). Some (AtField k v)) (pair_trees ps)) (pairs_json ps)"
  by (induction s and its and ps) (simp_all add: reads_simps reads_element_def [abs_def] reads_member_def [abs_def])

lemma answers_tree: "answers_value text_reader (AtValue (tree_of s)) (json_of s)"
  using reads_tree(1) [of s] by (cases s) (simp_all add: answers_value_def)

lemma answers_pairs:
  "list_all2 (answers_member text_reader) (map (\<lambda>(k, v). Some (AtField k v)) (pair_trees ps)) (pairs_json ps)"
proof (induction ps)
qed (simp_all add: answers_member_def answers_tree)

lemma answers_element_tree: "answers_element text_reader (Some (AtValue (tree_of s))) s"
proof (cases s)
  case (SObject ps)
  with answers_pairs [of ps] show ?thesis by (auto simp: answers_element_def blank_def intro: exI [of _ "[]"])
next
  case (SEmptyObject b)
  then show ?thesis by (auto simp: answers_element_def blank_def intro: exI [of _ "[]"])
qed (simp_all add: answers_element_def)

lemma answers_items:
  "list_all2 (answers_element text_reader) (map (\<lambda>e. Some (AtValue e)) (item_trees its)) (item_list its)"
  by (induction its rule: item_list.induct) (simp_all add: answers_element_tree)

lemma text_reader_document [simp]:
  "document_get_array text_reader (AtDocument v after) = (case v of VArray es \<Rightarrow> Some (AtValue v) | _ \<Rightarrow> None)"
  "document_get_object text_reader (AtDocument v after) = (case v of VObject raw ms \<Rightarrow> Some (AtValue v) | _ \<Rightarrow> None)"
  "document_at_end text_reader (AtDocument v after) \<longleftrightarrow> after = []"
  by (simp_all add: text_reader_def split: text_value.split)

lemma text_reader_parses: "parses_json text_reader"
  unfolding parses_json_def
proof (intro allI impI)
  fix before s after
  assume body: "json_body before s after"
  then have ws: "blank before" "well_formed s" "blank after" by (simp_all add: json_body_def)
  have "stops after" using stops_blank [OF ws(3), of "[]"] by simp
  with read_written(1) [OF ws(2), of "Suc (length (body_of before s after))" after]
  have "iterate text_reader (body_of before s after) = Some (AtDocument (tree_of s) [])"
    using ws by (simp add: text_reader_def body_of_def skip_blank del: read_value.simps)
  moreover have "answers_document text_reader (AtDocument (tree_of s) []) s"
    using answers_items answers_pairs by (cases s) (simp_all add: answers_document_def)
  ultimately show "\<exists>document. iterate text_reader (body_of before s after) = Some document
      \<and> answers_document text_reader document s" by blast
qed

end
