(* ===== verification/Body_Text.thy ===== *)
theory Body_Text
  imports Index_Routes Json_Reader
begin

text \<open>
  What the two parsers of request bodies make of JSON as text, on any library that \<open>parses_json\<close>: the
  verdict on a body is a function of the tree it is the text of, stated here without handles, passes
  or accumulators, and the parsers of \<open>Document_Routes\<close> and \<open>Index_Routes\<close> compute it.
\<close>

subsection \<open>Between the two ways of reading\<close>

lemma answers_member_reads: "answers_member lib f m \<Longrightarrow> reads_member lib f m"
  by (auto simp: answers_member_def reads_member_def answers_value_def)

lemma answers_members_read: "list_all2 (answers_member lib) fs ms \<Longrightarrow> list_all2 (reads_member lib) fs ms"
  by (erule list_all2_mono) (rule answers_member_reads)

lemma pairs_text_last: "pairs_text ps \<noteq> [] \<and> last (pairs_text ps) = CHR ''}''"
  by (induction ps rule: pair_list.induct) simp_all

text \<open>The blanks the library leaves after an object are cut off, and nothing of the object is.\<close>

lemma written_object_end:
  assumes "json_of s = Obj ms"
  obtains pre where "written s = pre @ ''}''"
proof -
  have "written s \<noteq> [] \<and> last (written s) = CHR ''}''"
    using assms pairs_text_last by (cases s) simp_all
  with that [of "butlast (written s)"] show thesis by (metis append_butlast_last_id)
qed

lemma source_of_object:
  assumes "json_of s = Obj ms" and "blank after"
  shows "without_trailing_whitespace (written s @ after) = written s"
proof -
  obtain pre where "written s = pre @ ''}''" by (rule written_object_end [OF assms(1)])
  moreover have "list_all (\<lambda>c. c \<in> set [CHR '' '', CHR 0x09, CHR 0x0A, CHR 0x0D]) after"
    using assms(2) unfolding blank_def is_json_space_def .
  ultimately show ?thesis using without_trailing_whitespace_brace [of after pre] by simp
qed

subsection \<open>The verdict on a batch\<close>

definition element_verdict :: "nat \<Rightarrow> json_text \<Rightarrow> document result" where
  "element_verdict index s =
     (case json_of s of
        Obj ms \<Rightarrow>
          if list_all (\<lambda>m. nesting (snd m) \<le> 128) ms
          then Inr \<lparr>doc_source = written s, searchable_text = top_level_texts ms\<rparr>
          else failure MalformedRequest ''A document nests more than 128 levels deep.''
      | _ \<Rightarrow> failure MalformedRequest
               (''The batch's element at index '' @ to_string index @ '' is not a JSON object.''))"

text \<open>The first error of a list of results, or all their values.\<close>

fun all_or_first :: "'a result list \<Rightarrow> 'a list result" where
  "all_or_first [] = Inr []"
| "all_or_first (r # rs) = (case r of Inl e \<Rightarrow> Inl e | Inr x \<Rightarrow> map_sum id ((#) x) (all_or_first rs))"

definition elements_verdict :: "nat \<Rightarrow> json_text list \<Rightarrow> document list result" where
  "elements_verdict start elements = all_or_first (map (\<lambda>(index, s). element_verdict index s) (enumerate start elements))"

definition batch_verdict :: "json_text \<Rightarrow> document list result" where
  "batch_verdict s =
     (case json_of s of
        Arr ts \<Rightarrow>
          (case elements_verdict 0 (take 10000 (elements_of s)) of
             Inl e \<Rightarrow> Inl e
           | Inr docs \<Rightarrow>
               if 10000 < length (elements_of s) then failure MalformedRequest ''A batch holds at most 10000 documents.''
               else if docs = [] then failure MalformedRequest ''A batch holds at least one document.''
               else Inr docs)
      | _ \<Rightarrow> failure MalformedRequest ''The request body must be a JSON array of documents.'')"

lemma elements_verdict_Cons:
  "elements_verdict start (s # elements) =
     (case element_verdict start s of
        Inl e \<Rightarrow> Inl e
      | Inr d \<Rightarrow> map_sum id ((#) d) (elements_verdict (Suc start) elements))"
  by (cases "element_verdict start s") (simp_all add: elements_verdict_def)

lemma elements_verdict_Nil [simp]: "elements_verdict start [] = Inr []"
  by (simp add: elements_verdict_def)

lemma read_document_verdict:
  assumes "answers_element lib (Some v) s"
  shows "read_document lib v index = element_verdict index s"
proof (cases "\<exists>ms. json_of s = Obj ms")
  case True
  then obtain ms where ms: "json_of s = Obj ms" by blast
  with assms obtain obj after moved rewound where h: "value_get_object lib v = Some obj"
    "object_raw_json lib obj = Some (written s @ after, moved)" "blank after"
    "object_reset lib moved = Some rewound" "list_all2 (answers_member lib) (object_fields lib rewound) ms"
    by (auto simp: answers_element_def)
  have "to_string 128 = ''128''" by code_simp
  with ms h source_of_object [OF ms h(3)] read_searchable_text_reads [OF answers_members_read [OF h(5)], of "[]"]
  show ?thesis
    by (simp add: read_document_def element_verdict_def read_searchable_text_def MaxNestingDepth_def
        malformed_batch_def failure_def failure_of_def)
next
  case False
  with assms show ?thesis
    by (cases "json_of s")
      (simp_all add: answers_element_def read_document_def element_verdict_def not_an_object_def malformed_batch_def)
qed

lemma read_documents_from_verdict:
  assumes "list_all2 (answers_element lib) es ss" and "length docs \<le> MaxBatchDocuments"
  shows "read_documents_from lib es docs =
    (case elements_verdict (length docs) (take (MaxBatchDocuments - length docs) ss) of
       Inl e \<Rightarrow> Inl e
     | Inr new \<Rightarrow>
         if MaxBatchDocuments < length docs + length ss then too_many_documents
         else if docs @ new = [] then malformed_batch ''A batch holds at least one document.''
         else Inr (docs @ new))"
  using assms
proof (induction es ss arbitrary: docs rule: list_all2_induct)
  case Nil
  then show ?case by simp
next
  case (Cons e es s ss)
  from Cons.hyps(1) obtain v where e: "e = Some v" by (auto simp: answers_element_def)
  show ?case
  proof (cases "length docs = MaxBatchDocuments")
    case True
    then show ?thesis by simp
  next
    case False
    with Cons.prems obtain n where n: "MaxBatchDocuments - length docs = Suc n"
      "MaxBatchDocuments - Suc (length docs) = n" "Suc (length docs) \<le> MaxBatchDocuments"
      by (cases "MaxBatchDocuments - length docs") auto
    show ?thesis
    proof (cases "element_verdict (length docs) s")
      case (Inl fault)
      with n(1) False show ?thesis
        by (simp add: e read_document_verdict [OF Cons.hyps(1) [unfolded e]] elements_verdict_Cons failure_of_def)
    next
      case (Inr d)
      with n False Cons.IH [of "docs @ [d]"] show ?thesis
        by (cases "elements_verdict (Suc (length docs)) (take n ss)")
          (simp_all add: e read_document_verdict [OF Cons.hyps(1) [unfolded e]] elements_verdict_Cons)
    qed
  qed
qed

lemma to_string_batch: "to_string 10000 = ''10000''"
proof -
  have "to_string 10000 = [digit_char 1, digit_char 0, digit_char 0, digit_char 0, digit_char 0]"
    by (simp add: to_string_step to_string_small)
  also have "\<dots> = ''10000''" by code_simp
  finally show ?thesis .
qed

lemma batch_of_json_text:
  assumes "parses_json lib" and "json_body before s after"
  shows "parse_document_batch lib (body_of before s after) = batch_verdict s"
proof -
  from parses_jsonE [OF assms] obtain document where
    document: "iterate lib (body_of before s after) = Some document" "answers_document lib document s" .
  show ?thesis
  proof (cases "\<exists>ts. json_of s = Arr ts")
    case True
    then obtain ts where ts: "json_of s = Arr ts" by blast
    with document(2) obtain array where array: "document_get_array lib document = Some array"
      "list_all2 (answers_element lib) (array_elements lib array) (elements_of s)" "document_at_end lib document"
      by (auto simp: answers_document_def)
    from read_documents_from_verdict [OF array(2), of "[]"] ts document(1) array(1,3) show ?thesis
      by (simp add: parse_document_batch_def read_documents_def batch_verdict_def MaxBatchDocuments_def
          too_many_documents_def malformed_batch_def failure_of_def failure_def to_string_batch
          split: sum.split)
  next
    case False
    with document show ?thesis
      by (cases "json_of s")
        (simp_all add: answers_document_def parse_document_batch_def batch_verdict_def malformed_batch_def)
  qed
qed

subsection \<open>The verdict on the body of POST /indexes\<close>

text \<open>What is wrong with a member, after the ones before it.\<close>

definition member_fault :: "(string \<times> json) list \<Rightarrow> string \<times> json \<Rightarrow> error option" where
  "member_fault earlier m =
     (let fault = (\<lambda>c detail. Some \<lparr>code = c, message = ''Field `'' @ fst m @ detail\<rparr>) in
      if fst m = ''uid'' then
        (if ''uid'' \<in> fst ` set earlier then fault MalformedRequest ''` appears more than once.''
         else (case snd m of Text _ \<Rightarrow> None | _ \<Rightarrow> fault MalformedRequest ''` must be a string.''))
      else if fst m = ''primaryKey'' then
        (if ''primaryKey'' \<in> fst ` set earlier then fault MalformedRequest ''` appears more than once.''
         else (case snd m of
             Text _ \<Rightarrow> None | Null \<Rightarrow> None | _ \<Rightarrow> fault MalformedRequest ''` must be a string or null.''))
      else Some \<lparr>code = UnknownField, message = ''Unknown field `'' @ fst m @ ''`.''\<rparr>)"

fun first_fault :: "(string \<times> json) list \<Rightarrow> (string \<times> json) list \<Rightarrow> error option" where
  "first_fault earlier [] = None"
| "first_fault earlier (m # ms) =
     (case member_fault earlier m of Some e \<Rightarrow> Some e | None \<Rightarrow> first_fault (earlier @ [m]) ms)"

text \<open>The text of a member, if it is there and is one.\<close>

definition text_member :: "(string \<times> json) list \<Rightarrow> string \<Rightarrow> string option" where
  "text_member ms k = (case map_of ms k of Some (Text x) \<Rightarrow> Some x | _ \<Rightarrow> None)"

definition index_verdict :: "json_text \<Rightarrow> create_index_command result" where
  "index_verdict s =
     (case json_of s of
        Obj ms \<Rightarrow>
          (case first_fault [] ms of
             Some e \<Rightarrow> Inl e
           | None \<Rightarrow>
               (case text_member ms ''uid'' of
                  None \<Rightarrow> failure MalformedRequest ''Field `uid` is required.''
                | Some u \<Rightarrow>
                    map_sum id (\<lambda>v. \<lparr>command_uid = v, command_primary_key = text_member ms ''primaryKey''\<rparr>)
                      (parse_uid u)))
      | _ \<Rightarrow> failure MalformedRequest ''The request body must be a JSON object.'')"

text \<open>The fields that were read so far, of the members before.\<close>

definition fields_of :: "(string \<times> json) list \<Rightarrow> CreateIndexFields" where
  "fields_of ms =
     \<lparr>field_uid = text_member ms ''uid'', has_primary_key = (''primaryKey'' \<in> fst ` set ms),
      field_primary_key = text_member ms ''primaryKey''\<rparr>"

lemma fields_of_Nil [simp]: "fields_of [] = no_fields"
  by (simp add: fields_of_def no_fields_def text_member_def)

lemma text_member_absent: "k \<notin> fst ` set ms \<Longrightarrow> text_member ms k = None"
  by (metis map_of_eq_None_iff option.simps(4) text_member_def)

lemma text_member_snoc:
  "text_member (ms @ [(k, t)]) k' =
     (if k' \<in> fst ` set ms \<or> k' \<noteq> k then text_member ms k' else (case t of Text x \<Rightarrow> Some x | _ \<Rightarrow> None))"
proof (cases "map_of ms k'")
  case None
  then have "k' \<notin> fst ` set ms" by (simp only: map_of_eq_None_iff not_False_eq_True)
  with None show ?thesis by (simp add: text_member_def map_add_def)
next
  case (Some x)
  then have "k' \<in> fst ` set ms" by (metis map_of_eq_None_iff option.distinct(1))
  with Some show ?thesis by (simp add: text_member_def map_add_def)
qed

lemma read_field_verdict:
  assumes "answers_member lib (Some w) (k, t)" and "text_member earlier ''uid'' = None \<longleftrightarrow> ''uid'' \<notin> fst ` set earlier"
  shows "read_field lib w (fields_of earlier) =
    (case member_fault earlier (k, t) of Some e \<Rightarrow> Inl e | None \<Rightarrow> Inr (fields_of (earlier @ [(k, t)])))"
proof -
  from assms(1) have w: "field_unescaped_key lib w = Some k"
    "value_get_string lib (field_value lib w) = (case t of Text x \<Rightarrow> Some x | _ \<Rightarrow> None)"
    "value_is_null lib (field_value lib w) = Some (t = Null)"
    by (auto simp: answers_member_def answers_value_def)
  consider (uid) "k = ''uid''" | (key) "k = ''primaryKey''" | (other) "k \<noteq> ''uid''" "k \<noteq> ''primaryKey''" by blast
  then show ?thesis
  proof cases
    case uid
    with w assms(2) show ?thesis
      by (cases t) (auto simp: read_field_def read_uid_def UidField_def member_fault_def fields_of_def
          text_member_snoc appears_more_than_once_def field_must_be_def malformed_def failure_def)
  next
    case key
    with w show ?thesis
      by (cases t) (auto simp: read_field_def read_primary_key_def UidField_def PrimaryKeyField_def member_fault_def
          fields_of_def text_member_snoc text_member_absent appears_more_than_once_def field_must_be_def malformed_def failure_def
          Let_def)
  next
    case other
    with w show ?thesis
      by (simp add: read_field_def UidField_def PrimaryKeyField_def member_fault_def unknown_field_def failure_def)
  qed
qed

lemma read_fields_from_verdict:
  assumes "list_all2 (answers_member lib) fs ms"
    and "text_member earlier ''uid'' = None \<longleftrightarrow> ''uid'' \<notin> fst ` set earlier"
  shows "read_fields_from lib fs (fields_of earlier) =
    (case first_fault earlier ms of Some e \<Rightarrow> Inl e | None \<Rightarrow> Inr (fields_of (earlier @ ms)))"
  using assms
proof (induction fs ms arbitrary: earlier rule: list_all2_induct)
  case Nil
  then show ?case by simp
next
  case (Cons f fs m ms)
  obtain w where w: "f = Some w" using Cons.hyps(1) by (auto simp: answers_member_def)
  obtain k t where m: "m = (k, t)" by (cases m)
  note field = read_field_verdict [OF Cons.hyps(1) [unfolded w m] Cons.prems]
  show ?case
  proof (cases "member_fault earlier m")
    case (Some e)
    with field show ?thesis by (simp add: w m failure_of_def)
  next
    case None
    have "text_member (earlier @ [m]) ''uid'' = None \<longleftrightarrow> ''uid'' \<notin> fst ` set (earlier @ [m])"
      using None Cons.prems by (cases t) (auto simp: m text_member_snoc member_fault_def Let_def split: if_splits)
    from Cons.IH [OF this] field None show ?thesis by (simp add: w m split: option.split)
  qed
qed

lemma index_request_of_json_text:
  assumes "parses_json lib" and "json_body before s after"
  shows "parse_create_index_request lib (body_of before s after) = index_verdict s"
proof -
  from parses_jsonE [OF assms] obtain document where
    document: "iterate lib (body_of before s after) = Some document" "answers_document lib document s" .
  show ?thesis
  proof (cases "\<exists>ms. json_of s = Obj ms")
    case True
    then obtain ms where ms: "json_of s = Obj ms" by blast
    with document(2) obtain obj where obj: "document_get_object lib document = Some obj"
      "list_all2 (answers_member lib) (object_fields lib obj) ms" "document_at_end lib document"
      by (auto simp: answers_document_def)
    have "text_member [] ''uid'' = None \<longleftrightarrow> ''uid'' \<notin> fst ` set []" by (simp add: text_member_def)
    from read_fields_from_verdict [OF obj(2) this]
    have "read_fields lib obj = (case first_fault [] ms of Some e \<Rightarrow> Inl e | None \<Rightarrow> Inr (fields_of ms))"
      by (simp only: read_fields_def fields_of_Nil append_Nil)
    with ms document(1) obj(1,3) show ?thesis
      by (simp add: parse_create_index_request_def index_verdict_def to_command_def malformed_def failure_of_def
          fields_of_def split: option.split sum.split)
  next
    case False
    with document show ?thesis
      by (cases "json_of s")
        (simp_all add: answers_document_def parse_create_index_request_def index_verdict_def malformed_def)
  qed
qed

subsection \<open>Which texts are accepted\<close>

lemma all_or_first_Inr: "all_or_first rs = Inr xs \<longleftrightarrow> list_all2 (\<lambda>r x. r = Inr x) rs xs"
proof (induction rs arbitrary: xs)
  case (Cons r rs)
  then show ?case by (cases r; cases xs; cases "all_or_first rs") auto
qed auto

definition document_of :: "json_text \<Rightarrow> document \<Rightarrow> bool" where
  "document_of s d \<longleftrightarrow> (\<exists>ms. json_of s = Obj ms \<and> list_all (\<lambda>m. nesting (snd m) \<le> 128) ms
     \<and> d = \<lparr>doc_source = written s, searchable_text = top_level_texts ms\<rparr>)"

lemma element_verdict_Inr: "element_verdict n s = Inr d \<longleftrightarrow> document_of s d"
  by (auto simp: element_verdict_def document_of_def split: json.split)

lemma elements_verdict_Inr: "elements_verdict n ss = Inr ds \<longleftrightarrow> list_all2 document_of ss ds"
proof (induction ss arbitrary: n ds)
  case (Cons s ss)
  show ?case
  proof (cases "element_verdict n s")
    case (Inl e)
    then have "\<not> document_of s d" for d using element_verdict_Inr [of n s d] by simp
    with Inl show ?thesis by (auto simp: elements_verdict_Cons list_all2_Cons1)
  next
    case (Inr d)
    have "elements_verdict n (s # ss) = Inr ds \<longleftrightarrow> (\<exists>ds'. ds = d # ds' \<and> elements_verdict (Suc n) ss = Inr ds')"
      using Inr by (cases "elements_verdict (Suc n) ss") (auto simp: elements_verdict_Cons)
    moreover have "document_of s d' \<longleftrightarrow> d' = d" for d' using Inr element_verdict_Inr [of n s d'] by auto
    ultimately show ?thesis by (auto simp: Cons.IH list_all2_Cons1)
  qed
qed auto

lemma batch_verdict_Inr:
  "batch_verdict s = Inr ds \<longleftrightarrow>
     (\<exists>ts. json_of s = Arr ts) \<and> length (elements_of s) \<in> {1..10000} \<and> list_all2 document_of (elements_of s) ds"
proof (cases "json_of s")
  case (Arr ts)
  show ?thesis
  proof (cases "10000 < length (elements_of s)")
    case True
    with Arr show ?thesis by (simp add: batch_verdict_def failure_def split: sum.split)
  next
    case False
    then have "length ds = length (elements_of s)" if "list_all2 document_of (elements_of s) ds" for ds
      using that by (simp add: list_all2_lengthD)
    with False Arr elements_verdict_Inr [of 0 "elements_of s"] show ?thesis
      by (cases "elements_verdict 0 (elements_of s)")
        (auto simp: batch_verdict_def failure_def Suc_le_eq split: if_splits)
  qed
qed (simp_all add: batch_verdict_def failure_def)

subsection \<open>Properties\<close>

text \<open>
  C7. The parser of batches against a reference over the text of the body: on any library that parses
  JSON, the verdict on a body within its limits is the first fault of its elements, in order, then that
  there are too many, then that there are none; and otherwise, for each element, its own bytes without
  the blanks around them and its top-level strings.
\<close>

theorem batch_body_verdict:
  assumes "parses_json lib" and "json_body before s after"
  shows "parse_document_batch lib (body_of before s after) = batch_verdict s"
  by (rule batch_of_json_text [OF assms])

definition sample_batch_text :: json_text where
  "sample_batch_text = SArray (LastItem '' '' (SObject (LastPair [] ''\"title\"'' [] '' '' (SString ''\"DDR5 kit\"'') [])) '' '')"

lemma sample_batch_body: "json_body [] sample_batch_text ''  ''"
proof -
  have "blank []" "well_formed sample_batch_text" "blank ''  ''" "valid_utf8 (body_of [] sample_batch_text ''  '')"
    "nesting (json_of sample_batch_text) = 3" "length (body_of [] sample_batch_text ''  '') = 27"
    by code_simp+
  then show ?thesis by (simp add: json_body_def)
qed

lemma sample_batch_facts:
  "body_of [] sample_batch_text ''  '' = ''[ {\"title\": \"DDR5 kit\"} ]  ''"
  "batch_verdict sample_batch_text
     = Inr [\<lparr>doc_source = ''{\"title\": \"DDR5 kit\"}'', searchable_text = [''DDR5 kit'']\<rparr>]"
proof -
  show "body_of [] sample_batch_text ''  '' = ''[ {\"title\": \"DDR5 kit\"} ]  ''" by code_simp
  have "literal_string ''\"title\"'' = ''title''" "literal_string ''\"DDR5 kit\"'' = ''DDR5 kit''" by code_simp+
  then have "document_of (SObject (LastPair [] ''\"title\"'' [] '' '' (SString ''\"DDR5 kit\"'') []))
      \<lparr>doc_source = ''{\"title\": \"DDR5 kit\"}'', searchable_text = [''DDR5 kit'']\<rparr>"
    by (simp add: document_of_def)
  then show "batch_verdict sample_batch_text
      = Inr [\<lparr>doc_source = ''{\"title\": \"DDR5 kit\"}'', searchable_text = [''DDR5 kit'']\<rparr>]"
    by (simp add: batch_verdict_Inr sample_batch_text_def)
qed

theorem batch_body_verdict_witness:
  "parse_document_batch text_reader ''[ {\"title\": \"DDR5 kit\"} ]  ''
     = Inr [\<lparr>doc_source = ''{\"title\": \"DDR5 kit\"}'', searchable_text = [''DDR5 kit'']\<rparr>]"
  using batch_body_verdict [OF text_reader_parses sample_batch_body] by (simp add: sample_batch_facts)

text \<open>
  C13. The parser of POST /indexes against a reference over the text of the body: the first member that is
  unknown, repeated or of a wrong type is the error; then a missing uid, then an invalid one; and
  otherwise the command holds the two values.
\<close>

theorem index_body_verdict:
  assumes "parses_json lib" and "json_body before s after"
  shows "parse_create_index_request lib (body_of before s after) = index_verdict s"
  by (rule index_request_of_json_text [OF assms])

definition sample_index_text :: json_text where
  "sample_index_text = SObject (Pair [] ''\"uid\"'' [] [] (SString ''\"a\"'') [] (LastPair '' '' ''\"uid\"'' [] [] SNull []))"

theorem index_body_verdict_witness:
  "parse_create_index_request text_reader ''{\"uid\":\"a\", \"uid\":null}''
     = failure MalformedRequest ''Field `uid` appears more than once.''"
proof -
  have "blank []" "well_formed sample_index_text" "valid_utf8 (body_of [] sample_index_text [])"
    "nesting (json_of sample_index_text) = 2" "length (body_of [] sample_index_text []) = 23"
    by code_simp+
  then have ok: "json_body [] sample_index_text []" by (simp add: json_body_def)
  have "body_of [] sample_index_text [] = ''{\"uid\":\"a\", \"uid\":null}''" by code_simp
  moreover have "literal_string ''\"uid\"'' = ''uid''" by code_simp
  then have "index_verdict sample_index_text = failure MalformedRequest ''Field `uid` appears more than once.''"
    by (simp add: index_verdict_def sample_index_text_def member_fault_def failure_def)
  ultimately show ?thesis using index_body_verdict [OF text_reader_parses ok] by simp
qed

end
