(* ===== verification/Posted.thy ===== *)
theory Posted
  imports Session Body_Text
begin

text \<open>
  One request of a client, from the text of its body through the whole server to the bytes of the answer
  and to what is stored: the two POST routes, on any JSON text within the limits of the parser.
\<close>

subsection \<open>From the text of a batch to the store\<close>

text \<open>
  POST /indexes/{uid}/documents from the text of its body to the answer and the store: a client posts any
  JSON text within the limits of the parser. An invalid uid is answered 400; then the first fault of
  the text is, with its code and its message; neither changes the services. Otherwise the answer is 200
  with the counts of the batch, the primary key of the index if it has one and the elapsed time, and the
  documents of the text are stored, in their order, after those the index has.
\<close>

theorem posted_batch_answered:
  fixes lib :: "('q, 'p) http_library" and json :: "'h simdjson"
  assumes "message_laws lib" and "make_server lib options = Inr fresh" and "parses_json json"
    and "repository_holds (stored_in w) A" and "room_for_batch A"
    and "reaches lib process (leta_server lib net json fresh) bytes ''/indexes/:uid/documents'' q"
    and "is_json_content_type (q_header lib q ''Content-Type'')"
    and "q_path_params lib q = [(''uid'', uid_text)]"
    and "q_body lib q = body_of before s after" and "json_body before s after"
  defines "refused \<equiv> \<lambda>e p w'. p_status lib p = 400
      \<and> read_object (p_body lib p) = Some (error_members e) \<and> services (application w') = services (application w)"
    and "elapsed \<equiv> shd (stl (steady_clock (application w))) - shd (steady_clock (application w))"
  shows "case process (leta_server lib net json fresh) bytes w of (p, w') \<Rightarrow>
    (case parse_uid uid_text of
       Inl e \<Rightarrow> refused e p w'
     | Inr u \<Rightarrow>
         (case batch_verdict s of
            Inl e \<Rightarrow> refused e p w'
          | Inr ds \<Rightarrow>
              (case target_entry A u (shd (clock (services (application w)))) of (m, old) \<Rightarrow>
                p_status lib p = 200
                \<and> read_object (p_body lib p) = Some
                    ([(''received'', JInt (int (length ds))), (''indexed'', JInt (int (length ds)))]
                     @ (case primary_key m of None \<Rightarrow> [] | Some key \<Rightarrow> [(''primaryKey'', JString key)])
                     @ [(''processingTimeMs'', JInt (milliseconds_of elapsed))])
                \<and> repository_holds (stored_in w') (A(uid_value u \<mapsto> (m, old @ ds))))))"
proof -
  note answered = reached_documents [OF assms(1,2,6) json_post_accepted [OF assms(7)] assms(8), where w = w]
  have parsed: "parse_document_batch json (q_body lib q) = batch_verdict s"
    unfolding assms(9) by (rule batch_of_json_text [OF assms(3,10)])
  have holds: "repository_holds (repository (services (application w))) A"
    using assms(4) by (simp add: stored_in_def)
  show ?thesis
  proof (cases "parse_uid uid_text")
    case (Inl e)
    with answered uid_error_status [OF Inl] show ?thesis
      by (simp add: case_prod_beta add_documents_response_def Let_def refused_def says_def body_error_response wire)
  next
    case uid: (Inr u)
    show ?thesis
    proof (cases "batch_verdict s")
      case (Inl e)
      with answered uid parsed batch_error_status [OF parsed [unfolded Inl]] show ?thesis
        by (simp add: case_prod_beta add_documents_response_def Let_def refused_def says_def body_error_response wire)
    next
      case (Inr ds)
      with answered add_documents_response_accepts [OF holds assms(5) uid parsed [unfolded Inr]] uid show ?thesis
        by (simp add: case_prod_beta says_def wire ingest_members_def stored_in_def elapsed_def)
    qed
  qed
qed

text \<open>A batch whose second element is a number.\<close>

definition faulty_batch_text :: json_text where
  "faulty_batch_text = SArray (Item [] (SEmptyObject []) [] (LastItem [] (SNumber ''5'') []))"

definition faulty_batch_request :: plain_request where
  "faulty_batch_request = sample_batch_request\<lparr>sent_body := ''[{},5]''\<rparr>"

theorem posted_batch_answered_witness:
  "\<exists>fresh p w'. make_server plain_library default_options = Inr fresh
    \<and> plain_process (\<lambda>bytes. (''/indexes/:uid/documents'', faulty_batch_request))
        (leta_server plain_library sample_listener text_reader fresh) ''a'' (quiet_world start_routes) = (p, w')
    \<and> p_status plain_library p = 400
    \<and> read_object (p_body plain_library p) = Some
        [(''code'', JString ''malformed_request''),
         (''message'', JString ''The batch's element at index 1 is not a JSON object.''),
         (''type'', JString ''invalid_request'')]"
proof -
  obtain fresh :: "(plain_request, plain_response, in_memory_repository route_state) library_server"
    where fresh: "make_server plain_library default_options = Inr fresh"
    using make_server_default by blast
  let ?decode = "\<lambda>bytes :: string. (''/indexes/:uid/documents'', faulty_batch_request)"
  let ?sent = "plain_process ?decode (leta_server plain_library sample_listener text_reader fresh) ''a''
    (quiet_world start_routes)"
  have empty: "repository_holds (stored_in (quiet_world start_routes)) Map.empty" by (simp add: memory.holds_new)
  have reach: "reaches plain_library (plain_process ?decode)
      (leta_server plain_library sample_listener text_reader fresh) ''a'' ''/indexes/:uid/documents'' faulty_batch_request"
    by (rule sample_reaches [OF fresh]) simp_all
  have "blank []" "well_formed faulty_batch_text" "valid_utf8 (body_of [] faulty_batch_text [])"
    "nesting (json_of faulty_batch_text) = 2" "length (body_of [] faulty_batch_text []) = 6"
    by code_simp+
  then have ok: "json_body [] faulty_batch_text []" by (simp add: json_body_def)
  have written_body: "body_of [] faulty_batch_text [] = ''[{},5]''" by code_simp
  have request: "is_json_content_type (q_header plain_library faulty_batch_request ''Content-Type'')"
    "q_path_params plain_library faulty_batch_request = [(''uid'', ''products'')]"
    "q_body plain_library faulty_batch_request = body_of [] faulty_batch_text []"
    unfolding written_body by (simp_all add: plain_library_def faulty_batch_request_def sample_batch_request_def
        header_or_empty_def json_type_sample)
  have one: "to_string (Suc 0) = ''1''" by code_simp
  have verdict: "batch_verdict faulty_batch_text = failure MalformedRequest
      ''The batch's element at index 1 is not a JSON object.''"
    by (simp add: batch_verdict_def faulty_batch_text_def elements_verdict_Cons element_verdict_def failure_def one)
  from posted_batch_answered [OF plain_message_laws fresh text_reader_parses empty room_for_batch_empty reach request ok]
  have "p_status plain_library (fst ?sent) = 400 \<and> read_object (p_body plain_library (fst ?sent)) = Some
      (error_members \<lparr>code = MalformedRequest, message = ''The batch's element at index 1 is not a JSON object.''\<rparr>)"
    by (simp add: sample_batch(1) verdict failure_def case_prod_beta)
  then show ?thesis using fresh by (intro exI [of _ fresh] exI [of _ "fst ?sent"] exI [of _ "snd ?sent"])
    (simp add: error_members_def)
qed

subsection \<open>From a request to an index\<close>

lemma create_taken_answer:
  assumes "repository_holds (repository (services s)) A"
    and "parse_create_index_request json payload = Inr command"
    and "A (uid_value (command_uid command)) \<noteq> None"
  defines "answer \<equiv> create_index_response in_memory_port json payload s"
  shows "fst answer = error_response \<lparr>code = IndexAlreadyExists,
      message = ''Index `'' @ uid_value (command_uid command) @ ''` already exists.''\<rparr>"
    and "repository (services (snd answer)) = repository (services s)"
proof -
  have "indexes (repository (services s)) (uid_value (command_uid command)) \<noteq> None"
    using assms(3) by (simp add: repository_holds_None [OF assms(1)])
  then obtain stored where "indexes (repository (services s))
      (key_of (created_index command (shd (clock (services s))))) = Some stored"
    by auto
  from repository_add_taken [OF this]
  show "fst answer = error_response \<lparr>code = IndexAlreadyExists,
      message = ''Index `'' @ uid_value (command_uid command) @ ''` already exists.''\<rparr>"
    and "repository (services (snd answer)) = repository (services s)"
    by (simp_all add: answer_def create_index_response_def assms(2) create_index_def created_index_def Let_def
        failure_def failure_of_def already_exists_message_def)
qed

definition index_request_text :: json_text where
  "index_request_text = SObject (LastPair [] ''\"uid\"'' [] [] (SString ''\"products\"'') [])"

lemma index_request_body:
  "json_body [] index_request_text []"
  "body_of [] index_request_text [] = ''{\"uid\":\"products\"}''"
  "index_verdict index_request_text = Inr \<lparr>command_uid = IndexUid ''products'', command_primary_key = None\<rparr>"
proof -
  have "blank []" "well_formed index_request_text" "valid_utf8 (body_of [] index_request_text [])"
    "nesting (json_of index_request_text) = 2" "length (body_of [] index_request_text []) = 18"
    by code_simp+
  then show "json_body [] index_request_text []" by (simp add: json_body_def)
  show "body_of [] index_request_text [] = ''{\"uid\":\"products\"}''" by code_simp
  have "literal_string ''\"uid\"'' = ''uid''" "literal_string ''\"products\"'' = ''products''" by code_simp+
  then show "index_verdict index_request_text
      = Inr \<lparr>command_uid = IndexUid ''products'', command_primary_key = None\<rparr>"
    by (simp add: index_verdict_def index_request_text_def member_fault_def text_member_def sample_batch(1))
qed

definition create_request :: plain_request where
  "create_request =
     \<lparr>sent_headers = [(''Content-Type'', ''application/json'')], sent_path = ''/indexes'',
      sent_body = ''{\"uid\":\"products\"}'', sent_params = []\<rparr>"

text \<open>A client that creates the index when it writes ''c'' and posts a batch otherwise.\<close>

definition two_requests :: "string \<Rightarrow> string \<times> plain_request" where
  "two_requests bytes =
     (if bytes = ''c'' then (''/indexes'', create_request)
      else (''/indexes/:uid/documents'', sample_batch_request))"

lemma create_request_facts:
  "is_json_content_type (q_header plain_library create_request ''Content-Type'')"
  "q_body plain_library create_request = body_of [] index_request_text []"
  "two_requests ''c'' = (''/indexes'', create_request)"
  by (simp_all add: index_request_body(2) plain_library_def create_request_def header_or_empty_def
      json_type_sample two_requests_def)

text \<open>
  POST /indexes from the text of its body to the answer and the store: a client posts any JSON text
  within the limits of the parser. The verdict on the text decides: its first fault is answered 400,
  with the code and the message of the fault; a uid that is taken is answered 409; a free one 201, with
  the index as it is stored from then on. Neither error changes what is stored.
\<close>

theorem posted_index_answered:
  fixes lib :: "('q, 'p) http_library" and json :: "'h simdjson"
  assumes "message_laws lib" and "make_server lib options = Inr fresh" and "parses_json json"
    and "repository_holds (stored_in w) A"
    and "reaches lib process (leta_server lib net json fresh) bytes ''/indexes'' q"
    and "is_json_content_type (q_header lib q ''Content-Type'')"
    and "q_body lib q = body_of before s after" and "json_body before s after"
  defines "now \<equiv> shd (clock (services (application w)))"
  shows "case process (leta_server lib net json fresh) bytes w of (p, w') \<Rightarrow>
    (case index_verdict s of
       Inl e \<Rightarrow> p_status lib p = 400 \<and> read_object (p_body lib p) = Some (error_members e)
         \<and> stored_in w' = stored_in w
     | Inr command \<Rightarrow>
         (case A (uid_value (command_uid command)) of
            None \<Rightarrow> p_status lib p = 201
              \<and> read_object (p_body lib p) = Some
                  [(''uid'', JString (uid_value (command_uid command))),
                   (''primaryKey'', case command_primary_key command of None \<Rightarrow> JNull | Some k \<Rightarrow> JString k),
                   (''createdAt'', JString (timestamp_text now)), (''updatedAt'', JString (timestamp_text now))]
              \<and> repository_holds (stored_in w') (A(uid_value (command_uid command) \<mapsto>
                   (new_index (command_uid command) (command_primary_key command) now, [])))
          | Some entry \<Rightarrow> p_status lib p = 409
              \<and> read_object (p_body lib p) = Some (error_members \<lparr>code = IndexAlreadyExists,
                  message = ''Index `'' @ uid_value (command_uid command) @ ''` already exists.''\<rparr>)
              \<and> stored_in w' = stored_in w))"
proof -
  let ?sent = "process (leta_server lib net json fresh) bytes w"
  note answered = reached_indexes [OF assms(1,2,5) json_post_accepted [OF assms(6)], where w = w]
  have parsed: "parse_create_index_request json (q_body lib q) = index_verdict s"
    unfolding assms(7) by (rule index_request_of_json_text [OF assms(3,8)])
  have holds: "repository_holds (repository (services (application w))) A"
    using assms(4) by (simp add: stored_in_def)
  note facts = says_def status_error_response body_error_response wire
  show ?thesis
  proof (cases "index_verdict s")
    case (Inl e)
    with parse_create_index_refuses [of json "q_body lib q"] answered parsed show ?thesis
      by (simp add: case_prod_beta create_index_response_def facts refuses_with_400_def stored_in_def)
  next
    case verdict: (Inr command)
    show ?thesis
    proof (cases "A (uid_value (command_uid command))")
      case None
      with answered create_index_response_creates [OF holds parsed [unfolded verdict] None] verdict show ?thesis
        by (simp add: case_prod_beta says_def index_json_render wire index_members_def created_index_def
            now_def stored_in_def)
    next
      case (Some entry)
      then have "A (uid_value (command_uid command)) \<noteq> None" by simp
      from create_taken_answer [OF holds parsed [unfolded verdict] this] answered verdict Some show ?thesis
        by (simp add: case_prod_beta facts stored_in_def)
    qed
  qed
qed

theorem posted_index_answered_witness:
  "\<exists>fresh p w'. make_server plain_library default_options = Inr fresh
    \<and> plain_process two_requests (leta_server plain_library sample_listener text_reader fresh) ''c''
        (quiet_world start_routes) = (p, w')
    \<and> p_status plain_library p = 201 \<and> indexes (stored_in w') ''products'' \<noteq> None"
proof -
  obtain fresh :: "(plain_request, plain_response, in_memory_repository route_state) library_server"
    where fresh: "make_server plain_library default_options = Inr fresh"
    using make_server_default by blast
  let ?sent = "plain_process two_requests (leta_server plain_library sample_listener text_reader fresh) ''c''
    (quiet_world start_routes)"
  have empty: "repository_holds (stored_in (quiet_world start_routes)) Map.empty" by (simp add: memory.holds_new)
  have reach: "reaches plain_library (plain_process two_requests)
      (leta_server plain_library sample_listener text_reader fresh) ''c'' ''/indexes'' create_request"
    by (rule sample_reaches [OF fresh]) (simp_all add: create_request_facts)
  from posted_index_answered [OF plain_message_laws fresh text_reader_parses empty reach
      create_request_facts(1,2) index_request_body(1)]
  have "p_status plain_library (fst ?sent) = 201"
    and holds: "\<exists>m. repository_holds (stored_in (snd ?sent)) [''products'' \<mapsto> (m, [])]"
    by (auto simp: index_request_body(3) case_prod_beta)
  moreover from holds have "indexes (stored_in (snd ?sent)) ''products'' \<noteq> None"
    by (auto dest: repository_holds_None [of _ _ "''products''"])
  ultimately show ?thesis using fresh by (metis prod.collapse)
qed

end
