(* ===== verification/Exact_Session.thy ===== *)
theory Exact_Session
  imports Posted
begin

text \<open>
  A reference implementation of the API, over the texts that clients write and without a server: a
  function from a request and the state of the services to the status and the members of the answer and
  the next state. The server answers every session of such requests with exactly its answers.
\<close>

subsection \<open>The reference\<close>

text \<open>What a client asks; the body of a POST is a JSON text, unless its Content-Type says otherwise.\<close>

datatype client_request =
    AskHealth
  | PostIndex json_text
  | PostBatch string json_text   \<comment> \<open>the uid of the path, as it is written\<close>
  | PostOtherType

record api_state =
  ready :: Readiness
  wall :: "timestamp stream"     \<comment> \<open>what the clock will read\<close>
  steady :: "int stream"         \<comment> \<open>what the steady clock will read\<close>
  kept :: catalog

type_synonym api_answer = "int \<times> member list"

definition answer_index :: "json_text \<Rightarrow> api_state \<Rightarrow> api_answer \<times> api_state" where
  "answer_index s a =
     (case index_verdict s of
        Inl e \<Rightarrow> ((400, error_members e), a)
      | Inr command \<Rightarrow>
          (let k = uid_value (command_uid command);
               index = created_index command (shd (wall a));
               a1 = a\<lparr>wall := stl (wall a)\<rparr>
           in case kept a k of
                None \<Rightarrow> ((201, index_members index), a1\<lparr>kept := (kept a)(k \<mapsto> (index, []))\<rparr>)
              | Some _ \<Rightarrow>
                  ((409, error_members \<lparr>code = IndexAlreadyExists, message = ''Index `'' @ k @ ''` already exists.''\<rparr>),
                   a1)))"

definition answer_batch :: "string \<Rightarrow> json_text \<Rightarrow> api_state \<Rightarrow> api_answer \<times> api_state" where
  "answer_batch uid_text s a =
     (let a1 = a\<lparr>steady := stl (steady a)\<rparr> in
      case parse_uid uid_text of
        Inl e \<Rightarrow> ((400, error_members e), a1)
      | Inr u \<Rightarrow>
          (case batch_verdict s of
             Inl e \<Rightarrow> ((400, error_members e), a1)
           | Inr ds \<Rightarrow>
               (case target_entry (kept a) u (shd (wall a)) of (m, old) \<Rightarrow>
                  ((200, ingest_members (length ds) \<lparr>indexed = length ds, outcome_primary_key = primary_key m\<rparr>
                      (milliseconds_of (shd (steady a1) - shd (steady a)))),
                   a1\<lparr>wall := stl (wall a), steady := stl (steady a1),
                      kept := (kept a)(uid_value u \<mapsto> (m, old @ ds))\<rparr>))))"

fun answer_request :: "client_request \<Rightarrow> api_state \<Rightarrow> api_answer \<times> api_state" where
  "answer_request AskHealth a =
     (case ready a of
        Available \<Rightarrow> ((200, [(''status'', JString ''available'')]), a)
      | Starting \<Rightarrow> ((503, [(''status'', JString ''starting'')]), a))"
| "answer_request (PostIndex s) a = answer_index s a"
| "answer_request (PostBatch uid_text s) a = answer_batch uid_text s a"
| "answer_request PostOtherType a =
     ((400, error_members \<lparr>code = MalformedRequest, message = message non_json_body_error\<rparr>), a)"

fun answer_all :: "client_request list \<Rightarrow> api_state \<Rightarrow> api_answer list \<times> api_state" where
  "answer_all [] a = ([], a)"
| "answer_all (r # rs) a =
     (case answer_request r a of (answer, a1) \<Rightarrow> map_prod ((#) answer) id (answer_all rs a1))"

text \<open>A batch holds at most 10000 documents, so a request adds no more than that to an index.\<close>

lemma batch_verdict_bound: "batch_verdict s = Inr ds \<Longrightarrow> length ds \<le> MaxBatchDocuments"
  by (auto simp: batch_verdict_Inr MaxBatchDocuments_def dest: list_all2_lengthD)

lemma answer_request_bounded:
  assumes "catalog_bounded (kept a) n"
  shows "catalog_bounded (kept (snd (answer_request r a))) (n + MaxBatchDocuments)"
proof -
  have more: "catalog_bounded (kept a) (n + MaxBatchDocuments)"
    using assms by (fastforce simp: catalog_bounded_def)
  have entry: "length (snd (target_entry (kept a) u now)) \<le> n" for u now
    using assms by (auto simp: catalog_bounded_def target_entry_def split: option.split)
  show ?thesis
  proof (cases r)
    case AskHealth
    with more show ?thesis by (cases "ready a") simp_all
  next
    case (PostIndex s)
    with more show ?thesis
      by (auto simp: answer_index_def Let_def catalog_bounded_def split: sum.split option.split)
  next
    case (PostBatch uid_text s)
    have "catalog_bounded ((kept a)(uid_value u \<mapsto> (m, old @ ds))) (n + MaxBatchDocuments)"
      if "batch_verdict s = Inr ds" "target_entry (kept a) u now = (m, old)" for u ds m old now
      using more batch_verdict_bound [OF that(1)] entry [of u now] that(2)
      by (auto simp: catalog_bounded_def)
    with more PostBatch show ?thesis
      by (auto simp: answer_batch_def Let_def split: sum.split prod.split)
  next
    case PostOtherType
    with more show ?thesis by simp
  qed
qed

subsection \<open>The bytes of a request\<close>

definition sends ::
  "('q, 'p) http_library \<Rightarrow> (('q, 'p, 'w) library_server \<Rightarrow> string \<Rightarrow> 'w server_world \<Rightarrow> 'p \<times> 'w server_world)
     \<Rightarrow> ('q, 'p, 'w) library_server \<Rightarrow> string \<Rightarrow> client_request \<Rightarrow> bool" where
  "sends lib process server bytes r =
     (case r of
        AskHealth \<Rightarrow> \<exists>q. reaches_get lib process server bytes ''/health'' q
      | PostIndex s \<Rightarrow> \<exists>q before after. reaches lib process server bytes ''/indexes'' q
          \<and> is_json_content_type (q_header lib q ''Content-Type'')
          \<and> q_body lib q = body_of before s after \<and> json_body before s after
      | PostBatch uid_text s \<Rightarrow> \<exists>q before after. reaches lib process server bytes ''/indexes/:uid/documents'' q
          \<and> is_json_content_type (q_header lib q ''Content-Type'') \<and> q_path_params lib q = [(''uid'', uid_text)]
          \<and> q_body lib q = body_of before s after \<and> json_body before s after
      | PostOtherType \<Rightarrow> \<exists>q pattern. reaches lib process server bytes pattern q
          \<and> \<not> is_json_content_type (q_header lib q ''Content-Type''))"

text \<open>The server's world and the state of the reference.\<close>

definition mirrors :: "in_memory_repository route_state server_world \<Rightarrow> api_state \<Rightarrow> bool" where
  "mirrors w a \<longleftrightarrow> repository_holds (stored_in w) (kept a)
     \<and> clock (services (application w)) = wall a
     \<and> steady_clock (application w) = steady a
     \<and> readiness (health (application w)) = ready a"

definition answers_as :: "('q, 'p) http_library \<Rightarrow> 'p \<Rightarrow> api_answer \<Rightarrow> bool" where
  "answers_as lib p answer \<longleftrightarrow>
     p_status lib p = fst answer \<and> read_object (p_body lib p) = Some (snd answer)"

subsection \<open>What the handlers do to the clocks\<close>

lemma create_index_response_clocks:
  "clock (services (snd (create_index_response port json text s))) =
     (case parse_create_index_request json text of Inl e \<Rightarrow> clock (services s) | Inr _ \<Rightarrow> stl (clock (services s)))"
  "steady_clock (snd (create_index_response port json text s)) = steady_clock s"
  by (auto simp: create_index_response_def Let_def case_prod_beta split: sum.split)

lemma wire_status_not_200: "wire_status (wire_error c) \<noteq> 200"
  by (cases c) simp_all

lemma add_documents_response_clocks:
  assumes "parse_uid uid_text = Inr u" and "parse_document_batch json text = Inr ds"
    and "status (fst (add_documents_response port json uid_text text s)) = 200"
  shows "clock (services (snd (add_documents_response port json uid_text text s))) = stl (clock (services s))"
    and "steady_clock (snd (add_documents_response port json uid_text text s)) = stl (stl (steady_clock s))"
  using assms by (auto simp: add_documents_response_def Let_def case_prod_beta status_error_response wire_status_not_200 split: sum.splits)

lemma add_documents_response_refused:
  assumes "\<And>u ds. parse_uid uid_text = Inr u \<Longrightarrow> parse_document_batch json text \<noteq> Inr ds"
  shows "snd (add_documents_response port json uid_text text s) = s\<lparr>steady_clock := stl (steady_clock s)\<rparr>"
  using assms by (auto simp: add_documents_response_def Let_def split: sum.split)

subsection \<open>One request\<close>

lemma answers_health:
  fixes lib :: "('q, 'p) http_library"
  assumes "message_laws lib" and "make_server lib options = Inr fresh" and "mirrors w a"
    and "sends lib process (leta_server lib net json fresh) bytes AskHealth"
  defines "sent \<equiv> process (leta_server lib net json fresh) bytes w"
  shows "answers_as lib (fst sent) (fst (answer_request AskHealth a)) \<and> mirrors (snd sent) (snd (answer_request AskHealth a))"
proof -
  from assms(4) obtain q where "reaches_get lib process (leta_server lib net json fresh) bytes ''/health'' q"
    by (auto simp: sends_def)
  note reached = reached_health [OF assms(1,2) this, of w, folded sent_def]
  show ?thesis
    using reached assms(3)
    by (cases "ready a") (simp_all add: answers_as_def says_def mirrors_def stored_in_def read_health_response
        del: health_response.simps, simp_all)
qed

lemma answers_other_type:
  fixes lib :: "('q, 'p) http_library"
  assumes "message_laws lib" and "make_server lib options = Inr fresh" and "mirrors w a"
    and "sends lib process (leta_server lib net json fresh) bytes PostOtherType"
  defines "sent \<equiv> process (leta_server lib net json fresh) bytes w"
  shows "answers_as lib (fst sent) (fst (answer_request PostOtherType a))
    \<and> mirrors (snd sent) (snd (answer_request PostOtherType a))"
proof -
  from assms(4) obtain q pattern where reach: "reaches lib process (leta_server lib net json fresh) bytes pattern q"
    and "\<not> is_json_content_type (q_header lib q ''Content-Type'')"
    by (auto simp: sends_def)
  then have "refused_by_type lib Post q" by (simp add: refused_by_type_def ContentTypeHeader_def)
  note reached = reached_refused [OF assms(1,2) reach this, of w, folded sent_def]
  show ?thesis
    using reached assms(3)
    by (simp add: answers_as_def says_def mirrors_def stored_in_def status_error_response body_error_response wire
        error_members_def non_json_body_error_def)
qed

lemma answers_index:
  fixes lib :: "('q, 'p) http_library"
  assumes "message_laws lib" and "make_server lib options = Inr fresh" and "parses_json json" and "mirrors w a"
    and "sends lib process (leta_server lib net json fresh) bytes (PostIndex s)"
  defines "sent \<equiv> process (leta_server lib net json fresh) bytes w"
  shows "answers_as lib (fst sent) (fst (answer_index s a)) \<and> mirrors (snd sent) (snd (answer_index s a))"
proof -
  from assms(5) obtain q before after
    where reach: "reaches lib process (leta_server lib net json fresh) bytes ''/indexes'' q"
      and type: "is_json_content_type (q_header lib q ''Content-Type'')"
      and payload: "q_body lib q = body_of before s after" "json_body before s after"
    by (auto simp: sends_def)
  have holds: "repository_holds (stored_in w) (kept a)" using assms(4) by (simp add: mirrors_def)
  note answered = posted_index_answered [OF assms(1-3) holds reach type payload, folded sent_def]
  have parsed: "parse_create_index_request json (q_body lib q) = index_verdict s"
    unfolding payload(1) by (rule index_request_of_json_text [OF assms(3) payload(2)])
  have after: "application (snd sent) = snd (create_index_response in_memory_port json (q_body lib q) (application w))"
    unfolding sent_def by (rule reached_indexes(2) [OF assms(1,2) reach json_post_accepted [OF type]])
  note state = mirrors_def after create_index_response_clocks health_create_index parsed
  show ?thesis
    using answered assms(4)
    by (simp add: answers_as_def answer_index_def state case_prod_beta index_members_def created_index_def Let_def
        split: sum.split_asm option.split_asm sum.split option.split)
qed

lemma answers_batch:
  fixes lib :: "('q, 'p) http_library"
  assumes "message_laws lib" and "make_server lib options = Inr fresh" and "parses_json json" and "mirrors w a"
    and "room_for_batch (kept a)"
    and "sends lib process (leta_server lib net json fresh) bytes (PostBatch uid_text s)"
  defines "sent \<equiv> process (leta_server lib net json fresh) bytes w"
  shows "answers_as lib (fst sent) (fst (answer_batch uid_text s a)) \<and> mirrors (snd sent) (snd (answer_batch uid_text s a))"
proof -
  from assms(6) obtain q before after
    where reach: "reaches lib process (leta_server lib net json fresh) bytes ''/indexes/:uid/documents'' q"
      and type: "is_json_content_type (q_header lib q ''Content-Type'')"
      and params: "q_path_params lib q = [(''uid'', uid_text)]"
      and payload: "q_body lib q = body_of before s after" "json_body before s after"
    by (auto simp: sends_def)
  have holds: "repository_holds (stored_in w) (kept a)" using assms(4) by (simp add: mirrors_def)
  note answered = posted_batch_answered [OF assms(1-3) holds assms(5) reach type params payload, folded sent_def]
  have parsed: "parse_document_batch json (q_body lib q) = batch_verdict s"
    unfolding payload(1) by (rule batch_of_json_text [OF assms(3) payload(2)])
  let ?call = "add_documents_response in_memory_port json uid_text (q_body lib q) (application w)"
  note reached = reached_documents [OF assms(1,2) reach json_post_accepted [OF type] params, of w, folded sent_def]
  show ?thesis
  proof (cases "\<exists>u ds. parse_uid uid_text = Inr u \<and> batch_verdict s = Inr ds")
    case True
    then obtain u ds where ok: "parse_uid uid_text = Inr u" "batch_verdict s = Inr ds" by blast
    obtain m old where entry: "target_entry (kept a) u (shd (wall a)) = (m, old)" by fastforce
    have "status (fst ?call) = 200" using answered reached(1) ok by (simp add: says_def case_prod_beta)
    note clocks = add_documents_response_clocks [OF ok(1) parsed [unfolded ok(2)] this]
    show ?thesis
      using answered assms(4) ok entry clocks
      by (simp add: answers_as_def answer_batch_def mirrors_def reached(2) health_add_documents case_prod_beta Let_def
          ingest_members_def)
  next
    case False
    then have "snd ?call = (application w)\<lparr>steady_clock := stl (steady_clock (application w))\<rparr>"
      by (intro add_documents_response_refused) (auto simp: parsed)
    with False answered assms(4) reached(2) show ?thesis
      by (auto simp: answers_as_def answer_batch_def mirrors_def stored_in_def case_prod_beta Let_def split: sum.splits)
  qed
qed

lemma answers_request:
  fixes lib :: "('q, 'p) http_library"
  assumes "message_laws lib" and "make_server lib options = Inr fresh" and "parses_json json" and "mirrors w a"
    and "room_for_batch (kept a)" and "sends lib process (leta_server lib net json fresh) bytes r"
  defines "sent \<equiv> process (leta_server lib net json fresh) bytes w"
  shows "answers_as lib (fst sent) (fst (answer_request r a)) \<and> mirrors (snd sent) (snd (answer_request r a))"
proof (cases r)
  case AskHealth
  with answers_health [OF assms(1,2,4)] assms(6) show ?thesis by (simp only: sent_def)
next
  case (PostIndex s)
  with answers_index [OF assms(1-4)] assms(6) show ?thesis by (simp add: sent_def)
next
  case (PostBatch uid_text s)
  with answers_batch [OF assms(1-5)] assms(6) show ?thesis by (simp add: sent_def)
next
  case PostOtherType
  with answers_other_type [OF assms(1,2,4)] assms(6) show ?thesis by (simp only: sent_def)
qed

subsection \<open>A session\<close>

lemma answers_session:
  fixes lib :: "('q, 'p) http_library"
  assumes "message_laws lib" and "make_server lib options = Inr fresh" and "parses_json json"
    and "mirrors w a" and "catalog_bounded (kept a) n" and "n + length requests * MaxBatchDocuments \<le> 2 ^ 32"
    and "list_all2 (sends lib process (leta_server lib net json fresh)) texts requests"
  defines "session \<equiv> serve_all process (leta_server lib net json fresh) texts w"
  shows "list_all2 (answers_as lib) (fst session) (fst (answer_all requests a))
    \<and> mirrors (snd session) (snd (answer_all requests a))"
  using assms(7,4-6) unfolding session_def
proof (induction texts requests arbitrary: w a n rule: list_all2_induct)
  case Nil
  then show ?case by simp
next
  case (Cons bytes texts r requests)
  let ?sent = "process (leta_server lib net json fresh) bytes w"
  have "room_for_batch (kept a)" by (rule room_for_batch_bounded [OF Cons.prems(2)]) (use Cons.prems(3) in simp)
  from answers_request [OF assms(1-3) Cons.prems(1) this Cons.hyps(1)]
  have now: "answers_as lib (fst ?sent) (fst (answer_request r a))"
    and state: "mirrors (snd ?sent) (snd (answer_request r a))" by simp_all
  have "n + MaxBatchDocuments + length requests * MaxBatchDocuments \<le> 2 ^ 32" using Cons.prems(3) by simp
  from Cons.IH [OF state answer_request_bounded [OF Cons.prems(2)] this] now
  show ?case by (simp add: case_prod_beta)
qed

text \<open>
  C2. The server is the reference, request by request: when every request of a session is one of the API with
  a body that is a JSON text, the status and the members of every response, in order, are those the
  reference computes from the texts, timestamps and elapsed times included, and the repository, the
  clocks and the readiness are those the reference is left with.
\<close>

theorem session_exact:
  fixes lib :: "('q, 'p) http_library"
  assumes "message_laws lib" and "make_server lib options = Inr fresh" and "parses_json json"
    and "mirrors w a" and "catalog_bounded (kept a) n" and "n + length requests * MaxBatchDocuments \<le> 2 ^ 32"
    and "list_all2 (sends lib process (leta_server lib net json fresh)) texts requests"
  shows "case (serve_all process (leta_server lib net json fresh) texts w, answer_all requests a) of
      ((responses, w'), (answers, a')) \<Rightarrow>
        list_all2 (\<lambda>p (status, members). p_status lib p = status \<and> read_object (p_body lib p) = Some members)
          responses answers
        \<and> mirrors w' a'"
proof -
  have "answers_as lib = (\<lambda>p (status, members). p_status lib p = status \<and> read_object (p_body lib p) = Some members)"
    by (auto simp: fun_eq_iff answers_as_def)
  with answers_session [OF assms] show ?thesis by (simp add: case_prod_beta)
qed

text \<open>A client that posts a batch, creates its index and asks for the health of a server that starts.\<close>

definition three_requests :: "string \<Rightarrow> string \<times> plain_request" where
  "three_requests bytes =
     (if bytes = ''h'' then (''/health'', create_request)
      else if bytes = ''c'' then (''/indexes'', create_request)
      else (''/indexes/:uid/documents'', sample_batch_request\<lparr>sent_body := ''[ {\"title\": \"DDR5 kit\"} ]  ''\<rparr>))"

definition start_api_state :: api_state where
  "start_api_state = \<lparr>ready = Starting, wall = sconst 42, steady = sconst 0, kept = Map.empty\<rparr>"

lemma sample_reaches_health:
  assumes "make_server plain_library default_options = Inr fresh" and "decode bytes = (''/health'', q)"
  shows "reaches_get plain_library (plain_process decode)
    (leta_server plain_library sample_listener text_reader fresh) bytes ''/health'' q"
proof -
  let ?server = "leta_server plain_library sample_listener text_reader fresh"
  have none: "get_routes fresh = []" "post_routes fresh = []"
    using all_routes_make [OF assms(1)] by (simp_all add: all_routes_def)
  have pattern: "to_library_pattern ''/health'' = ''/health''" by code_simp
  obtain route where "get_routes ?server = [(''/health'', route)]"
    by (simp add: leta_server_def register_all_routes with_routes_def leta_routes_def add_route_def Let_def none pattern)
  then show ?thesis
    unfolding reaches_get_def routed_def
    by (auto simp: plain_process_def assms(2) plain_library_def plain_fresh_def intro!: exI [of _ plain_fresh])
qed

theorem session_exact_witness:
  "\<exists>fresh. make_server plain_library default_options = Inr fresh
    \<and> map (p_status plain_library) (fst (serve_all (plain_process three_requests)
        (leta_server plain_library sample_listener text_reader fresh) [''b'', ''c'', ''h''] (quiet_world start_routes)))
      = [200, 409, 503]"
proof -
  obtain fresh :: "(plain_request, plain_response, in_memory_repository route_state) library_server"
    where fresh: "make_server plain_library default_options = Inr fresh"
    using make_server_default by blast
  let ?server = "leta_server plain_library sample_listener text_reader fresh"
  let ?requests = "[PostBatch ''products'' sample_batch_text, PostIndex index_request_text, AskHealth]"
  have start: "mirrors (quiet_world start_routes) start_api_state"
    by (simp add: mirrors_def start_api_state_def quiet_world_def start_routes_def start_state_def memory.holds_new
        stored_in_def)
  have bound: "catalog_bounded (kept start_api_state) 0" "0 + length ?requests * MaxBatchDocuments \<le> 2 ^ 32"
    by (simp_all add: catalog_bounded_def start_api_state_def MaxBatchDocuments_def)
  have sent: "list_all2 (sends plain_library (plain_process three_requests) ?server) [''b'', ''c'', ''h''] ?requests"
  proof (intro list_all2_Cons [THEN iffD2] conjI list_all2_Nil [THEN iffD2] refl)
    let ?q = "sample_batch_request\<lparr>sent_body := ''[ {\"title\": \"DDR5 kit\"} ]  ''\<rparr>"
    have "reaches plain_library (plain_process three_requests) ?server ''b'' ''/indexes/:uid/documents'' ?q"
      by (rule sample_reaches [OF fresh]) (simp_all add: three_requests_def)
    moreover have "is_json_content_type (q_header plain_library ?q ''Content-Type'')"
      "q_path_params plain_library ?q = [(''uid'', ''products'')]"
      "q_body plain_library ?q = body_of [] sample_batch_text ''  ''"
      by (simp_all add: sample_batch_facts plain_library_def sample_batch_request_def header_or_empty_def json_type_sample)
    ultimately show "sends plain_library (plain_process three_requests) ?server ''b'' (PostBatch ''products'' sample_batch_text)"
      unfolding sends_def client_request.case using sample_batch_body by blast
    have "reaches plain_library (plain_process three_requests) ?server ''c'' ''/indexes'' create_request"
      by (rule sample_reaches [OF fresh]) (simp_all add: three_requests_def)
    then show "sends plain_library (plain_process three_requests) ?server ''c'' (PostIndex index_request_text)"
      unfolding sends_def client_request.case using create_request_facts(1,2) index_request_body(1) by blast
    have "reaches_get plain_library (plain_process three_requests) ?server ''h'' ''/health'' create_request"
      by (rule sample_reaches_health [OF fresh]) (simp add: three_requests_def)
    then show "sends plain_library (plain_process three_requests) ?server ''h'' AskHealth"
      unfolding sends_def client_request.case by blast
  qed
  let ?session = "serve_all (plain_process three_requests) ?server [''b'', ''c'', ''h''] (quiet_world start_routes)"
  have "map fst (fst (answer_all ?requests start_api_state)) = [200, 409, 503]"
    by (simp add: start_api_state_def answer_batch_def sample_batch sample_batch_facts target_entry_def
        answer_index_def index_request_body(3) case_prod_beta Let_def)
  moreover have "map (p_status plain_library) (fst ?session) = map fst (fst (answer_all ?requests start_api_state))"
    using session_exact [OF plain_message_laws fresh text_reader_parses start bound sent]
    by (auto simp: case_prod_beta list_all2_conv_all_nth intro!: nth_equalityI)
  ultimately show ?thesis using fresh by (intro exI [of _ fresh]) simp
qed

end
