(* ===== verification/Lifecycle.thy ===== *)
theory Lifecycle
  imports Exact_Session
begin

text \<open>
  The process of \<open>main.cpp\<close> from its start to its exit, as steps: the main thread goes through \<open>serve\<close>
  statement by statement, clients connect as soon as the socket listens, and the workers answer while
  \<open>run()\<close> blocks. What comes in between \<open>bind()\<close> and \<open>run()\<close> waits in the backlog of the kernel, as
  the port says (\<open>src/application/http_server.hpp\<close>), and workers take it in any order; \<open>run()\<close> starts
  the workers and is left when they have finished, with its result or by an exception, which \<open>main\<close>
  catches. \<open>App\<close> has \<open>serve\<close> as a function of what the
  listener does; here is what clients see of it in the meantime.
\<close>

subsection \<open>The steps\<close>

text \<open>Where the main thread is, in \<open>serve\<close> and then in \<open>main\<close>: which statement it executes next.\<close>

datatype program_phase =
    Registered               \<comment> \<open>the routes are registered; \<open>bind\<close> is next\<close>
  | Listening "16 word"      \<comment> \<open>\<open>mark_available\<close> is next\<close>
  | Restored "16 word"       \<comment> \<open>\<open>print_listening\<close> is next\<close>
  | Announced                \<comment> \<open>\<open>run\<close> is next, which begins with the worker pool\<close>
  | Running                  \<comment> \<open>in \<open>run\<close>, with its workers\<close>
  | Thrown cpp_exception     \<comment> \<open>an exception has left \<open>serve\<close>; the \<open>catch\<close> of \<open>main\<close> is next\<close>
  | Exited int               \<comment> \<open>\<open>main\<close> has returned the exit status\<close>
  | Terminated cpp_exception \<comment> \<open>nothing caught the exception\<close>

fun accepts_connections :: "program_phase \<Rightarrow> bool" where
  "accepts_connections Registered = False"
| "accepts_connections (Thrown thrown) = False"
| "accepts_connections (Exited n) = False"
| "accepts_connections (Terminated thrown) = False"
| "accepts_connections _ = True"

fun has_ended :: "program_phase \<Rightarrow> bool" where
  "has_ended (Exited n) = True"
| "has_ended (Terminated thrown) = True"
| "has_ended _ = False"

type_synonym leta_world = "in_memory_repository route_state server_world"

type_synonym ('q, 'p) leta_library_server = "('q, 'p, in_memory_repository route_state) library_server"

text \<open>What the library makes of one request, as \<open>pipeline\<close> describes it.\<close>

type_synonym ('q, 'p) leta_process =
  "('q, 'p) leta_library_server \<Rightarrow> string \<Rightarrow> leta_world \<Rightarrow> 'p \<times> leta_world"

record 'p program_state =
  at :: program_phase
  world :: leta_world
  console :: process_output
  backlog :: "string list"          \<comment> \<open>requests that wait for a worker\<close>
  replies :: "(string \<times> 'p) list"   \<comment> \<open>requests with their responses, as they were answered\<close>

text \<open>The health service in the objects that the routes refer to.\<close>

definition marked_available :: "leta_world \<Rightarrow> leta_world" where
  "marked_available w = w\<lparr>application := (application w)\<lparr>health := mark_available (health (application w))\<rparr>\<rparr>"

inductive program_step ::
  "('q, 'p) http_library \<Rightarrow> listener \<Rightarrow> ('q, 'p) leta_process \<Rightarrow> ('q, 'p) leta_library_server
     \<Rightarrow> 'p program_state \<Rightarrow> 'p program_state \<Rightarrow> bool"
  for lib net process server where
  bind_fails: "at s = Registered \<Longrightarrow>
    port_bind (httplib_server lib net) server ListenHost ListenPort = Inl e \<Longrightarrow>
    program_step lib net process server s (s\<lparr>at := Exited 1, console := print_line (message e) (console s)\<rparr>)"
| binds: "at s = Registered \<Longrightarrow>
    port_bind (httplib_server lib net) server ListenHost ListenPort = Inr bound_port \<Longrightarrow>
    program_step lib net process server s (s\<lparr>at := Listening bound_port\<rparr>)"
| marks: "at s = Listening bound_port \<Longrightarrow>
    program_step lib net process server s (s\<lparr>at := Restored bound_port, world := marked_available (world s)\<rparr>)"
| announces: "at s = Restored bound_port \<Longrightarrow>
    program_step lib net process server s
      (s\<lparr>at := Announced, console := print_listening bound_port (worker_threads default_options) (console s)\<rparr>)"
| pool_throws: "at s = Announced \<Longrightarrow> new_task_queue net server = Some thrown \<Longrightarrow>
    program_step lib net process server s (s\<lparr>at := Thrown thrown\<rparr>)"
| runs: "at s = Announced \<Longrightarrow> new_task_queue net server = None \<Longrightarrow>
    program_step lib net process server s (s\<lparr>at := Running\<rparr>)"
| connects: "accepts_connections (at s) \<Longrightarrow>
    program_step lib net process server s (s\<lparr>backlog := backlog s @ [bytes]\<rparr>)"
| answers: "at s = Running \<Longrightarrow> backlog s = before @ bytes # after \<Longrightarrow>
    process server bytes (world s) = (p, w) \<Longrightarrow>
    program_step lib net process server s
      (s\<lparr>backlog := before @ after, world := w, replies := replies s @ [(bytes, p)]\<rparr>)"
| run_throws: "at s = Running \<Longrightarrow> port_run (httplib_server lib net) server = Inl thrown \<Longrightarrow>
    program_step lib net process server s (s\<lparr>at := Thrown thrown\<rparr>)"
| run_returns: "at s = Running \<Longrightarrow> port_run (httplib_server lib net) server = Inr (Inr ()) \<Longrightarrow>
    program_step lib net process server s (s\<lparr>at := Exited 0\<rparr>)"
| run_fails: "at s = Running \<Longrightarrow> port_run (httplib_server lib net) server = Inr (Inl e) \<Longrightarrow>
    program_step lib net process server s (s\<lparr>at := Exited 1, console := print_line (message e) (console s)\<rparr>)"
| catches: "at s = Thrown (StdException what) \<Longrightarrow>
    program_step lib net process server s (s\<lparr>at := Exited 1, console := print_line what (console s)\<rparr>)"
| escapes: "at s = Thrown ForeignException \<Longrightarrow>
    program_step lib net process server s (s\<lparr>at := Terminated ForeignException\<rparr>)"

text \<open>The objects are constructed and the routes registered; nothing was drawn of the request ids yet.\<close>

definition start_world :: "int stream \<Rightarrow> int stream \<Rightarrow> id_source \<Rightarrow> leta_world" where
  "start_world system_clock steady_readings source =
     \<lparr>application = new_objects system_clock steady_readings, ids = source, server_log = []\<rparr>"

definition program_start :: "int stream \<Rightarrow> int stream \<Rightarrow> id_source \<Rightarrow> process_output \<Rightarrow> 'p program_state" where
  "program_start system_clock steady_readings source out =
     \<lparr>at = Registered, world = start_world system_clock steady_readings source,
      console = out, backlog = [], replies = []\<rparr>"

subsection \<open>Sessions grow at their end\<close>

lemma serve_all_snoc:
  "serve_all process server (earlier @ [bytes]) w =
     (case serve_all process server earlier w of (ps, w1) \<Rightarrow>
        case process server bytes w1 of (p, w2) \<Rightarrow> (ps @ [p], w2))"
  by (induction earlier arbitrary: w) (simp_all add: case_prod_beta)

lemma length_serve_all [simp]: "length (fst (serve_all process server texts w)) = length texts"
  by (induction texts arbitrary: w) (simp_all add: case_prod_beta)

subsection \<open>What holds at each point\<close>

text \<open>
  At each point: what was printed and answered, from the world \<open>w0\<close> of the start. From \<open>Running\<close> on,
  the responses are those of a session that begins when the server is available; without workers
  there are none.
\<close>

definition session_so_far ::
  "('q, 'p) leta_process \<Rightarrow> ('q, 'p) leta_library_server \<Rightarrow> leta_world \<Rightarrow> 'p program_state \<Rightarrow> bool" where
  "session_so_far process server w0 s \<longleftrightarrow>
     serve_all process server (map fst (replies s)) (marked_available w0) = (map snd (replies s), world s)"

definition session_of_run ::
  "('q, 'p) http_library \<Rightarrow> listener \<Rightarrow> ('q, 'p) leta_process \<Rightarrow> ('q, 'p) leta_library_server \<Rightarrow> leta_world \<Rightarrow> 'p program_state \<Rightarrow> bool" where
  "session_of_run lib net process server w0 s \<longleftrightarrow>
     (\<exists>bound_port. port_bind (httplib_server lib net) server ListenHost ListenPort = Inr bound_port)
     \<and> session_so_far process server w0 s \<and> (new_task_queue net server \<noteq> None \<longrightarrow> replies s = [])"

text \<open>What \<open>run()\<close> comes to for \<open>serve\<close>: how \<open>serve\<close> is left, and what is printed then.\<close>

fun after_run :: "cpp_exception + unit result \<Rightarrow> process_output \<Rightarrow> (cpp_exception + int) \<times> process_output" where
  "after_run (Inl thrown) out = (Inl thrown, out)"
| "after_run (Inr (Inl e)) out = (Inr 1, print_line (message e) out)"
| "after_run (Inr (Inr u)) out = (Inr 0, out)"

definition left_serve ::
  "('q, 'p) http_library \<Rightarrow> listener \<Rightarrow> ('q, 'p) leta_library_server \<Rightarrow> process_output
     \<Rightarrow> (cpp_exception + int) \<times> process_output" where
  "left_serve lib net server out =
     (case port_bind (httplib_server lib net) server ListenHost ListenPort of
        Inl e \<Rightarrow> (Inr 1, print_line (message e) out)
      | Inr bound_port \<Rightarrow>
          after_run (port_run (httplib_server lib net) server)
            (print_listening bound_port (worker_threads default_options) out))"

fun phase_facts ::
  "('q, 'p) http_library \<Rightarrow> listener \<Rightarrow> ('q, 'p) leta_process \<Rightarrow> ('q, 'p) leta_library_server
     \<Rightarrow> leta_world \<Rightarrow> process_output \<Rightarrow> 'p program_state \<Rightarrow> program_phase \<Rightarrow> bool" where
  "phase_facts lib net process server w0 out s Registered \<longleftrightarrow> world s = w0 \<and> console s = out \<and> replies s = []"
| "phase_facts lib net process server w0 out s (Listening bound_port) \<longleftrightarrow>
     port_bind (httplib_server lib net) server ListenHost ListenPort = Inr bound_port
     \<and> world s = w0 \<and> console s = out \<and> replies s = []"
| "phase_facts lib net process server w0 out s (Restored bound_port) \<longleftrightarrow>
     port_bind (httplib_server lib net) server ListenHost ListenPort = Inr bound_port
     \<and> world s = marked_available w0 \<and> console s = out \<and> replies s = []"
| "phase_facts lib net process server w0 out s Announced \<longleftrightarrow>
     (\<exists>bound_port. port_bind (httplib_server lib net) server ListenHost ListenPort = Inr bound_port
       \<and> console s = print_listening bound_port (worker_threads default_options) out)
     \<and> world s = marked_available w0 \<and> replies s = []"
| "phase_facts lib net process server w0 out s Running \<longleftrightarrow>
     (\<exists>bound_port. port_bind (httplib_server lib net) server ListenHost ListenPort = Inr bound_port
       \<and> console s = print_listening bound_port (worker_threads default_options) out)
     \<and> new_task_queue net server = None \<and> session_of_run lib net process server w0 s"
| "phase_facts lib net process server w0 out s (Thrown thrown) \<longleftrightarrow>
     left_serve lib net server out = (Inl thrown, console s) \<and> session_of_run lib net process server w0 s"
| "phase_facts lib net process server w0 out s (Exited n) \<longleftrightarrow>
     case_prod catch_std (left_serve lib net server out) = (Inr n, console s)
     \<and> (replies s \<noteq> [] \<longrightarrow> session_of_run lib net process server w0 s)"
| "phase_facts lib net process server w0 out s (Terminated thrown) \<longleftrightarrow>
     case_prod catch_std (left_serve lib net server out) = (Inl thrown, console s)
     \<and> session_of_run lib net process server w0 s"

lemma left_serve_bound [simp]:
  "port_bind (httplib_server lib net) server ListenHost ListenPort = Inr bound_port \<Longrightarrow>
   left_serve lib net server out =
     after_run (port_run (httplib_server lib net) server)
       (print_listening bound_port (worker_threads default_options) out)"
  by (simp add: left_serve_def del: httplib_server_simps)

lemma serve_left:
  fixes lib :: "('q, 'p) http_library" and json :: "'h simdjson" and net :: listener
  assumes "make_server lib default_options = Inr fresh"
    and "serve lib json net system_clock steady_readings out = Inr result"
  shows "served_by result = leta_server lib net json fresh"
    and "(left_with result, printed result) = left_serve lib net (leta_server lib net json fresh) out"
    and "port_bind (httplib_server lib net) (leta_server lib net json fresh) ListenHost ListenPort = Inr bound_port \<Longrightarrow>
      \<lparr>application = objects result, ids = source, server_log = []\<rparr>
        = marked_available (start_world system_clock steady_readings source)"
  using assms(2)
  by (auto simp: serve_def assms(1) leta_server_def [symmetric] Let_def left_serve_def start_world_def
      marked_available_def simp del: httplib_server_simps split: sum.splits)

lemma port_run_pool_throws [simp]:
  "new_task_queue net server = Some thrown \<Longrightarrow> port_run (httplib_server lib net) server = Inl thrown"
  by (simp add: run_server_def)

lemma main_thread_goes_on:
  assumes "\<not> has_ended (at s)"
  shows "\<exists>s'. program_step lib net process server s s' \<and> at s' \<noteq> at s"
proof (cases "at s")
  case Registered
  then show ?thesis
    using bind_fails [OF Registered] binds [OF Registered]
    by (cases "port_bind (httplib_server lib net) server ListenHost ListenPort") fastforce+
next
  case (Listening bound_port)
  from marks [OF this] Listening show ?thesis by fastforce
next
  case (Restored bound_port)
  from announces [OF this] Restored show ?thesis by fastforce
next
  case Announced
  then show ?thesis
    using pool_throws [OF Announced] runs [OF Announced]
    by (cases "new_task_queue net server") fastforce+
next
  case Running
  show ?thesis
  proof (cases "port_run (httplib_server lib net) server")
    case (Inl thrown)
    from run_throws [OF Running this, of process] Running show ?thesis by fastforce
  next
    case (Inr returned)
    then show ?thesis
      using run_returns [OF Running, of lib net server process] run_fails [OF Running, of lib net server _ process] Running
      by (cases returned) fastforce+
  qed
next
  case (Thrown thrown)
  show ?thesis
  proof (cases thrown)
    case (StdException what)
    from catches [of s what] Thrown StdException show ?thesis by fastforce
  next
    case ForeignException
    from escapes [of s] Thrown ForeignException show ?thesis by fastforce
  qed
qed (use assms in simp_all)

lemma phase_facts_step:
  assumes "program_step lib net process server s s'"
    and "phase_facts lib net process server w0 out s (at s)"
  shows "phase_facts lib net process server w0 out s' (at s')"
  using assms
proof (induction rule: program_step.induct)
  case (connects s bytes)
  then show ?case
    by (cases "at s") (auto simp: session_of_run_def session_so_far_def simp del: httplib_server_simps)
next
  case (answers s before bytes after p w)
  then show ?case
    by (auto simp: session_of_run_def session_so_far_def serve_all_snoc simp del: httplib_server_simps)
next
  case (bind_fails s e)
  then show ?case by (simp add: left_serve_def del: httplib_server_simps)
qed (auto simp: session_of_run_def session_so_far_def simp del: httplib_server_simps)

lemma phase_facts_reachable:
  assumes "(program_step lib net process server)\<^sup>*\<^sup>* s0 s"
    and "phase_facts lib net process server w0 out s0 (at s0)"
  shows "phase_facts lib net process server w0 out s (at s)"
  using assms by (induction rule: rtranclp_induct) (auto intro: phase_facts_step)

lemma phase_facts_start:
  "phase_facts lib net process server (start_world a b c) out (program_start a b c out)
     (at (program_start a b c out))"
  by (simp add: program_start_def)

subsection \<open>No request changes the readiness\<close>

lemma leta_routes_health:
  assumes "(m, t, h) \<in> set (leta_routes json)" and "handler_gives h v answer v'"
  shows "health v' = health v"
proof -
  from assms(2) obtain r outcome where "h r v = (outcome, v')" unfolding handler_gives_def by blast
  then have "v' = snd (h r v)" by simp
  with assms(1) show ?thesis by (auto simp: leta_routes_def health_create_index health_add_documents)
qed

lemma request_keeps_health:
  fixes lib :: "('q, 'p) http_library" and w :: leta_world
  assumes "message_laws lib" and "make_server lib options = Inr fresh"
    and "pipeline lib process (leta_server lib net json fresh) bytes"
  shows "health (application (snd (process (leta_server lib net json fresh) bytes w))) = health (application w)"
proof -
  have server: "leta_server lib net json fresh = with_routes lib (leta_routes json) fresh"
    by (simp only: leta_server_def register_all_routes)
  from every_response(2) [OF assms(1,2) leta_errors_have_bodies assms(3) [unfolded server], of w]
  show ?thesis unfolding server using leta_routes_health [of _ _ _ json] by fastforce
qed

lemma session_health:
  fixes lib :: "('q, 'p) http_library" and w :: leta_world
  assumes "message_laws lib" and "make_server lib options = Inr fresh"
    and "list_all (pipeline lib process (leta_server lib net json fresh)) texts"
    and "reaches_get lib process (leta_server lib net json fresh) bytes pattern q"
    and "(bytes, p) \<in> set (zip texts (fst (serve_all process (leta_server lib net json fresh) texts w)))"
  shows "says lib p (health_response (readiness (health (application w))))"
  using assms(3,5)
proof (induction texts arbitrary: w)
  case (Cons first later)
  let ?sent = "process (leta_server lib net json fresh) first w"
  from Cons.prems(2) consider "bytes = first" "p = fst ?sent"
    | "(bytes, p) \<in> set (zip later (fst (serve_all process (leta_server lib net json fresh) later (snd ?sent))))"
    by (auto simp: case_prod_beta)
  then show ?case
  proof cases
    case 1
    with reached_health(1) [OF assms(1,2,4), of w] show ?thesis by simp
  next
    case 2
    have now: "pipeline lib process (leta_server lib net json fresh) first"
      and rest: "list_all (pipeline lib process (leta_server lib net json fresh)) later"
      using Cons.prems(1) by simp_all
    from Cons.IH [OF rest 2] show ?thesis by (simp add: request_keeps_health [OF assms(1,2) now])
  qed
qed simp

subsection \<open>A run to try\<close>

text \<open>A client that connects before \<open>run()\<close> and is answered after it, by the library of the examples.\<close>

lemma new_task_queue_sample: "new_task_queue sample_listener server = None"
  by (simp add: new_task_queue_def sample_listener_def split: option.split)

lemma sample_run:
  fixes server :: "(plain_request, plain_response, in_memory_repository route_state) library_server"
  obtains s p where "(program_step plain_library sample_listener process server)\<^sup>*\<^sup>*
      (program_start a b source out) s" and "at s = Exited 0" and "replies s = [(bytes, p)]"
proof -
  let ?step = "program_step plain_library sample_listener process server"
  let ?s0 = "program_start a b source out :: plain_response program_state"
  let ?s1 = "?s0\<lparr>at := Listening 7700\<rparr>"
  let ?s2 = "?s1\<lparr>backlog := backlog ?s1 @ [bytes]\<rparr>"
  let ?s3 = "?s2\<lparr>at := Restored 7700, world := marked_available (world ?s2)\<rparr>"
  let ?s4 = "?s3\<lparr>at := Announced, console := print_listening 7700 (worker_threads default_options) (console ?s3)\<rparr>"
  let ?s5 = "?s4\<lparr>at := Running\<rparr>"
  obtain p w where sent: "process server bytes (world ?s5) = (p, w)" by (cases "process server bytes (world ?s5)")
  let ?s6 = "?s5\<lparr>backlog := [] @ [], world := w, replies := replies ?s5 @ [(bytes, p)]\<rparr>"
  have "?step ?s0 ?s1" by (rule binds) (simp_all add: program_start_def bind_server_def sample_listener_def ListenPort_def)
  moreover have "?step ?s1 ?s2" by (rule connects) simp
  moreover have "?step ?s2 ?s3" by (rule marks) simp
  moreover have "?step ?s3 ?s4" by (rule announces) simp
  moreover have "?step ?s4 ?s5" by (rule runs) (simp_all add: new_task_queue_sample)
  moreover have "?step ?s5 ?s6" by (rule answers [where process = process and server = server and before = "[]" and after = "[]" and bytes = bytes])
      (simp_all only: sent, simp_all add: program_start_def)
  moreover have "?step ?s6 (?s6\<lparr>at := Exited 0\<rparr>)"
    by (rule run_returns) (simp_all add: run_server_def new_task_queue_sample, simp add: sample_listener_def)
  ultimately have "?step\<^sup>*\<^sup>* ?s0 (?s6\<lparr>at := Exited 0\<rparr>)"
    by (meson converse_rtranclp_into_rtranclp rtranclp.rtrancl_refl)
  then show thesis by (rule that) (simp_all add: program_start_def)
qed

subsection \<open>Properties\<close>

text \<open>
  C5. The process is what \<open>main\<close> makes of \<open>serve\<close>, with the session in between: when it has ended, by an
  exit status or by an exception nobody catches, then as \<open>main_program\<close> ends, with the same output;
  its replies, whatever clients connect when, are those of one session of the server that \<open>serve\<close>
  built on the objects it made, from after \<open>mark_available\<close> on; when the workers cannot be started
  there are none. And nothing is stuck: until it ends the main thread can go on, and while it runs
  every request that waits can be answered next.
\<close>

theorem program_run_serves:
  fixes lib :: "('q, 'p) http_library" and json :: "'h simdjson" and net :: listener
  assumes "make_server lib default_options = Inr fresh"
  defines "server \<equiv> leta_server lib net json fresh"
  assumes "(program_step lib net process server)\<^sup>*\<^sup>* (program_start system_clock steady_readings source silent) s"
  shows "\<exists>result. serve lib json net system_clock steady_readings silent = Inr result
     \<and> served_by result = server
     \<and> (\<forall>n. at s = Exited n \<longrightarrow>
          main_program lib json net system_clock steady_readings info [program_name] = (Inr n, console s))
     \<and> (\<forall>thrown. at s = Terminated thrown \<longrightarrow>
          main_program lib json net system_clock steady_readings info [program_name] = (Inl thrown, console s))
     \<and> (replies s \<noteq> [] \<longrightarrow>
          construct_thread_pool net 64 64 = None
          \<and> serve_all process server (map fst (replies s))
              \<lparr>application = objects result, ids = source, server_log = []\<rparr> = (map snd (replies s), world s))
     \<and> (\<not> has_ended (at s) \<longrightarrow> (\<exists>s'. program_step lib net process server s s' \<and> at s' \<noteq> at s))
     \<and> (at s = Running \<longrightarrow> (\<forall>bytes \<in> set (backlog s). \<exists>s' p.
          program_step lib net process server s s' \<and> replies s' = replies s @ [(bytes, p)]))"
proof -
  let ?w0 = "start_world system_clock steady_readings source"
  have facts: "phase_facts lib net process server ?w0 silent s (at s)"
    by (rule phase_facts_reachable [OF assms(3) phase_facts_start])
  obtain result where result: "serve lib json net system_clock steady_readings silent = Inr result"
    using serve_returns by blast
  note left = serve_left [OF assms(1) result, folded server_def]
  have pool: "new_task_queue net server = construct_thread_pool net 64 64"
    unfolding server_def leta_server_def by (rule new_task_queue_default [OF assms(1)])
  have main: "main_program lib json net system_clock steady_readings info [program_name]
      = case_prod catch_std (left_serve lib net server silent)"
    by (simp add: main_program_def result left(2) [symmetric])
  have exited: "main_program lib json net system_clock steady_readings info [program_name] = (Inr n, console s)"
    if "at s = Exited n" for n
    using facts that by (simp add: main)
  have terminated: "main_program lib json net system_clock steady_readings info [program_name] = (Inl thrown, console s)"
    if "at s = Terminated thrown" for thrown
    using facts that by (simp add: main)
  have ended: "session_of_run lib net process server ?w0 s" if "replies s \<noteq> []"
    using facts that by (cases "at s") simp_all
  have session: "construct_thread_pool net 64 64 = None
      \<and> serve_all process server (map fst (replies s))
          \<lparr>application = objects result, ids = source, server_log = []\<rparr> = (map snd (replies s), world s)"
    if "replies s \<noteq> []"
    using ended [OF that] that left(3) by (auto simp: session_of_run_def session_so_far_def pool)
  have next_answer: "\<exists>s' p. program_step lib net process server s s' \<and> replies s' = replies s @ [(bytes, p)]"
    if "at s = Running" "bytes \<in> set (backlog s)" for bytes
  proof -
    from that(2) obtain before after where waits: "backlog s = before @ bytes # after" by (meson split_list)
    obtain p w where sent: "process server bytes (world s) = (p, w)" by (cases "process server bytes (world s)")
    from answers [where process = process and server = server and w = w and p = p, OF that(1) waits sent, of lib net]
    show ?thesis by (intro exI conjI, assumption) simp
  qed
  show ?thesis
    by (intro exI [of _ result] conjI allI impI ballI result left(1) exited terminated session
        next_answer main_thread_goes_on)
qed

theorem program_run_serves_witness:
  "\<exists>fresh s. make_server plain_library default_options = Inr fresh
    \<and> (program_step plain_library sample_listener (plain_process three_requests)
        (leta_server plain_library sample_listener text_reader fresh))\<^sup>*\<^sup>*
        (program_start (sconst 0) (sconst 0) (ids (quiet_world ())) silent) s
    \<and> at s = Exited 0
    \<and> main_program plain_library text_reader sample_listener (sconst 0) (sconst 0) sample_build [''leta'']
        = (Inr 0, console s)"
proof -
  obtain fresh :: "(plain_request, plain_response, in_memory_repository route_state) library_server"
    where fresh: "make_server plain_library default_options = Inr fresh"
    using make_server_default by blast
  obtain s p where reach: "(program_step plain_library sample_listener (plain_process three_requests)
        (leta_server plain_library sample_listener text_reader fresh))\<^sup>*\<^sup>*
        (program_start (sconst 0) (sconst 0) (ids (quiet_world ())) silent) s"
    and exited: "at s = Exited 0"
    by (rule sample_run)
  from program_run_serves [OF fresh reach] exited fresh reach show ?thesis
    by (intro exI [of _ fresh] exI [of _ s]) auto
qed

text \<open>
  C16. No client ever reads that the server is starting: the process accepts connections before it is ready,
  but answers none of them until it is. GET /health is answered 200 in every reachable state.
\<close>

theorem clients_find_it_available:
  fixes lib :: "('q, 'p) http_library" and json :: "'h simdjson"
  assumes "message_laws lib" and "make_server lib default_options = Inr fresh"
    and "list_all (pipeline lib process (leta_server lib net json fresh)) (map fst (replies s))"
    and "(program_step lib net process (leta_server lib net json fresh))\<^sup>*\<^sup>*
      (program_start system_clock steady_readings source out) s"
    and "(bytes, p) \<in> set (replies s)" and "reaches_get lib process (leta_server lib net json fresh) bytes ''/health'' q"
  shows "p_status lib p = 200 \<and> p_body lib p = ''{\"status\":\"available\"}''"
proof -
  let ?w0 = "start_world system_clock steady_readings source"
  have "phase_facts lib net process (leta_server lib net json fresh) ?w0 out s (at s)"
    by (rule phase_facts_reachable [OF assms(4) phase_facts_start])
  with assms(5) have "session_so_far process (leta_server lib net json fresh) ?w0 s"
    by (cases "at s") (auto simp: session_of_run_def simp del: httplib_server_simps)
  then have "fst (serve_all process (leta_server lib net json fresh) (map fst (replies s)) (marked_available ?w0))
      = map snd (replies s)"
    by (simp add: session_so_far_def)
  with assms(5) have "(bytes, p) \<in> set (zip (map fst (replies s))
      (fst (serve_all process (leta_server lib net json fresh) (map fst (replies s)) (marked_available ?w0))))"
    by (simp add: zip_map_fst_snd)
  from session_health [OF assms(1-3,6) this] show ?thesis
    by (simp add: says_def marked_available_def)
qed

theorem clients_find_it_available_witness:
  "\<exists>fresh s p. make_server plain_library default_options = Inr fresh
    \<and> (program_step plain_library sample_listener (plain_process three_requests)
        (leta_server plain_library sample_listener text_reader fresh))\<^sup>*\<^sup>*
        (program_start (sconst 0) (sconst 0) (ids (quiet_world ()))
          \<lparr>standard_output = [], standard_error = []\<rparr>) s
    \<and> replies s = [(''h'', p)] \<and> p_status plain_library p = 200"
proof -
  obtain fresh :: "(plain_request, plain_response, in_memory_repository route_state) library_server"
    where fresh: "make_server plain_library default_options = Inr fresh"
    using make_server_default by blast
  obtain s p where reach: "(program_step plain_library sample_listener (plain_process three_requests)
        (leta_server plain_library sample_listener text_reader fresh))\<^sup>*\<^sup>*
        (program_start (sconst 0) (sconst 0) (ids (quiet_world ()))
          \<lparr>standard_output = [], standard_error = []\<rparr>) s"
    and replied: "replies s = [(''h'', p)]"
    by (rule sample_run)
  have "reaches_get plain_library (plain_process three_requests)
      (leta_server plain_library sample_listener text_reader fresh) ''h'' ''/health'' create_request"
    by (rule sample_reaches_health [OF fresh]) (simp add: three_requests_def)
  from clients_find_it_available [OF plain_message_laws fresh plain_pipelines reach _ this, of p] fresh reach replied
  show ?thesis by auto
qed

end
