(* ===== verification/Expected_Storage.thy ===== *)
theory Expected_Storage
  imports Prelude
begin

text \<open>
  The storage of \<open>tl::expected<T, E>\<close> (\<open>src/core/third_party/tl/expected.hpp\<close>), which every
  \<open>Result\<close> of the program is: a union of a value and an error, a flag that says which of the two is
  alive, and the operations that construct, destroy, assign and swap them. The other theories use a
  \<open>Result\<close> as a value of the sum \<open>error + 'a\<close>; \<open>repr\<close> says which storage holds which sum, and the
  lemmas here and in \<open>Expected\<close> show that the operations act on the storage as on the sum.

  The special member functions of \<open>T\<close> and of \<open>E\<close> are arguments (\<open>special_members\<close>): they may throw,
  and a move may leave anything in its source. An object operation ends in one of five ways: it
  returns, it throws, it terminates the process (an exception out of a \<open>noexcept\<close> function), it
  touches an object that is not alive (undefined behaviour), or it constructs over an object that
  is alive, whose destructor then never runs. The two operands of an assignment or a swap are
  different objects. The configuration is the one of the build: exceptions enabled, C++14 or later.
\<close>

subsection \<open>Computations on objects\<close>

datatype ('a, 's, 'x) run =
    Done 'a 's
  | Threw 'x 's
  | Terminated
  | Undefined    \<comment> \<open>an object was used whose lifetime has ended or not begun\<close>
  | Lost         \<comment> \<open>an object was constructed over one that is alive\<close>

type_synonym ('a, 's, 'x) comp = "'s \<Rightarrow> ('a, 's, 'x) run"

definition give :: "'a \<Rightarrow> ('a, 's, 'x) comp" where
  "give a s = Done a s"

definition seq :: "('a, 's, 'x) comp \<Rightarrow> ('a \<Rightarrow> ('b, 's, 'x) comp) \<Rightarrow> ('b, 's, 'x) comp" where
  "seq m f s =
    (case m s of
      Done a s' \<Rightarrow> f a s'
    | Threw x s' \<Rightarrow> Threw x s'
    | Terminated \<Rightarrow> Terminated
    | Undefined \<Rightarrow> Undefined
    | Lost \<Rightarrow> Lost)"

text \<open>A function declared \<open>noexcept\<close>.\<close>

definition noexcept :: "('a, 's, 'x) comp \<Rightarrow> ('a, 's, 'x) comp" where
  "noexcept m s = (case m s of Threw x s' \<Rightarrow> Terminated | r \<Rightarrow> r)"

text \<open>\<open>try { m } catch (...) { h; throw; }\<close>\<close>

definition try_rethrow :: "('a, 's, 'x) comp \<Rightarrow> (unit, 's, 'x) comp \<Rightarrow> ('a, 's, 'x) comp" where
  "try_rethrow m h s =
    (case m s of
      Threw x s' \<Rightarrow> seq h (\<lambda>_. Threw x) s'
    | r \<Rightarrow> r)"

text \<open>An initialisation or an assignment that has been evaluated: the exception or what was made.\<close>

definition raise_or_give :: "'x + 'a \<Rightarrow> ('a, 's, 'x) comp" where
  "raise_or_give r s = (case r of Inl x \<Rightarrow> Threw x s | Inr a \<Rightarrow> Done a s)"

text \<open>A computation on one of two objects.\<close>

definition on_this :: "('a, 's, 'x) comp \<Rightarrow> ('a, 's \<times> 'r, 'x) comp" where
  "on_this m p =
    (case m (fst p) of
      Done a s \<Rightarrow> Done a (s, snd p)
    | Threw x s \<Rightarrow> Threw x (s, snd p)
    | Terminated \<Rightarrow> Terminated
    | Undefined \<Rightarrow> Undefined
    | Lost \<Rightarrow> Lost)"

definition on_rhs :: "('a, 'r, 'x) comp \<Rightarrow> ('a, 's \<times> 'r, 'x) comp" where
  "on_rhs m p =
    (case m (snd p) of
      Done a r \<Rightarrow> Done a (fst p, r)
    | Threw x r \<Rightarrow> Threw x (fst p, r)
    | Terminated \<Rightarrow> Terminated
    | Undefined \<Rightarrow> Undefined
    | Lost \<Rightarrow> Lost)"

named_theorems run_defs \<open>the definitions a run of object operations unfolds to\<close>

lemmas run_base [run_defs] = seq_def give_def noexcept_def try_rethrow_def raise_or_give_def
  on_this_def on_rhs_def

subsection \<open>The storage\<close>

text \<open>The members of the union, by the one that is alive; \<open>m_no_init\<close> is none of the two.\<close>

datatype ('t, 'e) union_member =
    NoInit
  | Val 't
  | Unexpect 'e

record ('t, 'e) expected_storage =
  alive :: "('t, 'e) union_member"
  m_has_val :: bool

text \<open>The storage of a sum: the flag says which member is alive.\<close>

fun repr :: "'e + 't \<Rightarrow> ('t, 'e) expected_storage" where
  "repr (Inr v) = \<lparr>alive = Val v, m_has_val = True\<rparr>"
| "repr (Inl e) = \<lparr>alive = Unexpect e, m_has_val = False\<rparr>"

text \<open>
  What a type does when it is copied or moved. A move returns what it made or the exception, and
  what is left in the source; an assignment what it leaves in its target, and whether it threw.
\<close>

record ('t, 'x) special_members =
  copy_construct :: "'t \<Rightarrow> 'x + 't"
  move_construct :: "'t \<Rightarrow> ('x + 't) \<times> 't"
  copy_assign :: "'t \<Rightarrow> 't \<Rightarrow> 'x option \<times> 't"
  move_assign :: "'t \<Rightarrow> 't \<Rightarrow> 'x option \<times> 't \<times> 't"
  swap_with :: "'t \<Rightarrow> 't \<Rightarrow> 'x option \<times> 't \<times> 't"
  nothrow_copy_constructible :: bool
  nothrow_move_constructible :: bool
  nothrow_move_assignable :: bool
  nothrow_swappable :: bool

text \<open>A type whose copies and moves return and make an equal object, as a string or a vector.\<close>

definition regular :: "('t, 'x) special_members \<Rightarrow> bool" where
  "regular ty \<longleftrightarrow>
    (\<forall>v. copy_construct ty v = Inr v) \<and>
    (\<forall>v. fst (move_construct ty v) = Inr v) \<and>
    (\<forall>old v. copy_assign ty old v = (None, v)) \<and>
    (\<forall>old v. fst (move_assign ty old v) = None \<and> fst (snd (move_assign ty old v)) = v) \<and>
    (\<forall>a b. swap_with ty a b = (None, b, a))"

lemma regular_simps:
  assumes "regular ty"
  shows "copy_construct ty v = Inr v" and "fst (move_construct ty v) = Inr v"
    and "copy_assign ty old v = (None, v)"
    and "fst (move_assign ty old v) = None" and "fst (snd (move_assign ty old v)) = v"
    and "swap_with ty a b = (None, b, a)"
  using assms by (simp_all add: regular_def)

subsection \<open>Lifetimes\<close>

text \<open>\<open>m_val.~T()\<close> and \<open>m_unexpect.~unexpected<E>()\<close>: the object has to be alive.\<close>

definition destroy_val :: "(unit, ('t, 'e) expected_storage, 'x) comp" where
  "destroy_val s = (case alive s of Val v \<Rightarrow> Done () (s\<lparr>alive := NoInit\<rparr>) | _ \<Rightarrow> Undefined)"

definition destroy_err :: "(unit, ('t, 'e) expected_storage, 'x) comp" where
  "destroy_err s = (case alive s of Unexpect e \<Rightarrow> Done () (s\<lparr>alive := NoInit\<rparr>) | _ \<Rightarrow> Undefined)"

text \<open>\<open>new (valptr()) T(...)\<close> and \<open>new (errptr()) unexpected<E>(...)\<close>.\<close>

definition place_val :: "'x + 't \<Rightarrow> (unit, ('t, 'e) expected_storage, 'x) comp" where
  "place_val made s =
    (case alive s of
      NoInit \<Rightarrow> (case made of Inl x \<Rightarrow> Threw x s | Inr v \<Rightarrow> Done () (s\<lparr>alive := Val v\<rparr>))
    | _ \<Rightarrow> Lost)"

definition place_err :: "'x + 'e \<Rightarrow> (unit, ('t, 'e) expected_storage, 'x) comp" where
  "place_err made s =
    (case alive s of
      NoInit \<Rightarrow> (case made of Inl x \<Rightarrow> Threw x s | Inr e \<Rightarrow> Done () (s\<lparr>alive := Unexpect e\<rparr>))
    | _ \<Rightarrow> Lost)"

definition has_val :: "(bool, ('t, 'e) expected_storage, 'x) comp" where
  "has_val s = Done (m_has_val s) s"

definition set_has_val :: "bool \<Rightarrow> (unit, ('t, 'e) expected_storage, 'x) comp" where
  "set_has_val b s = Done () (s\<lparr>m_has_val := b\<rparr>)"

text \<open>\<open>get()\<close>, \<open>val()\<close> and \<open>geterr()\<close>, \<open>err()\<close>: the member of the union.\<close>

definition get_val :: "('t, ('t, 'e) expected_storage, 'x) comp" where
  "get_val s = (case alive s of Val v \<Rightarrow> Done v s | _ \<Rightarrow> Undefined)"

definition get_err :: "('e, ('t, 'e) expected_storage, 'x) comp" where
  "get_err s = (case alive s of Unexpect e \<Rightarrow> Done e s | _ \<Rightarrow> Undefined)"

definition put_val :: "'t \<Rightarrow> (unit, ('t, 'e) expected_storage, 'x) comp" where
  "put_val v s = (case alive s of Val _ \<Rightarrow> Done () (s\<lparr>alive := Val v\<rparr>) | _ \<Rightarrow> Undefined)"

definition put_err :: "'e \<Rightarrow> (unit, ('t, 'e) expected_storage, 'x) comp" where
  "put_err e s = (case alive s of Unexpect _ \<Rightarrow> Done () (s\<lparr>alive := Unexpect e\<rparr>) | _ \<Rightarrow> Undefined)"

lemmas run_lifetime [run_defs] = destroy_val_def destroy_err_def place_val_def place_err_def has_val_def set_has_val_def get_val_def
  get_err_def put_val_def put_err_def

text \<open>
  An expression that initialises an object from the member of an object: from an lvalue by a copy,
  from an rvalue by a move, which changes the source.
\<close>

datatype category = Lvalue | Rvalue

definition from_val ::
    "('t, 'x) special_members \<Rightarrow> category \<Rightarrow> ('x + 't, ('t, 'e) expected_storage, 'x) comp" where
  "from_val ty k =
    seq get_val (\<lambda>v.
      case k of
        Lvalue \<Rightarrow> give (copy_construct ty v)
      | Rvalue \<Rightarrow> seq (put_val (snd (move_construct ty v))) (\<lambda>_. give (fst (move_construct ty v))))"

definition from_err ::
    "('e, 'x) special_members \<Rightarrow> category \<Rightarrow> ('x + 'e, ('t, 'e) expected_storage, 'x) comp" where
  "from_err ty k =
    seq get_err (\<lambda>e.
      case k of
        Lvalue \<Rightarrow> give (copy_construct ty e)
      | Rvalue \<Rightarrow> seq (put_err (snd (move_construct ty e))) (\<lambda>_. give (fst (move_construct ty e))))"

text \<open>\<open>auto tmp = std::move(val())\<close> and \<open>auto tmp = std::move(err())\<close>.\<close>

definition take_val :: "('t, 'x) special_members \<Rightarrow> ('t, ('t, 'e) expected_storage, 'x) comp" where
  "take_val ty = seq (from_val ty Rvalue) raise_or_give"

definition take_err :: "('e, 'x) special_members \<Rightarrow> ('e, ('t, 'e) expected_storage, 'x) comp" where
  "take_err ty = seq (from_err ty Rvalue) raise_or_give"

text \<open>\<open>err() = std::move(tmp)\<close> and \<open>val() = std::move(tmp)\<close>, from a local object.\<close>

definition store_val ::
    "('t \<Rightarrow> 'x option \<times> 't) \<Rightarrow> (unit, ('t, 'e) expected_storage, 'x) comp" where
  "store_val assign =
    seq get_val (\<lambda>old.
      seq (put_val (snd (assign old))) (\<lambda>_.
        case fst (assign old) of Some x \<Rightarrow> Threw x | None \<Rightarrow> give ()))"

definition store_err ::
    "('e \<Rightarrow> 'x option \<times> 'e) \<Rightarrow> (unit, ('t, 'e) expected_storage, 'x) comp" where
  "store_err assign =
    seq get_err (\<lambda>old.
      seq (put_err (snd (assign old))) (\<lambda>_.
        case fst (assign old) of Some x \<Rightarrow> Threw x | None \<Rightarrow> give ()))"

definition move_from_local ::
    "('t, 'x) special_members \<Rightarrow> 't \<Rightarrow> 't \<Rightarrow> 'x option \<times> 't" where
  "move_from_local ty tmp old = (fst (move_assign ty old tmp), fst (snd (move_assign ty old tmp)))"

text \<open>\<open>val() = rhs.val()\<close> and \<open>err() = rhs.err()\<close>, by a copy or by a move.\<close>

definition assign_val ::
    "('t, 'x) special_members \<Rightarrow> category \<Rightarrow>
     (unit, ('t, 'e) expected_storage \<times> ('t, 'e) expected_storage, 'x) comp" where
  "assign_val ty k =
    seq (on_this get_val) (\<lambda>old. seq (on_rhs get_val) (\<lambda>v.
      case k of
        Lvalue \<Rightarrow> on_this (store_val (\<lambda>old. copy_assign ty old v))
      | Rvalue \<Rightarrow> seq (on_rhs (put_val (snd (snd (move_assign ty old v)))))
          (\<lambda>_. on_this (store_val (move_from_local ty v)))))"

definition assign_err ::
    "('e, 'x) special_members \<Rightarrow> category \<Rightarrow>
     (unit, ('t, 'e) expected_storage \<times> ('t, 'e) expected_storage, 'x) comp" where
  "assign_err ty k =
    seq (on_this get_err) (\<lambda>old. seq (on_rhs get_err) (\<lambda>e.
      case k of
        Lvalue \<Rightarrow> on_this (store_err (\<lambda>old. copy_assign ty old e))
      | Rvalue \<Rightarrow> seq (on_rhs (put_err (snd (snd (move_assign ty old e)))))
          (\<lambda>_. on_this (store_err (move_from_local ty e)))))"

lemmas run_access [run_defs] = from_val_def from_err_def take_val_def take_err_def store_val_def
  store_err_def move_from_local_def assign_val_def assign_err_def

end
