(* ===== verification/Expected_Assign.thy ===== *)
theory Expected_Assign
  imports Expected_Storage
begin

text \<open>
  Construction, destruction, assignment, \<open>emplace\<close> and \<open>swap\<close> of \<open>tl::expected\<close>
  (\<open>expected_operations_base\<close> and the classes above it), overload by overload. An overload is chosen
  by what the types promise not to throw, as the \<open>enable_if\<close> of the code chooses it.
\<close>

subsection \<open>Construction and destruction\<close>

definition construct ::
    "('x + 't, ('t, 'e) expected_storage \<times> 'r, 'x) comp \<Rightarrow>
     (unit, ('t, 'e) expected_storage \<times> 'r, 'x) comp" where
  "construct init =
    noexcept (seq init (\<lambda>made.
      seq (on_this (place_val made)) (\<lambda>_. on_this (set_has_val True))))"

definition construct_error ::
    "('x + 'e, ('t, 'e) expected_storage \<times> 'r, 'x) comp \<Rightarrow>
     (unit, ('t, 'e) expected_storage \<times> 'r, 'x) comp" where
  "construct_error init =
    noexcept (seq init (\<lambda>made.
      seq (on_this (place_err made)) (\<lambda>_. on_this (set_has_val False))))"

text \<open>\<open>expected_storage_base(no_init_t)\<close> and the default constructor, which makes a \<open>T{}\<close>.\<close>

definition no_init_storage :: "('t, 'e) expected_storage" where
  "no_init_storage = \<lparr>alive = NoInit, m_has_val = False\<rparr>"

definition default_storage :: "'t \<Rightarrow> ('t, 'e) expected_storage" where
  "default_storage t = \<lparr>alive = Val t, m_has_val = True\<rparr>"

text \<open>The copy constructor of \<open>expected_copy_base\<close> and the move constructor of \<open>expected_move_base\<close>.\<close>

definition construct_from ::
    "('t, 'x) special_members \<Rightarrow> ('e, 'x) special_members \<Rightarrow> category \<Rightarrow>
     (unit, ('t, 'e) expected_storage \<times> ('t, 'e) expected_storage, 'x) comp" where
  "construct_from T E k =
    seq (on_rhs has_val) (\<lambda>b.
      if b then construct (on_rhs (from_val T k)) else construct_error (on_rhs (from_err E k)))"

definition copy_constructor ::
    "('t, 'x) special_members \<Rightarrow> ('e, 'x) special_members \<Rightarrow> ('t, 'e) expected_storage \<Rightarrow>
     (unit, ('t, 'e) expected_storage \<times> ('t, 'e) expected_storage, 'x) run" where
  "copy_constructor T E rhs = construct_from T E Lvalue (no_init_storage, rhs)"

definition move_constructor ::
    "('t, 'x) special_members \<Rightarrow> ('e, 'x) special_members \<Rightarrow> ('t, 'e) expected_storage \<Rightarrow>
     (unit, ('t, 'e) expected_storage \<times> ('t, 'e) expected_storage, 'x) run" where
  "move_constructor T E rhs = construct_from T E Rvalue (no_init_storage, rhs)"

text \<open>
  The constructor from another \<open>expected<U, G>\<close>: its base is built by the default constructor, so a
  \<open>T{}\<close> is alive when the body constructs the member.
\<close>

definition converting_constructor ::
    "'t \<Rightarrow> ('u \<Rightarrow> 'x + 't) \<Rightarrow> ('g \<Rightarrow> 'x + 'e) \<Rightarrow> ('u, 'g) expected_storage \<Rightarrow>
     (unit, ('t, 'e) expected_storage \<times> ('u, 'g) expected_storage, 'x) run" where
  "converting_constructor t from_u from_g rhs =
    seq (on_rhs has_val) (\<lambda>b.
      if b then construct (seq (on_rhs get_val) (\<lambda>u. give (from_u u)))
      else construct_error (seq (on_rhs get_err) (\<lambda>g. give (from_g g))))
    (default_storage t, rhs)"

definition destructor :: "(unit, ('t, 'e) expected_storage, 'x) comp" where
  "destructor = seq has_val (\<lambda>b. if b then destroy_val else destroy_err)"

subsection \<open>Assignment from an expected\<close>

definition assign_common ::
    "('t, 'x) special_members \<Rightarrow> ('e, 'x) special_members \<Rightarrow> category \<Rightarrow>
     (unit, ('t, 'e) expected_storage \<times> ('t, 'e) expected_storage, 'x) comp" where
  "assign_common T E k =
    seq (on_this has_val) (\<lambda>l. seq (on_rhs has_val) (\<lambda>r.
      if l then
        (if r then assign_val T k
         else seq (on_this destroy_val) (\<lambda>_. construct_error (on_rhs (from_err E k))))
      else
        (if \<not> r then assign_err E k else give ())))"

text \<open>What every \<open>assign\<close> overload does with a value for an object that has none.\<close>

definition assign_with ::
    "('t, 'x) special_members \<Rightarrow> ('e, 'x) special_members \<Rightarrow> category \<Rightarrow>
     (unit, ('t, 'e) expected_storage \<times> ('t, 'e) expected_storage, 'x) comp \<Rightarrow>
     (unit, ('t, 'e) expected_storage \<times> ('t, 'e) expected_storage, 'x) comp" where
  "assign_with T E k replace_error =
    seq (on_this has_val) (\<lambda>l. seq (on_rhs has_val) (\<lambda>r.
      if \<not> l \<and> r then replace_error else assign_common T E k))"

text \<open>The copy of a \<open>T\<close> that cannot throw, and the move that cannot: straight into place.\<close>

definition assign_nothrow ::
    "('t, 'x) special_members \<Rightarrow> ('e, 'x) special_members \<Rightarrow> category \<Rightarrow>
     (unit, ('t, 'e) expected_storage \<times> ('t, 'e) expected_storage, 'x) comp" where
  "assign_nothrow T E k =
    noexcept (assign_with T E k
      (seq (on_this destroy_err) (\<lambda>_. construct (on_rhs (from_val T k)))))"

text \<open>A copy that may throw into a local object, then a move that cannot.\<close>

definition assign_copy_then_move ::
    "('t, 'x) special_members \<Rightarrow> ('e, 'x) special_members \<Rightarrow>
     (unit, ('t, 'e) expected_storage \<times> ('t, 'e) expected_storage, 'x) comp" where
  "assign_copy_then_move T E =
    noexcept (assign_with T E Lvalue
      (seq (seq (on_rhs (from_val T Lvalue)) raise_or_give) (\<lambda>tmp.
        seq (on_this destroy_err) (\<lambda>_. construct (give (fst (move_construct T tmp)))))))"

text \<open>The worst case: the error is moved away, and back when the construction throws.\<close>

definition assign_with_rollback ::
    "('t, 'x) special_members \<Rightarrow> ('e, 'x) special_members \<Rightarrow> category \<Rightarrow>
     (unit, ('t, 'e) expected_storage \<times> ('t, 'e) expected_storage, 'x) comp" where
  "assign_with_rollback T E k =
    assign_with T E k
      (seq (on_this (take_err E)) (\<lambda>tmp.
        seq (on_this destroy_err) (\<lambda>_.
          try_rethrow (construct (on_rhs (from_val T k)))
            (on_this (store_err (move_from_local E tmp))))))"

definition copy_assignment ::
    "('t, 'x) special_members \<Rightarrow> ('e, 'x) special_members \<Rightarrow>
     (unit, ('t, 'e) expected_storage \<times> ('t, 'e) expected_storage, 'x) comp" where
  "copy_assignment T E =
    (if nothrow_copy_constructible T then assign_nothrow T E Lvalue
     else if nothrow_move_constructible T then assign_copy_then_move T E
     else assign_with_rollback T E Lvalue)"

definition move_assignment ::
    "('t, 'x) special_members \<Rightarrow> ('e, 'x) special_members \<Rightarrow>
     (unit, ('t, 'e) expected_storage \<times> ('t, 'e) expected_storage, 'x) comp" where
  "move_assignment T E =
    (if nothrow_move_constructible T then
       (if nothrow_move_assignable T then noexcept (assign_nothrow T E Rvalue)
        else assign_nothrow T E Rvalue)
     else assign_with_rollback T E Rvalue)"

lemmas run_assign [run_defs] = construct_def construct_error_def no_init_storage_def
  default_storage_def construct_from_def copy_constructor_def move_constructor_def
  converting_constructor_def destructor_def assign_common_def assign_with_def assign_nothrow_def
  assign_copy_then_move_def assign_with_rollback_def copy_assignment_def move_assignment_def

lemma copy_assignment_repr:
  assumes "regular T" and "regular E"
  shows "copy_assignment T E (repr l, repr r) = Done () (repr r, repr r)"
  using assms by (cases l; cases r; simp add: run_defs regular_simps)

lemma move_assignment_repr:
  assumes "regular T" and "regular E"
  shows "\<exists>rest. move_assignment T E (repr l, repr r) = Done () (repr r, repr rest) \<and>
    isl rest = isl r"
  using assms
  by (cases l; cases r; force simp: run_defs regular_simps intro: exI [of _ "Inl _"] exI [of _ "Inr _"])

subsection \<open>Assignment from a value or an error, and \<open>emplace\<close>\<close>

text \<open>
  \<open>operator=(U&&)\<close>: \<open>assign\<close> is the assignment of the argument to a \<open>T\<close> and \<open>made\<close> the \<open>T\<close> made
  from it, or the exception of that.
\<close>

definition value_assignment_nothrow ::
    "('t \<Rightarrow> 'x option \<times> 't) \<Rightarrow> 'x + 't \<Rightarrow> (unit, ('t, 'e) expected_storage, 'x) comp" where
  "value_assignment_nothrow assign made =
    seq has_val (\<lambda>b.
      if b then store_val assign
      else seq destroy_err (\<lambda>_. seq (place_val made) (\<lambda>_. set_has_val True)))"

definition value_assignment ::
    "('e, 'x) special_members \<Rightarrow> ('t \<Rightarrow> 'x option \<times> 't) \<Rightarrow> 'x + 't \<Rightarrow>
     (unit, ('t, 'e) expected_storage, 'x) comp" where
  "value_assignment E assign made =
    seq has_val (\<lambda>b.
      if b then store_val assign
      else seq (take_err E) (\<lambda>tmp. seq destroy_err (\<lambda>_.
        try_rethrow (seq (place_val made) (\<lambda>_. set_has_val True))
          (store_err (move_from_local E tmp)))))"

text \<open>\<open>operator=\<close> from an \<open>unexpected\<close>: both overloads are for an \<open>E\<close> whose construction cannot throw.\<close>

definition unexpected_assignment ::
    "('e \<Rightarrow> 'x option \<times> 'e) \<Rightarrow> 'x + 'e \<Rightarrow> (unit, ('t, 'e) expected_storage, 'x) comp" where
  "unexpected_assignment assign made =
    seq has_val (\<lambda>b.
      if \<not> b then store_err assign
      else seq destroy_val (\<lambda>_. seq (place_err made) (\<lambda>_. set_has_val False)))"

definition unexpected_move_assignment ::
    "('e \<Rightarrow> 'x option \<times> 'e) \<Rightarrow> 'x + 'e \<Rightarrow> (unit, ('t, 'e) expected_storage, 'x) comp" where
  "unexpected_move_assignment assign made = noexcept (unexpected_assignment assign made)"

definition emplace_nothrow :: "'x + 't \<Rightarrow> (unit, ('t, 'e) expected_storage, 'x) comp" where
  "emplace_nothrow made =
    seq (seq has_val (\<lambda>b.
          if b then destroy_val else seq destroy_err (\<lambda>_. set_has_val True)))
      (\<lambda>_. place_val made)"

definition emplace ::
    "('e, 'x) special_members \<Rightarrow> 'x + 't \<Rightarrow> (unit, ('t, 'e) expected_storage, 'x) comp" where
  "emplace E made =
    seq has_val (\<lambda>b.
      if b then seq destroy_val (\<lambda>_. place_val made)
      else seq (take_err E) (\<lambda>tmp. seq destroy_err (\<lambda>_.
        try_rethrow (seq (place_val made) (\<lambda>_. set_has_val True))
          (store_err (move_from_local E tmp)))))"

text \<open>\<open>emplace(std::initializer_list<U>, Args&&...)\<close>: with a value, a local \<open>t\<close> is made and moved in.\<close>

definition emplace_list_nothrow ::
    "('t, 'x) special_members \<Rightarrow> 'x + 't \<Rightarrow> (unit, ('t, 'e) expected_storage, 'x) comp" where
  "emplace_list_nothrow T made =
    seq has_val (\<lambda>b.
      if b then seq (raise_or_give made) (\<lambda>t. store_val (move_from_local T t))
      else seq destroy_err (\<lambda>_. seq (place_val made) (\<lambda>_. set_has_val True)))"

definition emplace_list ::
    "('t, 'x) special_members \<Rightarrow> ('e, 'x) special_members \<Rightarrow> 'x + 't \<Rightarrow>
     (unit, ('t, 'e) expected_storage, 'x) comp" where
  "emplace_list T E made =
    seq has_val (\<lambda>b.
      if b then seq (raise_or_give made) (\<lambda>t. store_val (move_from_local T t))
      else seq (take_err E) (\<lambda>tmp. seq destroy_err (\<lambda>_.
        try_rethrow (seq (place_val made) (\<lambda>_. set_has_val True))
          (store_err (move_from_local E tmp)))))"

subsection \<open>Swap\<close>

definition swap_both_val ::
    "('t, 'x) special_members \<Rightarrow>
     (unit, ('t, 'e) expected_storage \<times> ('t, 'e) expected_storage, 'x) comp" where
  "swap_both_val T =
    seq (on_this get_val) (\<lambda>a. seq (on_rhs get_val) (\<lambda>b.
      seq (on_this (put_val (fst (snd (swap_with T a b))))) (\<lambda>_.
        seq (on_rhs (put_val (snd (snd (swap_with T a b))))) (\<lambda>_.
          case fst (swap_with T a b) of Some x \<Rightarrow> Threw x | None \<Rightarrow> give ()))))"

definition swap_both_err ::
    "('e, 'x) special_members \<Rightarrow>
     (unit, ('t, 'e) expected_storage \<times> ('t, 'e) expected_storage, 'x) comp" where
  "swap_both_err E =
    seq (on_this get_err) (\<lambda>a. seq (on_rhs get_err) (\<lambda>b.
      seq (on_this (put_err (fst (snd (swap_with E a b))))) (\<lambda>_.
        seq (on_rhs (put_err (snd (snd (swap_with E a b))))) (\<lambda>_.
          case fst (swap_with E a b) of Some x \<Rightarrow> Threw x | None \<Rightarrow> give ()))))"

text \<open>\<open>std::swap(this->m_has_val, rhs.m_has_val)\<close>\<close>

definition swap_flags :: "(unit, ('t, 'e) expected_storage \<times> ('t, 'e) expected_storage, 'x) comp" where
  "swap_flags =
    seq (on_this has_val) (\<lambda>l. seq (on_rhs has_val) (\<lambda>r.
      seq (on_this (set_has_val r)) (\<lambda>_. on_rhs (set_has_val l))))"

text \<open>The three overloads for a \<open>this\<close> that has a value and an \<open>rhs\<close> that has none.\<close>

definition swap_one_nothrow ::
    "('t, 'x) special_members \<Rightarrow> ('e, 'x) special_members \<Rightarrow>
     (unit, ('t, 'e) expected_storage \<times> ('t, 'e) expected_storage, 'x) comp" where
  "swap_one_nothrow T E =
    noexcept (seq (on_this (take_val T)) (\<lambda>temp.
      seq (on_this destroy_val) (\<lambda>_.
        seq (on_rhs (from_err E Rvalue)) (\<lambda>e. seq (on_this (place_err e)) (\<lambda>_.
          seq (on_rhs destroy_err) (\<lambda>_.
            seq (on_rhs (place_val (fst (move_construct T temp)))) (\<lambda>_. swap_flags)))))))"

definition swap_one_err_throws ::
    "('t, 'x) special_members \<Rightarrow> ('e, 'x) special_members \<Rightarrow>
     (unit, ('t, 'e) expected_storage \<times> ('t, 'e) expected_storage, 'x) comp" where
  "swap_one_err_throws T E =
    seq (on_this (take_val T)) (\<lambda>temp.
      seq (on_this destroy_val) (\<lambda>_.
        try_rethrow
          (seq (on_rhs (from_err E Rvalue)) (\<lambda>e. seq (on_this (place_err e)) (\<lambda>_.
            seq (on_rhs destroy_err) (\<lambda>_.
              seq (on_rhs (place_val (fst (move_construct T temp)))) (\<lambda>_. swap_flags)))))
          (on_this (store_val (move_from_local T temp)))))"

definition swap_one_val_throws ::
    "('t, 'x) special_members \<Rightarrow> ('e, 'x) special_members \<Rightarrow>
     (unit, ('t, 'e) expected_storage \<times> ('t, 'e) expected_storage, 'x) comp" where
  "swap_one_val_throws T E =
    seq (on_rhs (take_err E)) (\<lambda>temp.
      seq (on_rhs destroy_err) (\<lambda>_.
        try_rethrow
          (seq (on_this (from_val T Rvalue)) (\<lambda>v. seq (on_rhs (place_val v)) (\<lambda>_.
            seq (on_this destroy_val) (\<lambda>_.
              seq (on_this (place_err (fst (move_construct E temp)))) (\<lambda>_. swap_flags)))))
          (on_rhs (store_err (move_from_local E temp)))))"

definition swap_one ::
    "('t, 'x) special_members \<Rightarrow> ('e, 'x) special_members \<Rightarrow>
     (unit, ('t, 'e) expected_storage \<times> ('t, 'e) expected_storage, 'x) comp" where
  "swap_one T E =
    (if nothrow_move_constructible T then
       (if nothrow_move_constructible E then swap_one_nothrow T E else swap_one_err_throws T E)
     else swap_one_val_throws T E)"

text \<open>\<open>rhs.swap(*this)\<close>: the same with the operands the other way round.\<close>

definition flipped :: "('a, 's \<times> 's, 'x) comp \<Rightarrow> ('a, 's \<times> 's, 'x) comp" where
  "flipped m p =
    (case m (prod.swap p) of
      Done a q \<Rightarrow> Done a (prod.swap q)
    | Threw x q \<Rightarrow> Threw x (prod.swap q)
    | Terminated \<Rightarrow> Terminated
    | Undefined \<Rightarrow> Undefined
    | Lost \<Rightarrow> Lost)"

definition swap_body ::
    "('t, 'x) special_members \<Rightarrow> ('e, 'x) special_members \<Rightarrow>
     (unit, ('t, 'e) expected_storage \<times> ('t, 'e) expected_storage, 'x) comp" where
  "swap_body T E =
    seq (on_this has_val) (\<lambda>l. seq (on_rhs has_val) (\<lambda>r.
      if l \<and> r then swap_both_val T
      else if \<not> l \<and> r then flipped (swap_one T E)
      else if l then swap_one T E
      else swap_both_err E))"

definition swap_expected ::
    "('t, 'x) special_members \<Rightarrow> ('e, 'x) special_members \<Rightarrow>
     (unit, ('t, 'e) expected_storage \<times> ('t, 'e) expected_storage, 'x) comp" where
  "swap_expected T E =
    (if nothrow_move_constructible T \<and> nothrow_swappable T \<and>
        nothrow_move_constructible E \<and> nothrow_swappable E
     then noexcept (swap_body T E) else swap_body T E)"

lemmas run_replace [run_defs] = value_assignment_nothrow_def value_assignment_def
  unexpected_assignment_def unexpected_move_assignment_def emplace_nothrow_def emplace_def
  emplace_list_nothrow_def emplace_list_def

lemmas run_swap [run_defs] = swap_both_val_def swap_both_err_def swap_flags_def
  swap_one_nothrow_def swap_one_err_throws_def swap_one_val_throws_def swap_one_def flipped_def
  swap_body_def swap_expected_def

lemma swap_expected_repr:
  assumes "regular T" and "regular E"
  shows "swap_expected T E (repr l, repr r) = Done () (repr r, repr l)"
  using assms by (cases l; cases r; simp add: run_defs regular_simps)

end
