(* ===== verification/Expected.thy ===== *)
theory Expected
  imports Expected_Assign
begin

text \<open>
  What a holder of a \<open>tl::expected\<close> reads and computes from it (the observers of \<open>expected\<close>,
  \<open>bad_expected_access\<close>, the implementations of \<open>and_then\<close>, \<open>map\<close>, \<open>map_error\<close> and \<open>or_else\<close>, and
  the comparisons), and the properties of the whole header: on every storage that holds a sum, the
  operations are those of the sum, as the rest of the development uses a \<open>Result\<close>.

  \<open>checks\<close> says whether \<open>TL_ASSERT\<close> is compiled in (\<open>assert\<close>, without \<open>NDEBUG\<close>).
\<close>

subsection \<open>Observers\<close>

definition tl_assert :: "bool \<Rightarrow> bool \<Rightarrow> (unit, 's, 'x) comp" where
  "tl_assert checks b s = (if checks \<and> \<not> b then Terminated else Done () s)"

definition deref :: "bool \<Rightarrow> ('t, ('t, 'e) expected_storage, 'x) comp" where
  "deref checks = seq has_val (\<lambda>b. seq (tl_assert checks b) (\<lambda>_. get_val))"

definition error_of :: "bool \<Rightarrow> ('e, ('t, 'e) expected_storage, 'x) comp" where
  "error_of checks = seq has_val (\<lambda>b. seq (tl_assert checks (\<not> b)) (\<lambda>_. get_err))"

datatype 'e bad_expected_access = BadExpectedAccess 'e

definition value_of :: "('t, ('t, 'e) expected_storage, 'e bad_expected_access) comp" where
  "value_of = seq has_val (\<lambda>b.
    if \<not> b then seq get_err (\<lambda>e. Threw (BadExpectedAccess e)) else get_val)"

definition value_or :: "bool \<Rightarrow> 't \<Rightarrow> ('t, ('t, 'e) expected_storage, 'x) comp" where
  "value_or checks v = seq has_val (\<lambda>b. if b then deref checks else give v)"

subsection \<open>Combinators\<close>

text \<open>
  The function passed in may throw. What the combinators make is a new object, into which the value
  or the error is copied; as for a \<open>regular\<close> type, the copy is equal and returns.
\<close>

definition and_then_impl ::
    "bool \<Rightarrow> ('t \<Rightarrow> 'x + ('u, 'e) expected_storage) \<Rightarrow>
     (('u, 'e) expected_storage, ('t, 'e) expected_storage, 'x) comp" where
  "and_then_impl checks f =
    seq has_val (\<lambda>b.
      if b then seq (deref checks) (\<lambda>v. raise_or_give (f v))
      else seq (error_of checks) (\<lambda>e. give (repr (Inl e))))"

definition expected_map_impl ::
    "bool \<Rightarrow> ('t \<Rightarrow> 'x + 'u) \<Rightarrow>
     (('u, 'e) expected_storage, ('t, 'e) expected_storage, 'x) comp" where
  "expected_map_impl checks f =
    seq has_val (\<lambda>b.
      if b then seq (deref checks) (\<lambda>v. seq (raise_or_give (f v)) (\<lambda>u. give (repr (Inr u))))
      else seq (error_of checks) (\<lambda>e. give (repr (Inl e))))"

definition map_error_impl ::
    "bool \<Rightarrow> ('e \<Rightarrow> 'x + 'g) \<Rightarrow>
     (('t, 'g) expected_storage, ('t, 'e) expected_storage, 'x) comp" where
  "map_error_impl checks f =
    seq has_val (\<lambda>b.
      if b then seq (deref checks) (\<lambda>v. give (repr (Inr v)))
      else seq (error_of checks) (\<lambda>e. seq (raise_or_give (f e)) (\<lambda>g. give (repr (Inl g)))))"

definition or_else_impl ::
    "bool \<Rightarrow> ('e \<Rightarrow> 'x + ('t, 'e) expected_storage) \<Rightarrow>
     (('t, 'e) expected_storage, ('t, 'e) expected_storage, 'x) comp" where
  "or_else_impl checks f =
    seq has_val (\<lambda>b.
      if b then (\<lambda>s. Done s s)
      else seq (error_of checks) (\<lambda>e. raise_or_give (f e)))"

subsection \<open>Comparisons\<close>

text \<open>\<open>same_val\<close> and \<open>same_err\<close> are the \<open>==\<close> of the values and of the errors, which the caller gives.\<close>

definition expected_eq ::
    "bool \<Rightarrow> ('t \<Rightarrow> 'u \<Rightarrow> bool) \<Rightarrow> ('e \<Rightarrow> 'g \<Rightarrow> bool) \<Rightarrow>
     (bool, ('t, 'e) expected_storage \<times> ('u, 'g) expected_storage, 'x) comp" where
  "expected_eq checks same_val same_err =
    seq (on_this has_val) (\<lambda>l. seq (on_rhs has_val) (\<lambda>r.
      if l \<noteq> r then give False
      else if \<not> l then
        seq (on_this (error_of checks)) (\<lambda>a. seq (on_rhs (error_of checks)) (\<lambda>b. give (same_err a b)))
      else seq (on_this (deref checks)) (\<lambda>a. seq (on_rhs (deref checks)) (\<lambda>b. give (same_val a b)))))"

definition expected_neq ::
    "bool \<Rightarrow> ('t \<Rightarrow> 'u \<Rightarrow> bool) \<Rightarrow> ('e \<Rightarrow> 'g \<Rightarrow> bool) \<Rightarrow>
     (bool, ('t, 'e) expected_storage \<times> ('u, 'g) expected_storage, 'x) comp" where
  "expected_neq checks diff_val diff_err =
    seq (on_this has_val) (\<lambda>l. seq (on_rhs has_val) (\<lambda>r.
      if l \<noteq> r then give True
      else if \<not> l then
        seq (on_this (error_of checks)) (\<lambda>a. seq (on_rhs (error_of checks)) (\<lambda>b. give (diff_err a b)))
      else seq (on_this (deref checks)) (\<lambda>a. seq (on_rhs (deref checks)) (\<lambda>b. give (diff_val a b)))))"

text \<open>An expected against a value and against an \<open>unexpected\<close>.\<close>

definition expected_eq_val ::
    "bool \<Rightarrow> ('t \<Rightarrow> bool) \<Rightarrow> (bool, ('t, 'e) expected_storage, 'x) comp" where
  "expected_eq_val checks same =
    seq has_val (\<lambda>b. if b then seq (deref checks) (\<lambda>v. give (same v)) else give False)"

definition expected_eq_unexpected ::
    "bool \<Rightarrow> ('e \<Rightarrow> bool) \<Rightarrow> (bool, ('t, 'e) expected_storage, 'x) comp" where
  "expected_eq_unexpected checks same =
    seq has_val (\<lambda>b. if b then give False else seq (error_of checks) (\<lambda>e. give (same e)))"

lemmas run_observe [run_defs] = tl_assert_def deref_def error_of_def value_of_def value_or_def
  and_then_impl_def expected_map_impl_def map_error_impl_def or_else_impl_def expected_eq_def
  expected_neq_def expected_eq_val_def expected_eq_unexpected_def

subsection \<open>The sum that a computation makes\<close>

text \<open>An exception or the storage of a sum, from the storage that was read.\<close>

definition made :: "'s \<Rightarrow> 'x + ('g + 'u) \<Rightarrow> (('u, 'g) expected_storage, 's, 'x) run" where
  "made s r = (case r of Inl x \<Rightarrow> Threw x s | Inr q \<Rightarrow> Done (repr q) s)"

lemma combinators_repr:
  "and_then_impl checks (\<lambda>v. map_sum id repr (f v)) (repr r) =
     made (repr r) (case r of Inl e \<Rightarrow> Inr (Inl e) | Inr v \<Rightarrow> f v)"
  "expected_map_impl checks g (repr r) =
     made (repr r) (case r of Inl e \<Rightarrow> Inr (Inl e) | Inr v \<Rightarrow> map_sum id Inr (g v))"
  "map_error_impl checks h (repr r) =
     made (repr r) (case r of Inl e \<Rightarrow> map_sum id Inl (h e) | Inr v \<Rightarrow> Inr (Inr v))"
  "or_else_impl checks (\<lambda>e. map_sum id repr (k e)) (repr r) =
     made (repr r) (case r of Inl e \<Rightarrow> k e | Inr v \<Rightarrow> Inr (Inr v))"
  by (cases r; simp add: run_defs made_def split: sum.split)+

lemma observers_repr:
  "value_of (repr r) = (case r of Inl e \<Rightarrow> Threw (BadExpectedAccess e) (repr r) | Inr v \<Rightarrow> Done v (repr r))"
  "value_or checks d (repr r) = Done (case r of Inl e \<Rightarrow> d | Inr v \<Rightarrow> v) (repr r)"
  by (cases r; simp add: run_defs)+

lemma comparisons_repr:
  "expected_eq checks same_val same_err (repr r, repr q) =
     Done (rel_sum same_err same_val r q) (repr r, repr q)"
  "expected_neq checks (\<lambda>a b. \<not> same_val a b) (\<lambda>a b. \<not> same_err a b) (repr r, repr q) =
     Done (\<not> rel_sum same_err same_val r q) (repr r, repr q)"
  by (cases r; cases q; simp add: run_defs)+

text \<open>A type that copies, moves and swaps as the strings of the program do.\<close>

definition string_members :: "(string, 'x) special_members" where
  "string_members =
    \<lparr>copy_construct = Inr,
     move_construct = (\<lambda>s. (Inr s, [])),
     copy_assign = (\<lambda>old s. (None, s)),
     move_assign = (\<lambda>old s. (None, s, [])),
     swap_with = (\<lambda>a b. (None, b, a)),
     nothrow_copy_constructible = False,
     nothrow_move_constructible = True,
     nothrow_move_assignable = True,
     nothrow_swappable = True\<rparr>"

lemma regular_string_members: "regular string_members"
  by (simp add: regular_def string_members_def)

subsection \<open>The properties\<close>

text \<open>
  C24. Whatever overloads the promises of \<open>T\<close> and \<open>E\<close> choose, as long as copies, moves and swaps of
  the two make equal objects: a copy and a copy assignment make the target hold what the source
  holds and leave the source; a move and a move assignment make the target hold what the source
  held, and leave the source with an object of the same kind; \<open>swap\<close> exchanges what the two hold;
  the destructor ends the lifetime of the one object that is alive. No run throws, terminates,
  touches a dead object or loses one.
\<close>

theorem expected_objects_hold_sums:
  assumes "regular T" and "regular E"
  shows "copy_constructor T E (repr r) = Done () (repr r, repr r) \<and>
    copy_assignment T E (repr l, repr r) = Done () (repr r, repr r) \<and>
    (\<exists>rest. move_constructor T E (repr r) = Done () (repr r, repr rest) \<and> isl rest = isl r) \<and>
    (\<exists>rest. move_assignment T E (repr l, repr r) = Done () (repr r, repr rest) \<and> isl rest = isl r) \<and>
    swap_expected T E (repr l, repr r) = Done () (repr r, repr l) \<and>
    (\<exists>s. destructor (repr r) = Done () s \<and> alive s = NoInit)"
proof (intro conjI)
  show "copy_constructor T E (repr r) = Done () (repr r, repr r)"
    using assms by (cases r; simp add: run_defs regular_simps)
  show "\<exists>rest. move_constructor T E (repr r) = Done () (repr r, repr rest) \<and> isl rest = isl r"
    using assms
    by (cases r; force simp: run_defs regular_simps intro: exI [of _ "Inl _"] exI [of _ "Inr _"])
  show "\<exists>s. destructor (repr r) = Done () s \<and> alive s = NoInit"
    by (cases r; simp add: run_defs)
qed (use assms in \<open>auto intro: copy_assignment_repr move_assignment_repr swap_expected_repr\<close>)

theorem expected_objects_hold_sums_witness:
  "copy_assignment string_members string_members (repr (Inl ''old''), repr (Inr ''new'')) =
     (Done () (repr (Inr ''new''), repr (Inr ''new'')) :: (unit, _, unit) run) \<and>
   swap_expected string_members string_members (repr (Inl ''old''), repr (Inr ''new'')) =
     (Done () (repr (Inr ''new''), repr (Inl ''old'')) :: (unit, _, unit) run)"
  using expected_objects_hold_sums [OF regular_string_members regular_string_members,
      of "Inr ''new''" "Inl ''old''"]
  by blast

text \<open>
  On an object that holds a sum, \<open>and_then\<close>, \<open>map\<close>, \<open>map_error\<close> and \<open>or_else\<close> are the case
  analyses of the sum: the function is called on the side it is for, its exception passes through,
  and the other side is handed on; \<open>value\<close> throws the error exactly when there is no value;
  \<open>value_or\<close> is the value or the given one; \<open>==\<close> compares the same side of both sums and \<open>!=\<close> is its
  negation. None reaches an assertion or the member that is not alive.
\<close>

theorem expected_reads_are_sum_cases:
  "and_then_impl checks (\<lambda>v. map_sum id repr (f v)) (repr r) =
     made (repr r) (case r of Inl e \<Rightarrow> Inr (Inl e) | Inr v \<Rightarrow> f v) \<and>
   expected_map_impl checks g (repr r) =
     made (repr r) (case r of Inl e \<Rightarrow> Inr (Inl e) | Inr v \<Rightarrow> map_sum id Inr (g v)) \<and>
   map_error_impl checks h (repr r) =
     made (repr r) (case r of Inl e \<Rightarrow> map_sum id Inl (h e) | Inr v \<Rightarrow> Inr (Inr v)) \<and>
   or_else_impl checks (\<lambda>e. map_sum id repr (k e)) (repr r) =
     made (repr r) (case r of Inl e \<Rightarrow> k e | Inr v \<Rightarrow> Inr (Inr v)) \<and>
   value_of (repr r) = (case r of Inl e \<Rightarrow> Threw (BadExpectedAccess e) (repr r) | Inr v \<Rightarrow> Done v (repr r)) \<and>
   value_or checks d (repr r) = Done (case r of Inl e \<Rightarrow> d | Inr v \<Rightarrow> v) (repr r) \<and>
   expected_eq checks same_val same_err (repr r, repr q) =
     Done (rel_sum same_err same_val r q) (repr r, repr q) \<and>
   expected_neq checks (\<lambda>a b. \<not> same_val a b) (\<lambda>a b. \<not> same_err a b) (repr r, repr q) =
     Done (\<not> rel_sum same_err same_val r q) (repr r, repr q)"
  by (intro conjI combinators_repr observers_repr comparisons_repr)

text \<open>
  Assignment from a value or an \<open>unexpected\<close> and every \<open>emplace\<close> put what they are given in place
  of whatever the object held, of the same kind or the other, when the construction does not throw.
\<close>

theorem expected_replacement_exact:
  assumes "regular T" and "regular E"
  shows "value_assignment_nothrow (move_from_local T w) (Inr w) (repr r) = Done () (repr (Inr w)) \<and>
    value_assignment E (move_from_local T w) (Inr w) (repr r) = Done () (repr (Inr w)) \<and>
    emplace_nothrow (Inr w) (repr r) = Done () (repr (Inr w)) \<and>
    emplace E (Inr w) (repr r) = Done () (repr (Inr w)) \<and>
    emplace_list_nothrow T (Inr w) (repr r) = Done () (repr (Inr w)) \<and>
    emplace_list T E (Inr w) (repr r) = Done () (repr (Inr w)) \<and>
    unexpected_assignment (\<lambda>old. copy_assign E old g) (Inr g) (repr r) = Done () (repr (Inl g)) \<and>
    unexpected_move_assignment (move_from_local E g) (Inr g) (repr r) = Done () (repr (Inl g))"
  using assms by (cases r; simp add: run_defs regular_simps)

theorem expected_replacement_exact_witness:
  "emplace string_members (Inr ''new'') (repr (Inl ''old'')) =
     (Done () (repr (Inr ''new'')) :: (unit, (string, string) expected_storage, unit) run) \<and>
   unexpected_move_assignment (move_from_local string_members ''bad'') (Inr ''bad'')
     (repr (Inl ''old'')) =
     (Done () (repr (Inl ''bad'')) :: (unit, (string, string) expected_storage, unit) run)"
  using expected_replacement_exact [OF regular_string_members regular_string_members,
      of "''new''" "Inl ''old''" "''bad''"]
  by blast

text \<open>
  C25. Where a construction throws, the storage does not keep what its comments promise: the
  roll-back of \<open>operator=(U&&)\<close> and of both \<open>emplace\<close> assigns to the error that was destroyed before;
  \<open>emplace\<close> on an object with a value leaves the flag set over a value that is not there, for the
  destructor to destroy again; a throwing copy assigned over an error terminates the process,
  since the functions it goes through are \<open>noexcept\<close>; the roll-back of \<open>swap\<close> assigns to the error
  it destroyed before. And the constructor from another \<open>expected\<close> always constructs over the
  \<open>T{}\<close> that its base has made, which is never destroyed.
\<close>

theorem failed_construction_is_not_undone:
  fixes T :: "('t, 'x) special_members" and E :: "('e, 'x) special_members"
    and assign :: "'t \<Rightarrow> 'x option \<times> 't" and v w t :: 't
    and from_u :: "'u \<Rightarrow> 't" and from_g :: "'g \<Rightarrow> 'e"
  assumes "regular E"
  shows "value_assignment E assign (Inl x) (repr (Inl e)) = Undefined \<and>
    emplace E (Inl x) (repr (Inl e)) = Undefined \<and>
    emplace_list T E (Inl x) (repr (Inl e)) = Undefined \<and>
    (\<exists>s. emplace E (Inl x) (repr (Inr v)) = Threw x s \<and> m_has_val s \<and>
      (destructor s :: (unit, _, 'x) run) = Undefined) \<and>
    (\<not> nothrow_copy_constructible T \<longrightarrow> copy_construct T w = Inl x \<longrightarrow>
      copy_assignment T E (repr (Inl e), repr (Inr w)) = Terminated) \<and>
    (\<not> nothrow_move_constructible T \<longrightarrow> fst (move_construct T w) = Inl x \<longrightarrow>
      swap_expected T E (repr (Inr w), repr (Inl e)) = Undefined) \<and>
    converting_constructor t (\<lambda>u. Inr (from_u u)) (\<lambda>g. Inr (from_g g)) (repr other) =
      (Lost :: (unit, ('t, 'e) expected_storage \<times> ('u, 'g) expected_storage, 'x) run)"
  using assms by (cases other; simp add: run_defs regular_simps)

text \<open>A type whose every copy and move throws \<open>bad_alloc\<close>, for the witness.\<close>

definition throwing_members :: "(string, unit) special_members" where
  "throwing_members =
    \<lparr>copy_construct = (\<lambda>s. Inl ()),
     move_construct = (\<lambda>s. (Inl (), s)),
     copy_assign = (\<lambda>old s. (Some (), old)),
     move_assign = (\<lambda>old s. (Some (), old, s)),
     swap_with = (\<lambda>a b. (Some (), a, b)),
     nothrow_copy_constructible = False,
     nothrow_move_constructible = False,
     nothrow_move_assignable = False,
     nothrow_swappable = False\<rparr>"

theorem failed_construction_is_not_undone_witness:
  "copy_assignment throwing_members string_members (repr (Inl ''error''), repr (Inr ''word'')) =
     Terminated \<and>
   swap_expected throwing_members string_members (repr (Inr ''word''), repr (Inl ''error'')) =
     Undefined"
proof -
  have throws: "\<not> nothrow_copy_constructible throwing_members"
    "\<not> nothrow_move_constructible throwing_members"
    "copy_construct throwing_members ''word'' = Inl ()"
    "fst (move_construct throwing_members ''word'') = Inl ()"
    by (simp_all add: throwing_members_def)
  from failed_construction_is_not_undone [OF regular_string_members,
      where T = throwing_members and e = "''error''" and w = "''word''" and x = "()"
        and from_u = "id :: string \<Rightarrow> string" and from_g = "id :: string \<Rightarrow> string"] throws
  show ?thesis by blast
qed

end
