(* ===== verification/Expected_Void.thy ===== *)
theory Expected_Void
  imports Expected
begin

text \<open>
  The specialisations of \<open>tl::expected\<close> for \<open>void\<close>, which a \<open>Result<void>\<close> is (the repository's
  \<open>add\<close>, the server's \<open>run\<close>, the validation of a body): the union holds an error or a dummy, and the
  flag alone says that there is a value. \<open>E\<close> is not trivially destructible, as the \<open>Error\<close> of the
  program. \<open>swap\<close> has no place here: \<open>std::is_swappable<void>\<close> is false, so overload resolution
  drops it.
\<close>

subsection \<open>The storage of a \<open>void\<close>\<close>

text \<open>The error that is alive, if one is; \<open>None\<close> is \<open>m_dummy\<close>.\<close>

record 'e void_storage =
  live_error :: "'e option"
  void_has_val :: bool

fun repr_void :: "'e + unit \<Rightarrow> 'e void_storage" where
  "repr_void (Inr _) = \<lparr>live_error = None, void_has_val = True\<rparr>"
| "repr_void (Inl e) = \<lparr>live_error = Some e, void_has_val = False\<rparr>"

text \<open>\<open>expected_storage_base()\<close> and \<open>expected_storage_base(no_init_t)\<close>.\<close>

definition void_default :: "'e void_storage" where
  "void_default = \<lparr>live_error = None, void_has_val = True\<rparr>"

definition void_no_init :: "'e void_storage" where
  "void_no_init = \<lparr>live_error = None, void_has_val = False\<rparr>"

definition void_flag :: "(bool, 'e void_storage, 'x) comp" where
  "void_flag s = Done (void_has_val s) s"

definition set_void_flag :: "bool \<Rightarrow> (unit, 'e void_storage, 'x) comp" where
  "set_void_flag b s = Done () (s\<lparr>void_has_val := b\<rparr>)"

text \<open>\<open>geterr()\<close>, read or written; the destructor of the error; its placement.\<close>

definition void_get_err :: "('e, 'e void_storage, 'x) comp" where
  "void_get_err s = (case live_error s of Some e \<Rightarrow> Done e s | None \<Rightarrow> Undefined)"

definition void_put_err :: "'e \<Rightarrow> (unit, 'e void_storage, 'x) comp" where
  "void_put_err e s =
    (case live_error s of Some _ \<Rightarrow> Done () (s\<lparr>live_error := Some e\<rparr>) | None \<Rightarrow> Undefined)"

definition void_destroy_err :: "(unit, 'e void_storage, 'x) comp" where
  "void_destroy_err s =
    (case live_error s of Some _ \<Rightarrow> Done () (s\<lparr>live_error := None\<rparr>) | None \<Rightarrow> Undefined)"

definition void_place_err :: "'x + 'e \<Rightarrow> (unit, 'e void_storage, 'x) comp" where
  "void_place_err built s =
    (case live_error s of
      None \<Rightarrow> (case built of Inl x \<Rightarrow> Threw x s | Inr e \<Rightarrow> Done () (s\<lparr>live_error := Some e\<rparr>))
    | Some _ \<Rightarrow> Lost)"

text \<open>An initialiser from \<open>rhs.geterr()\<close>, by a copy or by a move; an assignment to \<open>geterr()\<close>.\<close>

definition void_from_err ::
    "('e, 'x) special_members \<Rightarrow> category \<Rightarrow> ('x + 'e, 'e void_storage, 'x) comp" where
  "void_from_err ty k =
    seq void_get_err (\<lambda>e.
      case k of
        Lvalue \<Rightarrow> give (copy_construct ty e)
      | Rvalue \<Rightarrow> seq (void_put_err (snd (move_construct ty e)))
          (\<lambda>_. give (fst (move_construct ty e))))"

definition void_store_err :: "('e \<Rightarrow> 'x option \<times> 'e) \<Rightarrow> (unit, 'e void_storage, 'x) comp" where
  "void_store_err assign =
    seq void_get_err (\<lambda>old.
      seq (void_put_err (snd (assign old))) (\<lambda>_.
        case fst (assign old) of Some x \<Rightarrow> Threw x | None \<Rightarrow> give ()))"

definition void_assign_err ::
    "('e, 'x) special_members \<Rightarrow> category \<Rightarrow>
     (unit, 'e void_storage \<times> 'e void_storage, 'x) comp" where
  "void_assign_err ty k =
    seq (on_this void_get_err) (\<lambda>old. seq (on_rhs void_get_err) (\<lambda>e.
      case k of
        Lvalue \<Rightarrow> on_this (void_store_err (\<lambda>old. copy_assign ty old e))
      | Rvalue \<Rightarrow> seq (on_rhs (void_put_err (snd (snd (move_assign ty old e)))))
          (\<lambda>_. on_this (void_store_err (move_from_local ty e)))))"

lemmas run_void_storage [run_defs] = void_default_def void_no_init_def void_flag_def
  set_void_flag_def void_get_err_def void_put_err_def void_destroy_err_def void_place_err_def
  void_from_err_def void_store_err_def void_assign_err_def

subsection \<open>\<open>expected_operations_base<void, E>\<close>\<close>

definition void_construct :: "(unit, 'e void_storage \<times> 'r, 'x) comp" where
  "void_construct = noexcept (on_this (set_void_flag True))"

definition void_construct_error ::
    "('x + 'e, 'e void_storage \<times> 'r, 'x) comp \<Rightarrow> (unit, 'e void_storage \<times> 'r, 'x) comp" where
  "void_construct_error init =
    noexcept (seq init (\<lambda>built.
      seq (on_this (void_place_err built)) (\<lambda>_. on_this (set_void_flag False))))"

definition void_assign ::
    "('e, 'x) special_members \<Rightarrow> category \<Rightarrow>
     (unit, 'e void_storage \<times> 'e void_storage, 'x) comp" where
  "void_assign E k =
    noexcept (seq (on_this void_flag) (\<lambda>l. seq (on_rhs void_flag) (\<lambda>r.
      if \<not> l then
        (if r then seq (on_this void_destroy_err) (\<lambda>_. void_construct)
         else void_assign_err E k)
      else
        (if \<not> r then void_construct_error (on_rhs (void_from_err E k)) else give ()))))"

text \<open>
  The copy and the move constructor construct with the source, which a \<open>void\<close> does not read. The
  two assignment operators are \<open>assign\<close>: no class above it adds a \<open>noexcept\<close> for a \<open>void\<close>.
\<close>

definition void_construct_from ::
    "('e, 'x) special_members \<Rightarrow> category \<Rightarrow> 'e void_storage \<Rightarrow>
     (unit, 'e void_storage \<times> 'e void_storage, 'x) run" where
  "void_construct_from E k rhs =
    seq (on_rhs void_flag) (\<lambda>b.
      if b then void_construct else void_construct_error (on_rhs (void_from_err E k)))
    (void_no_init, rhs)"

definition void_destructor :: "(unit, 'e void_storage, 'x) comp" where
  "void_destructor = seq void_flag (\<lambda>b. if \<not> b then void_destroy_err else give ())"

text \<open>\<open>operator=\<close> from an \<open>unexpected\<close>; \<open>destroy_val\<close> does nothing.\<close>

definition void_destroy_val :: "(unit, 'e void_storage, 'x) comp" where
  "void_destroy_val = give ()"

definition void_unexpected_assignment ::
    "('e \<Rightarrow> 'x option \<times> 'e) \<Rightarrow> 'x + 'e \<Rightarrow> (unit, 'e void_storage, 'x) comp" where
  "void_unexpected_assignment assign built =
    seq void_flag (\<lambda>b.
      if \<not> b then void_store_err assign
      else seq void_destroy_val (\<lambda>_. seq (void_place_err built) (\<lambda>_. set_void_flag False)))"

lemmas run_void_operations [run_defs] = void_construct_def void_construct_error_def
  void_assign_def void_construct_from_def void_destructor_def void_destroy_val_def
  void_unexpected_assignment_def

subsection \<open>Observers, combinators and comparisons\<close>

definition void_error_of :: "bool \<Rightarrow> ('e, 'e void_storage, 'x) comp" where
  "void_error_of checks = seq void_flag (\<lambda>b. seq (tl_assert checks (\<not> b)) (\<lambda>_. void_get_err))"

text \<open>The implementations for an expected \<open>void\<close>: what is called on success takes no argument.\<close>

definition void_and_then_impl ::
    "bool \<Rightarrow> 'x + ('u, 'e) expected_storage \<Rightarrow>
     (('u, 'e) expected_storage, 'e void_storage, 'x) comp" where
  "void_and_then_impl checks called =
    seq void_flag (\<lambda>b.
      if b then raise_or_give called
      else seq (void_error_of checks) (\<lambda>e. give (repr (Inl e))))"

definition void_map_impl ::
    "bool \<Rightarrow> 'x + 'u \<Rightarrow> (('u, 'e) expected_storage, 'e void_storage, 'x) comp" where
  "void_map_impl checks called =
    seq void_flag (\<lambda>b.
      if b then seq (raise_or_give called) (\<lambda>u. give (repr (Inr u)))
      else seq (void_error_of checks) (\<lambda>e. give (repr (Inl e))))"

text \<open>A function that returns \<open>void\<close>: \<open>map\<close> of a value, \<open>map\<close> of a \<open>void\<close>, \<open>map_error\<close>.\<close>

definition map_to_void_impl ::
    "bool \<Rightarrow> ('t \<Rightarrow> 'x + unit) \<Rightarrow> ('e void_storage, ('t, 'e) expected_storage, 'x) comp" where
  "map_to_void_impl checks f =
    seq has_val (\<lambda>b.
      if b then seq (deref checks) (\<lambda>v. seq (raise_or_give (f v)) (\<lambda>_. give void_default))
      else seq (error_of checks) (\<lambda>e. give (repr_void (Inl e))))"

definition void_map_to_void_impl ::
    "bool \<Rightarrow> 'x + unit \<Rightarrow> ('e void_storage, 'e void_storage, 'x) comp" where
  "void_map_to_void_impl checks called =
    seq void_flag (\<lambda>b.
      if b then seq (raise_or_give called) (\<lambda>_. give void_default)
      else seq (void_error_of checks) (\<lambda>e. give (repr_void (Inl e))))"

definition void_map_error_impl ::
    "bool \<Rightarrow> ('e \<Rightarrow> 'x + 'g) \<Rightarrow> ('g void_storage, 'e void_storage, 'x) comp" where
  "void_map_error_impl checks f =
    seq void_flag (\<lambda>b.
      if b then give void_default
      else seq (void_error_of checks) (\<lambda>e.
        seq (raise_or_give (f e)) (\<lambda>g. give (repr_void (Inl g)))))"

definition void_or_else_impl ::
    "bool \<Rightarrow> ('e \<Rightarrow> 'x + 'e void_storage) \<Rightarrow> ('e void_storage, 'e void_storage, 'x) comp" where
  "void_or_else_impl checks f =
    seq void_flag (\<lambda>b.
      if b then (\<lambda>s. Done s s) else seq (void_error_of checks) (\<lambda>e. raise_or_give (f e)))"

definition void_eq ::
    "bool \<Rightarrow> ('e \<Rightarrow> 'g \<Rightarrow> bool) \<Rightarrow> (bool, 'e void_storage \<times> 'g void_storage, 'x) comp" where
  "void_eq checks same_err =
    seq (on_this void_flag) (\<lambda>l. seq (on_rhs void_flag) (\<lambda>r.
      if l \<noteq> r then give False
      else if \<not> l then
        seq (on_this (void_error_of checks)) (\<lambda>a.
          seq (on_rhs (void_error_of checks)) (\<lambda>b. give (same_err a b)))
      else give True))"

definition void_neq ::
    "bool \<Rightarrow> ('e \<Rightarrow> 'g \<Rightarrow> bool) \<Rightarrow> (bool, 'e void_storage \<times> 'g void_storage, 'x) comp" where
  "void_neq checks diff_err =
    seq (on_this void_flag) (\<lambda>l. seq (on_rhs void_flag) (\<lambda>r.
      if l \<noteq> r then give True
      else if \<not> l then
        seq (on_this (void_error_of checks)) (\<lambda>a.
          seq (on_rhs (void_error_of checks)) (\<lambda>b. give (diff_err a b)))
      else give False))"

lemmas run_void_observe [run_defs] = void_error_of_def void_and_then_impl_def void_map_impl_def
  map_to_void_impl_def void_map_to_void_impl_def void_map_error_impl_def void_or_else_impl_def
  void_eq_def void_neq_def

text \<open>As \<open>made\<close>, for a computation that makes an expected \<open>void\<close>.\<close>

definition made_void :: "'s \<Rightarrow> 'x + ('g + unit) \<Rightarrow> ('g void_storage, 's, 'x) run" where
  "made_void s r = (case r of Inl x \<Rightarrow> Threw x s | Inr q \<Rightarrow> Done (repr_void q) s)"

text \<open>
  The combinators of an expected \<open>void\<close> are the case analyses of the sum with a unit, and the
  comparisons compare the two sums.
\<close>

lemma void_combinators_repr:
  "void_and_then_impl checks (map_sum id repr c) (repr_void r) =
     made (repr_void r) (case r of Inl e \<Rightarrow> Inr (Inl e) | Inr _ \<Rightarrow> c)"
  "void_map_impl checks d (repr_void r) =
     made (repr_void r) (case r of Inl e \<Rightarrow> Inr (Inl e) | Inr _ \<Rightarrow> map_sum id Inr d)"
  "void_map_to_void_impl checks u (repr_void r) =
     made_void (repr_void r) (case r of Inl e \<Rightarrow> Inr (Inl e) | Inr _ \<Rightarrow> map_sum id Inr u)"
  "void_map_error_impl checks h (repr_void r) =
     made_void (repr_void r) (case r of Inl e \<Rightarrow> map_sum id Inl (h e) | Inr _ \<Rightarrow> Inr (Inr ()))"
  "void_or_else_impl checks (\<lambda>e. map_sum id repr_void (k e)) (repr_void r) =
     made_void (repr_void r) (case r of Inl e \<Rightarrow> k e | Inr _ \<Rightarrow> Inr (Inr ()))"
  by (cases r; simp add: run_defs made_def made_void_def split: sum.split)+

lemma map_to_void_repr:
  "map_to_void_impl checks f (repr q) =
     made_void (repr q) (case q of Inl e \<Rightarrow> Inr (Inl e) | Inr v \<Rightarrow> map_sum id Inr (f v))"
  by (cases q; simp add: run_defs made_void_def split: sum.split)

lemma void_comparisons_repr:
  "void_eq checks same_err (repr_void r, repr_void q) =
     Done (rel_sum same_err (\<lambda>_ _. True) r q) (repr_void r, repr_void q)"
  "void_neq checks (\<lambda>a b. \<not> same_err a b) (repr_void r, repr_void q) =
     Done (\<not> rel_sum same_err (\<lambda>_ _. True) r q) (repr_void r, repr_void q)"
  by (cases r; cases q; simp add: run_defs)+

subsection \<open>The properties\<close>

text \<open>
  C26. A \<open>Result<void>\<close> is a sum with a unit, whatever \<open>E\<close> promises, as long as its copies and moves make
  equal objects: what is constructed or assigned, by a copy, by a move or from an \<open>unexpected\<close>, holds
  what the source held; a copy leaves the source, a move leaves it an object of the same kind; the
  destructor leaves no error alive; an object made without arguments holds success.
\<close>

theorem void_results_hold_sums:
  assumes "regular E"
  shows "void_construct_from E Lvalue (repr_void r) = Done () (repr_void r, repr_void r) \<and>
    void_assign E Lvalue (repr_void l, repr_void r) = Done () (repr_void r, repr_void r) \<and>
    (\<exists>rest. void_construct_from E Rvalue (repr_void r) = Done () (repr_void r, repr_void rest) \<and>
      isl rest = isl r) \<and>
    (\<exists>rest. void_assign E Rvalue (repr_void l, repr_void r) = Done () (repr_void r, repr_void rest) \<and>
      isl rest = isl r) \<and>
    void_unexpected_assignment (\<lambda>old. copy_assign E old g) (Inr g) (repr_void r) =
      Done () (repr_void (Inl g)) \<and>
    void_unexpected_assignment (move_from_local E g) (Inr g) (repr_void r) =
      Done () (repr_void (Inl g)) \<and>
    (\<exists>s. void_destructor (repr_void r) = Done () s \<and> live_error s = None) \<and>
    void_default = repr_void (Inr () :: 'e + unit)"
  using assms by (cases l; cases r; force simp: run_defs regular_simps intro: exI [of _ "Inl _"] exI [of _ "Inr _"])

theorem void_results_hold_sums_witness:
  "void_assign string_members Lvalue (repr_void (Inr ()), repr_void (Inl ''taken'')) =
     (Done () (repr_void (Inl ''taken''), repr_void (Inl ''taken'')) :: (unit, _, unit) run) \<and>
   void_assign string_members Lvalue (repr_void (Inl ''taken''), repr_void (Inr ())) =
     (Done () (repr_void (Inr ()), repr_void (Inr ())) :: (unit, _, unit) run)"
  using void_results_hold_sums [OF regular_string_members, of "Inl ''taken''" "Inr ()" "[]"]
    void_results_hold_sums [OF regular_string_members, of "Inr ()" "Inl ''taken''" "[]"]
  by blast

text \<open>
  A \<open>Result<void>\<close> never throws when it is copied: an error whose copy throws ends the process, in
  the copy constructor and in both ways a copy assignment takes it, although neither is declared
  \<open>noexcept\<close>.
\<close>

theorem void_copy_terminates:
  assumes "copy_construct E e = Inl x" and "\<And>old. fst (copy_assign E old e) = Some x"
  shows "void_construct_from E Lvalue (repr_void (Inl e)) = Terminated \<and>
    void_assign E Lvalue (repr_void l, repr_void (Inl e)) = Terminated"
  using assms by (cases l; simp add: run_defs)

theorem void_copy_terminates_witness:
  "void_construct_from throwing_members Lvalue (repr_void (Inl ''taken'')) = Terminated \<and>
   void_assign throwing_members Lvalue (repr_void (Inr ()), repr_void (Inl ''taken'')) = Terminated"
  by (rule void_copy_terminates [where x = "()"]) (simp_all add: throwing_members_def)

end
