(* ===== verification/Expected_Forms.thy ===== *)
theory Expected_Forms
  imports Expected_Void
begin

text \<open>
  The remaining forms of \<open>tl::expected\<close>: the constructors that forward their arguments (what
  \<open>return value\<close> and \<open>return core::failure(...)\<close> call), the specialisations for types whose copies or
  destructors are trivial, the combinators with a function that returns nothing, and the last
  comparisons. The members \<open>and_then\<close>, \<open>map\<close>, \<open>map_error\<close> and \<open>or_else\<close> only forward to the
  \<open>_impl\<close> functions, each for its value category.
\<close>

subsection \<open>Constructors that forward\<close>

text \<open>\<open>expected(in_place, args...)\<close>, which \<open>expected(U&&)\<close> calls, and \<open>expected(unexpect, args...)\<close>.\<close>

definition in_place_constructor :: "'x + 't \<Rightarrow> (('t, 'e) expected_storage, 's, 'x) comp" where
  "in_place_constructor built = seq (raise_or_give built) (\<lambda>v. give \<lparr>alive = Val v, m_has_val = True\<rparr>)"

definition unexpect_constructor :: "'x + 'e \<Rightarrow> (('t, 'e) expected_storage, 's, 'x) comp" where
  "unexpect_constructor built = seq (raise_or_give built) (\<lambda>e. give \<lparr>alive = Unexpect e, m_has_val = False\<rparr>)"

text \<open>\<open>expected(unexpected<G>&&)\<close> is \<open>noexcept\<close> when \<open>E\<close> promises that it cannot throw.\<close>

definition unexpected_rvalue_constructor ::
    "bool \<Rightarrow> 'x + 'e \<Rightarrow> (('t, 'e) expected_storage, 's, 'x) comp" where
  "unexpected_rvalue_constructor nothrow built =
    (if nothrow then noexcept (unexpect_constructor built) else unexpect_constructor built)"

definition void_unexpect_constructor :: "'x + 'e \<Rightarrow> ('e void_storage, 's, 'x) comp" where
  "void_unexpect_constructor built =
    seq (raise_or_give built) (\<lambda>e. give \<lparr>live_error = Some e, void_has_val = False\<rparr>)"

subsection \<open>Trivial types\<close>

text \<open>
  The destructors where \<open>T\<close>, \<open>E\<close> or both are trivially destructible: the object of a trivial type is
  left as it is, its lifetime ends with that of the storage.
\<close>

definition trivial_val_destructor :: "(unit, ('t, 'e) expected_storage, 'x) comp" where
  "trivial_val_destructor = seq has_val (\<lambda>b. if \<not> b then destroy_err else give ())"

definition trivial_err_destructor :: "(unit, ('t, 'e) expected_storage, 'x) comp" where
  "trivial_err_destructor = seq has_val (\<lambda>b. if b then destroy_val else give ())"

definition trivial_destructor :: "(unit, 's, 'x) comp" where
  "trivial_destructor = give ()"

text \<open>The defaulted copies and moves of trivially copyable types: the bytes of the source.\<close>

definition trivial_transfer :: "(unit, 's \<times> 's, 'x) comp" where
  "trivial_transfer p = Done () (snd p, snd p)"

subsection \<open>Functions that return nothing\<close>

text \<open>The error of the result is a \<open>monostate\<close>; \<open>or_else\<close> hands on the object it was called on.\<close>

definition map_error_call_impl ::
    "bool \<Rightarrow> ('e \<Rightarrow> 'x + unit) \<Rightarrow> (('t, unit) expected_storage, ('t, 'e) expected_storage, 'x) comp" where
  "map_error_call_impl checks f =
    seq has_val (\<lambda>b.
      if b then seq (deref checks) (\<lambda>v. give (repr (Inr v)))
      else seq (error_of checks) (\<lambda>e. seq (raise_or_give (f e)) (\<lambda>_. give (repr (Inl ())))))"

definition void_map_error_call_impl ::
    "bool \<Rightarrow> ('e \<Rightarrow> 'x + unit) \<Rightarrow> (unit void_storage, 'e void_storage, 'x) comp" where
  "void_map_error_call_impl checks f =
    seq void_flag (\<lambda>b.
      if b then give void_default
      else seq (void_error_of checks) (\<lambda>e. seq (raise_or_give (f e)) (\<lambda>_. give (repr_void (Inl ())))))"

definition or_else_call_impl ::
    "bool \<Rightarrow> ('e \<Rightarrow> 'x + unit) \<Rightarrow> (('t, 'e) expected_storage, ('t, 'e) expected_storage, 'x) comp" where
  "or_else_call_impl checks f =
    seq has_val (\<lambda>b.
      if b then (\<lambda>s. Done s s)
      else seq (error_of checks) (\<lambda>e. seq (raise_or_give (f e)) (\<lambda>_ s. Done s s)))"

subsection \<open>Comparisons\<close>

definition expected_neq_val ::
    "bool \<Rightarrow> ('t \<Rightarrow> bool) \<Rightarrow> (bool, ('t, 'e) expected_storage, 'x) comp" where
  "expected_neq_val checks differ =
    seq has_val (\<lambda>b. if b then seq (deref checks) (\<lambda>v. give (differ v)) else give True)"

definition expected_neq_unexpected ::
    "bool \<Rightarrow> ('e \<Rightarrow> bool) \<Rightarrow> (bool, ('t, 'e) expected_storage, 'x) comp" where
  "expected_neq_unexpected checks differ =
    seq has_val (\<lambda>b. if b then give True else seq (error_of checks) (\<lambda>e. give (differ e)))"

lemmas run_forms [run_defs] = in_place_constructor_def unexpect_constructor_def
  unexpected_rvalue_constructor_def void_unexpect_constructor_def trivial_val_destructor_def
  trivial_err_destructor_def trivial_destructor_def trivial_transfer_def map_error_call_impl_def
  void_map_error_call_impl_def or_else_call_impl_def expected_neq_val_def expected_neq_unexpected_def

subsection \<open>The same sums\<close>

text \<open>
  A \<open>return\<close> of the program makes the storage of the sum it stands for, or passes on what the
  construction throws; a move into it that promises not to throw and does ends the process.
\<close>

theorem returned_results_are_sums:
  "in_place_constructor (Inr v) s = Done (repr (Inr v)) s \<and>
   unexpect_constructor (Inr e) s = Done (repr (Inl e)) s \<and>
   unexpected_rvalue_constructor nothrow (Inr e) s = Done (repr (Inl e)) s \<and>
   void_unexpect_constructor (Inr e) s = Done (repr_void (Inl e)) s \<and>
   void_default = repr_void (Inr () :: 'e + unit) \<and>
   in_place_constructor (Inl x) s = Threw x s \<and>
   unexpect_constructor (Inl x) s = Threw x s \<and>
   void_unexpect_constructor (Inl x) s = Threw x s \<and>
   unexpected_rvalue_constructor nothrow (Inl x) s = (if nothrow then Terminated else Threw x s)"
  by (simp add: run_defs)

text \<open>
  The specialisations for trivial types end the lifetime of the one object that has a destructor to run,
  and none that is not alive; their defaulted copies leave two objects that hold the sum of the source.
\<close>

theorem trivial_types_hold_sums:
  "trivial_val_destructor (repr r) = Done () (case r of Inl e \<Rightarrow> (repr r)\<lparr>alive := NoInit\<rparr> | Inr v \<Rightarrow> repr r) \<and>
   trivial_err_destructor (repr r) = Done () (case r of Inl e \<Rightarrow> repr r | Inr v \<Rightarrow> (repr r)\<lparr>alive := NoInit\<rparr>) \<and>
   trivial_destructor (repr r) = Done () (repr r) \<and>
   trivial_transfer (repr l, repr r) = Done () (repr r, repr r)"
  by (cases r; simp add: run_defs)

lemma call_combinators_repr:
  "map_error_call_impl checks f (repr r) =
     made (repr r) (case r of Inl e \<Rightarrow> map_sum id Inl (f e) | Inr v \<Rightarrow> Inr (Inr v))"
  "or_else_call_impl checks f (repr r) =
     made (repr r) (case r of Inl e \<Rightarrow> map_sum id (\<lambda>_. Inl e) (f e) | Inr v \<Rightarrow> Inr (Inr v))"
  by (cases r; simp add: run_defs made_def split: sum.split)+

lemma void_call_combinator_repr:
  "void_map_error_call_impl checks f (repr_void q) =
     made_void (repr_void q) (case q of Inl e \<Rightarrow> map_sum id Inl (f e) | Inr _ \<Rightarrow> Inr (Inr ()))"
  by (cases q; simp add: run_defs made_void_def split: sum.split)

lemma other_comparisons_repr:
  "expected_neq_val checks (\<lambda>v. \<not> same v) (repr r) = Done (\<not> (case r of Inl e \<Rightarrow> False | Inr v \<Rightarrow> same v)) (repr r)"
  "expected_neq_unexpected checks (\<lambda>e. \<not> same' e) (repr r) =
     Done (\<not> (case r of Inl e \<Rightarrow> same' e | Inr v \<Rightarrow> False)) (repr r)"
  by (cases r; simp add: run_defs)+

end
