(* ===== verification/Spec2Isabelle.thy ===== *)
theory Spec2Isabelle
  imports Workers Lifecycle Expected_Forms
begin

text \<open>
  Leta is a small search server in C++ (\<open>src/src\<close>). A client creates indexes, sends batches of JSON
  documents over HTTP, and the server tokenizes and stores them in memory. The program is layered:
  \<open>core\<close> holds values and the index of words, \<open>application\<close> the services and the ports, \<open>adapters\<close> the
  storage and HTTP; \<open>main.cpp\<close> puts them together. This development models all of it but the
  third-party libraries, and proves what each part promises to the next.

  What models what, in the order of the imports:

  \<^item> \<open>Prelude\<close>, \<open>Cpp_Std\<close>: shared lemmas, and the searches of \<open>std::string_view\<close>, \<open>std::to_string\<close> and
    \<open>std::map::try_emplace\<close>. A string is a list of bytes; \<open>npos\<close> is a \<open>None\<close> position.
  \<^item> \<open>Errors\<close>: \<open>core/error.hpp\<close>, \<open>error.cpp\<close>, \<open>result.hpp\<close>. A \<open>Result<T>\<close> is a sum with the error on
    the left, so that every early return of the code is a branch.
  \<^item> \<open>Expected_Storage\<close>, \<open>Expected_Assign\<close>, \<open>Expected\<close>: \<open>core/third_party/tl/expected.hpp\<close>, the type
    behind \<open>Result\<close>: a union, a flag, and the lifetimes of the two members. On storage that holds a
    sum, every operation is that of the sum (\<open>repr\<close>), which is why the other theories use one.
    \<open>Expected_Void\<close>: the specialisations for \<open>void\<close>, behind \<open>Result<void>\<close>. \<open>Expected_Forms\<close>: the
    constructors that \<open>return\<close> calls, the specialisations for trivial types and what is left.
  \<^item> \<open>Index_Uid\<close>, \<open>Tokenizer\<close>: \<open>IndexUid::parse\<close> and \<open>split_on_whitespace\<close>, each compared with a
    reference that is independent of its loop.
  \<^item> \<open>Exact_Match\<close>: \<open>ExactMatchIndex\<close>. The locale \<open>document_index\<close> is what an owner of such an index may
    rely on: it answers as the list of documents added to it. \<open>DocId\<close> is 32 bits wide, and its
    wrap-around is stated.
  \<^item> \<open>Json_String\<close>, \<open>Wire\<close>: the string encoder, and a reader of JSON strings and of flat objects
    that every body the program writes is read back with.
  \<^item> \<open>Calendar\<close>, \<open>Json_Timestamp\<close>: the date of a day number and \<open>append_json_timestamp\<close>.
  \<^item> \<open>Repository\<close>: the port \<open>IndexRepository\<close> as the locale \<open>index_repository_port\<close>, an abstract catalog
    (uid to metadata and documents), and \<open>InMemoryIndexRepository\<close>, which refines it.
  \<^item> \<open>Services\<close>: \<open>IndexService\<close>, \<open>IngestService\<close> and \<open>HealthService\<close>, proved from the port's laws.
  \<^item> \<open>Concurrency\<close>: the repository's operations as steps of worker threads under its mutex, with
    linearizability as an invariant of every reachable state.
  \<^item> \<open>Http_Port\<close>, \<open>Error_Response\<close>, \<open>Content_Type\<close>, \<open>Request_Id\<close>: the server port, the FR-71 errors, the
    FR-70 check, and the FR-73 ids with \<open>std::mt19937_64\<close> written out.
  \<^item> \<open>Simdjson\<close>, \<open>Text_Reader\<close>: the operations of the on-demand parser the code calls, as a parameter,
    and a small JSON reader to instantiate it with.
  \<^item> \<open>Document_Routes\<close>, \<open>Index_Routes\<close>: the two POST routes, from the body to the answer, over whatever
    the parser reads.
  \<^item> \<open>Json_Text\<close>, \<open>Json_Reader\<close>: JSON texts as trees with every blank and every character of their
    literals, what a parser answers on them (\<open>parses_json\<close>), and the proof that \<open>text_reader\<close> does.
    \<open>Body_Text\<close>: what the two routes make of a body, as a function of its text.
  \<^item> \<open>Http_Server\<close>, \<open>Http_Contract\<close>: the adapter on cpp-httplib, hooks and lifecycle, and its properties;
    the library's messages and pipeline are parameters. It is an \<open>http_server_port\<close>, the locale of
    \<open>Http_Port\<close>: a route that was added is served under its pattern, whatever is added or stopped later.
  \<^item> \<open>App\<close>: GET /health, the version line and \<open>main\<close>.
  \<^item> \<open>Api_Spec\<close>: what the API promises, as a step relation on the catalog (\<open>api_step\<close>, one event for
    each way a request can end) and the answer of each event. \<open>Session\<close>: sequences of requests, as bytes,
    through the whole program; every session is a run of the API.
  \<^item> \<open>Posted\<close>, \<open>Exact_Session\<close>: one request from the text of its body to the answer and the store; then a
    reference implementation of the API over such texts (\<open>answer_request\<close>), a function of the request
    and the state, and the server as that function over whole sessions.
  \<^item> \<open>Lifecycle\<close>: the process from its start to its end, \<open>serve\<close> and the \<open>catch\<close> of \<open>main\<close> statement by
    statement as a step relation, with clients that connect at any point and workers that answer while
    \<open>run()\<close> blocks. The worker pool is created inside \<open>run()\<close>, and may throw. One request is one step
    here, as \<open>Workers\<close> allows.
  \<^item> \<open>Workers\<close>: the handlers of the routes on worker threads that overlap, in the steps of \<open>Concurrency\<close>;
    they answer as if run one after the other, and so as a run of the API.
  \<^item> this theory: properties that span the routes, the services, the repository and the index.

  The groups of properties: each parser accepts exactly what the API says and each encoder writes
  what reads back as the same values; each operation does what its contract says on every branch,
  errors included; which of its faults a body is answered with, and what is stored of it, is a function
  of its text; the repository refines the catalog over any history and under any interleaving,
  and never loses a document; every response carries a safe request id and every error the one form
  of errors; what was ingested is found, byte for byte, however the session goes on; the process ends
  as \<open>main\<close> says, exceptions out of \<open>run()\<close> included, and no client ever reads that it is starting.

  Bounds. Documents of an index are counted against \<open>2 ^ 32\<close>, the range of \<open>DocId\<close>
  (\<open>room_for_batch\<close>, \<open>has_room\<close>); a session of \<open>n\<close> requests sends at most \<open>n * MaxBatchDocuments\<close>
  documents, which is the bound of the properties of \<open>Session\<close>; texts are counted against \<open>npos\<close>, the
  largest size of a string. What a search answers with more than \<open>2 ^ 32\<close> documents in an index is
  stated at the end of \<open>Exact_Match\<close>. Validation ends because a value deeper than 128 levels is refused
  before it is read; \<open>Document_Routes\<close> has its functions a second time, as partial functions without a
  measure (\<open>validation\<close>), and counts the calls on the stack of a worker. Timestamps are read back for the years 0 to 9999, the four digits the format has. The fuel of the readers in \<open>Wire\<close> and
  \<open>Text_Reader\<close> is the length of the text, of which every step takes at least one character.

  Assumed of the libraries, as named hypotheses with a concrete instance: \<open>message_laws\<close> and \<open>pipeline\<close>
  (\<open>Http_Server\<close>), the documented behaviour of cpp-httplib's messages and of its handler order; \<open>reaches\<close>
  (\<open>Session\<close>), that it hands a request to the route its path matches. Both are asked of single
  requests, those of the session at hand: a request whose answer the library may replace after the
  handler has run, as it may for a \<open>Range\<close> header, which the code neither reads nor switches off, is
  outside \<open>pipeline\<close>, and nothing is said of a session that has one. What binding, listening and the
  constructor of the worker pool come to is the record \<open>listener\<close>, about which nothing is assumed. The properties of the two routes
  assume nothing of simdjson: \<open>reads\<close> says what a handle gives, and they speak about it. Those over the
  text of a body assume \<open>parses_json\<close>: on a body that is a JSON text, the handles give what the text
  says. It is asked of texts in valid UTF-8 below \<open>2 ^ 32\<close> bytes, of at most 1000 levels, with
  numbers of at most 100 characters and two digits of exponent, and \<open>\u\<close> escapes of ASCII characters;
  what simdjson makes of other bodies is left open.

  Not modelled: the libraries themselves and the bytes on the socket (\<open>stop()\<close> is a flag the library
  reads); allocation failure; the memory order of the readiness flag (one store, so every reader sees
  one of two values); of \<open>tl::expected\<close> the type traits and the branches for older compilers, which the
  build does not compile; the values CMake puts in \<open>build_info()\<close>, an argument here. Requests
  of a session follow one another; requests that overlap are those of \<open>Workers\<close>, from the parsed route on:
  the hooks around the handlers share nothing but the server log, whose lines may then come in any order.
\<close>

subsection \<open>From a request to an answer about its words\<close>

text \<open>At the moment of the answer: a word of an accepted batch is found in the stored index. The route is
  called alone here; the property after this one puts the server around it and lets it go on.\<close>

theorem ingested_words_are_found:
  fixes lib :: "'h simdjson" and uid_text payload :: string
  assumes "repository_holds (repository (services s)) A" and "room_for_batch A"
    and "parse_uid uid_text = Inr u" and "parse_document_batch lib payload = Inr ds"
    and "d \<in> set ds" and "field \<in> set (searchable_text d)" and "word \<in> set (split_on_whitespace field)"
  shows "\<exists>stored i. indexes (repository (services (snd
        (add_documents_response in_memory_port lib uid_text payload s)))) (uid_value u) = Some stored
    \<and> i \<in> set (documents_containing (documents stored) word)
    \<and> source_of (documents stored) i = Inr (doc_source d)"
proof -
  let ?entry = "target_entry A u (shd (clock (services s)))"
  have "(A(uid_value u \<mapsto> (fst ?entry, snd ?entry @ ds))) (uid_value u) = Some (fst ?entry, snd ?entry @ ds)"
    by simp
  moreover have "d \<in> set (snd ?entry @ ds)" using assms(5) by simp
  moreover have "word \<in> set (document_words d)" using assms(6,7) by (auto simp: document_words_def)
  ultimately show ?thesis by (rule stored_word_found [OF add_documents_response_accepts(2) [OF assms(1-4)]])
qed

text \<open>
  After a batch is accepted over POST /indexes/{uid}/documents, and
  whatever bytes clients send the server afterwards, every whitespace-separated word of every
  top-level string of every document of the batch is found in the stored index, under an id whose
  source is that document's bytes.
\<close>

theorem ingested_words_survive:
  fixes lib :: "('q, 'p) http_library" and json :: "'h simdjson" and uid_text payload :: string
  assumes "message_laws lib" and "make_server lib options = Inr fresh"
    and "list_all (pipeline lib process (leta_server lib net json fresh)) later"
    and "repository_holds (repository (services s)) A" and "catalog_bounded A n"
    and "n + (1 + length later) * MaxBatchDocuments \<le> 2 ^ 32"
    and "parse_uid uid_text = Inr u" and "parse_document_batch json payload = Inr ds"
    and "application w = snd (add_documents_response in_memory_port json uid_text payload s)"
    and "d \<in> set ds" and "field \<in> set (searchable_text d)" and "word \<in> set (split_on_whitespace field)"
  shows "\<exists>stored i. indexes (stored_in (snd (serve_all process (leta_server lib net json fresh) later w)))
        (uid_value u) = Some stored
    \<and> i \<in> set (documents_containing (documents stored) word)
    \<and> source_of (documents stored) i = Inr (doc_source d)"
proof -
  let ?entry = "target_entry A u (shd (clock (services s)))"
  let ?A1 = "A(uid_value u \<mapsto> (fst ?entry, snd ?entry @ ds))"
  have room: "room_for_batch A" by (rule room_for_batch_bounded [OF assms(5)]) (use assms(6) in simp)
  have "repository_holds (stored_in w) ?A1"
    unfolding stored_in_def assms(9) by (rule add_documents_response_accepts(2) [OF assms(4) room assms(7,8)])
  moreover have "catalog_bounded ?A1 (n + MaxBatchDocuments)"
    using assms(7,8) by (intro api_step_bounded [OF ingest_step [OF assms(4)] assms(5)])
      (auto simp: parse_uid_returns parse_document_batch_iff)
  moreover have "n + MaxBatchDocuments + length later * MaxBatchDocuments \<le> 2 ^ 32" using assms(6) by simp
  ultimately obtain events A' where run: "api_run ?A1 events A'"
    and holds: "repository_holds (stored_in (snd (serve_all process (leta_server lib net json fresh) later w))) A'"
    using serve_all_run [OF assms(1-3)] by blast
  have "?A1 (uid_value u) = Some (fst ?entry, snd ?entry @ ds)" by simp
  with run obtain entry where "A' (uid_value u) = Some entry"
    and kept: "extends_entry (fst ?entry, snd ?entry @ ds) entry"
    by (rule api_run_extends)
  then have "A' (uid_value u) = Some (fst entry, snd entry)" by simp
  moreover have "d \<in> set (snd entry)" using assms(10) kept by (auto simp: extends_entry_def)
  moreover have "word \<in> set (document_words d)" using assms(11,12) by (auto simp: document_words_def)
  ultimately show ?thesis by (rule stored_word_found [OF holds])
qed

lemma sample_words: "''kit'' \<in> set (split_on_whitespace ''DDR5 kit'')"
proof -
  have "split_on_whitespace ''DDR5 kit'' = words ''DDR5 kit''"
    by (rule split_on_whitespace_words) (simp add: npos_def)
  moreover have "''kit'' \<in> set (words ''DDR5 kit'')" by code_simp
  ultimately show ?thesis by simp
qed

theorem ingested_words_survive_witness:
  "\<exists>fresh stored i. make_server plain_library default_options = Inr fresh
    \<and> indexes (stored_in (snd (serve_all (plain_process sample_decode)
          (leta_server plain_library sample_listener text_reader fresh) [''a'', ''b'']
          (quiet_world (snd (add_documents_response in_memory_port text_reader
            ''products'' ''[{\"title\":\"DDR5 kit\"}]'' start_routes)))))) ''products'' = Some stored
    \<and> i \<in> set (documents_containing (documents stored) ''kit'')
    \<and> source_of (documents stored) i = Inr ''{\"title\":\"DDR5 kit\"}''"
proof -
  obtain fresh :: "(plain_request, plain_response, in_memory_repository route_state) library_server"
    where fresh: "make_server plain_library default_options = Inr fresh"
    using make_server_default by blast
  have empty: "repository_holds (repository (services start_routes)) Map.empty" by (simp add: start_routes_def)
  have bound: "catalog_bounded Map.empty 0" "0 + (1 + length [''a'', ''b'']) * MaxBatchDocuments \<le> 2 ^ 32"
    by (simp_all add: catalog_bounded_def MaxBatchDocuments_def)
  have world: "application (quiet_world v) = v" for v :: "in_memory_repository route_state"
    by (simp add: quiet_world_def)
  from ingested_words_survive [where net = sample_listener, OF plain_message_laws fresh
      plain_pipelines [of sample_decode] empty bound sample_batch world list.set_intros(1) _ sample_words]
  show ?thesis using fresh by simp
qed

text \<open>
  C4. End to end, over bytes and for good: a client posts a JSON array of 1 to 10000 objects of at
  most 128 levels, as text with whatever blanks, to a server that holds anything. The answer is 200,
  and whatever bytes clients send afterwards, every word of every top-level string of every object is
  found in the index of the path, under an id whose source is the text of that object as the client
  wrote it, byte for byte.
\<close>

theorem posted_words_survive:
  fixes lib :: "('q, 'p) http_library" and json :: "'h simdjson" and uid_text :: string
  assumes "message_laws lib" and "make_server lib options = Inr fresh"
    and "list_all (pipeline lib process (leta_server lib net json fresh)) later" and "parses_json json"
    and "repository_holds (stored_in w) A" and "catalog_bounded A n"
    and "n + (1 + length later) * MaxBatchDocuments \<le> 2 ^ 32"
    and "reaches lib process (leta_server lib net json fresh) bytes ''/indexes/:uid/documents'' q"
    and "is_json_content_type (q_header lib q ''Content-Type'')"
    and "q_path_params lib q = [(''uid'', uid_text)]" and "parse_uid uid_text = Inr u"
    and "q_body lib q = body_of before (SArray its) after" and "json_body before (SArray its) after"
    and "length (item_list its) \<le> 10000"
    and "list_all (\<lambda>x. \<exists>ms. json_of x = Obj ms \<and> list_all (\<lambda>m. nesting (snd m) \<le> 128) ms) (item_list its)"
    and "x \<in> set (item_list its)" and "json_of x = Obj ms" and "(key, Text field) \<in> set ms"
    and "word \<in> set (split_on_whitespace field)"
  shows "case serve_all process (leta_server lib net json fresh) (bytes # later) w of (responses, w') \<Rightarrow>
    p_status lib (hd responses) = 200
    \<and> (\<exists>stored i. indexes (stored_in w') (uid_value u) = Some stored
        \<and> i \<in> set (documents_containing (documents stored) word)
        \<and> source_of (documents stored) i = Inr (written x))"
proof -
  have "\<exists>ds. list_all2 document_of (item_list its) ds"
    using assms(15) by (simp add: list_all2_exists document_of_def list_all_iff)
  then obtain ds where ds: "list_all2 document_of (item_list its) ds" by blast
  have "item_list its \<noteq> []" by (cases its) simp_all
  with ds assms(14) have "batch_verdict (SArray its) = Inr ds"
    by (simp add: batch_verdict_Inr Suc_le_eq)
  then have parsed: "parse_document_batch json (q_body lib q) = Inr ds"
    using batch_of_json_text [OF assms(4,13)] assms(12) by simp
  from ds assms(16) obtain d where d: "d \<in> set ds" "document_of x d" by (rule list_all2_member)
  then have x: "doc_source d = written x" "field \<in> set (searchable_text d)"
    using assms(17,18) by (auto simp: document_of_def top_level_texts_def intro!: bexI [of _ "(key, Text field)"])
  note answered = reached_documents [OF assms(1,2,8) json_post_accepted [OF assms(9)] assms(10), of w]
  have holds: "repository_holds (repository (services (application w))) A"
    using assms(5) by (simp add: stored_in_def)
  have room: "room_for_batch A" by (rule room_for_batch_bounded [OF assms(6)]) (use assms(7) in simp)
  have "p_status lib (fst (process (leta_server lib net json fresh) bytes w)) = 200"
    using answered(1) add_documents_response_accepts(1) [OF holds room assms(11) parsed] by (simp add: says_def)
  with ingested_words_survive [OF assms(1-3) holds assms(6,7,11) parsed answered(2) d(1) x(2) assms(19)] x(1)
  show ?thesis by (simp add: case_prod_beta)
qed

definition spaced_batch_request :: plain_request where
  "spaced_batch_request =
     \<lparr>sent_headers = [(''Content-Type'', ''application/json'')],
      sent_path = ''/indexes/products/documents'', sent_body = ''[ {\"title\": \"DDR5 kit\"} ]  '',
      sent_params = [(''uid'', ''products'')]\<rparr>"

theorem posted_words_survive_witness:
  "\<exists>fresh stored i. make_server plain_library default_options = Inr fresh
    \<and> indexes (stored_in (snd (serve_all (plain_process (\<lambda>bytes. (''/indexes/:uid/documents'', spaced_batch_request)))
          (leta_server plain_library sample_listener text_reader fresh) [''a'', ''b'', ''c'']
          (quiet_world start_routes)))) ''products'' = Some stored
    \<and> i \<in> set (documents_containing (documents stored) ''kit'')
    \<and> source_of (documents stored) i = Inr ''{\"title\": \"DDR5 kit\"}''"
proof -
  obtain fresh :: "(plain_request, plain_response, in_memory_repository route_state) library_server"
    where fresh: "make_server plain_library default_options = Inr fresh"
    using make_server_default by blast
  let ?decode = "\<lambda>bytes :: string. (''/indexes/:uid/documents'', spaced_batch_request)"
  let ?x = "SObject (LastPair [] ''\"title\"'' [] '' '' (SString ''\"DDR5 kit\"'') [])"
  have empty: "repository_holds (stored_in (quiet_world start_routes)) Map.empty" by (simp add: memory.holds_new)
  have bound: "catalog_bounded Map.empty 0" "0 + (1 + length [''b'', ''c'']) * MaxBatchDocuments \<le> 2 ^ 32"
    by (simp_all add: catalog_bounded_def MaxBatchDocuments_def)
  have reach: "reaches plain_library (plain_process ?decode) (leta_server plain_library sample_listener text_reader fresh)
      ''a'' ''/indexes/:uid/documents'' spaced_batch_request"
    by (rule sample_reaches [OF fresh]) simp_all
  have x: "literal_string ''\"title\"'' = ''title''" "literal_string ''\"DDR5 kit\"'' = ''DDR5 kit''"
    "body_of [] (SArray (LastItem '' '' ?x '' '')) ''  '' = ''[ {\"title\": \"DDR5 kit\"} ]  ''"
    by code_simp+
  have request: "is_json_content_type (q_header plain_library spaced_batch_request ''Content-Type'')"
    "q_path_params plain_library spaced_batch_request = [(''uid'', ''products'')]"
    "q_body plain_library spaced_batch_request = body_of [] (SArray (LastItem '' '' ?x '' '')) ''  ''"
    unfolding x(3) by (simp_all add: plain_library_def spaced_batch_request_def header_or_empty_def json_type_sample)
  from posted_words_survive [where x = ?x, OF plain_message_laws fresh plain_pipelines text_reader_parses empty bound
      reach request(1,2) sample_batch(1) request(3) sample_batch_body [unfolded sample_batch_text_def] _ _ _ _ _ sample_words]
  show ?thesis using fresh x by (simp add: case_prod_beta)
qed

subsection \<open>A uid that is stored\<close>

text \<open>
  C15. A uid that is taken stays taken: whatever bytes clients send in between, a request to create it again,
  however its body writes it, is answered 409 \<open>index_already_exists\<close> and changes nothing.
\<close>

theorem stored_uid_stays_taken:
  fixes lib :: "('q, 'p) http_library" and json :: "'h simdjson"
  assumes "message_laws lib" and "make_server lib options = Inr fresh"
    and "list_all (pipeline lib process (leta_server lib net json fresh)) between" and "parses_json json"
    and "repository_holds (stored_in w) A" and "catalog_bounded A n"
    and "n + length between * MaxBatchDocuments \<le> 2 ^ 32"
    and "A (uid_value (command_uid command)) \<noteq> None"
    and "reaches lib process (leta_server lib net json fresh) bytes ''/indexes'' q"
    and "is_json_content_type (q_header lib q ''Content-Type'')"
    and "q_body lib q = body_of before s after" and "json_body before s after"
    and "index_verdict s = Inr command"
  shows "let w1 = snd (serve_all process (leta_server lib net json fresh) between w) in
    case process (leta_server lib net json fresh) bytes w1 of (p, w2) \<Rightarrow>
      p_status lib p = 409
      \<and> read_object (p_body lib p) = Some
          [(''code'', JString ''index_already_exists''),
           (''message'', JString (''Index `'' @ uid_value (command_uid command) @ ''` already exists.'')),
           (''type'', JString ''invalid_request'')]
      \<and> stored_in w2 = stored_in w1"
proof -
  let ?w1 = "snd (serve_all process (leta_server lib net json fresh) between w)"
  obtain events A1 where run: "api_run A events A1" and holds: "repository_holds (stored_in ?w1) A1"
    using serve_all_run [OF assms(1-3,5-7)] by blast
  obtain entry where "A (uid_value (command_uid command)) = Some entry" using assms(8) by blast
  with run have taken: "A1 (uid_value (command_uid command)) \<noteq> None" by (rule api_run_extends) simp
  note answered = reached_indexes [OF assms(1,2,9) json_post_accepted [OF assms(10)], where w = ?w1]
  have parsed: "parse_create_index_request json (q_body lib q) = Inr command"
    unfolding assms(11) index_request_of_json_text [OF assms(4,12)] by (rule assms(13))
  from create_taken_answer [OF holds [unfolded stored_in_def] parsed taken] answered show ?thesis
    by (simp add: Let_def case_prod_beta says_def status_error_response body_error_response wire
        error_members_def stored_in_def)
qed

theorem stored_uid_stays_taken_witness:
  "\<exists>fresh. make_server plain_library default_options = Inr fresh
    \<and> p_status plain_library (fst (plain_process two_requests
        (leta_server plain_library sample_listener text_reader fresh) ''c''
        (snd (serve_all (plain_process two_requests)
          (leta_server plain_library sample_listener text_reader fresh) [''a'', ''b'']
          (quiet_world (snd (add_documents_response in_memory_port text_reader
            ''products'' ''[{\"title\":\"DDR5 kit\"}]'' start_routes))))))) = 409"
proof -
  obtain fresh :: "(plain_request, plain_response, in_memory_repository route_state) library_server"
    where fresh: "make_server plain_library default_options = Inr fresh"
    using make_server_default by blast
  let ?w = "quiet_world (snd (add_documents_response in_memory_port text_reader
    ''products'' ''[{\"title\":\"DDR5 kit\"}]'' start_routes))"
  have empty: "repository_holds (repository (services start_routes)) Map.empty" by (simp add: start_routes_def)
  from add_documents_response_accepts(2) [OF empty room_for_batch_empty sample_batch]
  obtain m ds where holds: "repository_holds (stored_in ?w) [''products'' \<mapsto> (m, ds)]" and "length ds = 1"
    by (simp add: stored_in_def quiet_world_def target_entry_def)
  then have bound: "catalog_bounded [''products'' \<mapsto> (m, ds)] 1"
    by (simp add: catalog_bounded_def)
  have room: "1 + length [''a'', ''b''] * MaxBatchDocuments \<le> 2 ^ 32" by (simp add: MaxBatchDocuments_def)
  have reach: "reaches plain_library (plain_process two_requests)
      (leta_server plain_library sample_listener text_reader fresh) ''c'' ''/indexes'' create_request"
    by (rule sample_reaches [OF fresh]) (simp_all add: create_request_facts)
  from stored_uid_stays_taken [OF plain_message_laws fresh plain_pipelines text_reader_parses holds bound room _
      reach create_request_facts(1,2) index_request_body(1,3)]
  show ?thesis using fresh by (simp add: Let_def case_prod_beta)
qed

text \<open>
  Ingest creates a missing index for good: after an accepted batch, POST /indexes for the same uid
  is answered 409 \<open>index_already_exists\<close> and changes nothing.
\<close>

theorem ingest_then_create_conflicts:
  fixes lib :: "'h simdjson" and uid_text payload second :: string
  assumes "repository_holds (repository (services s)) A" and "room_for_batch A"
    and "parse_uid uid_text = Inr u" and "parse_document_batch lib payload = Inr ds"
    and "parse_create_index_request lib second = Inr command" and "command_uid command = u"
  defines "s1 \<equiv> snd (add_documents_response in_memory_port lib uid_text payload s)"
  shows "case create_index_response in_memory_port lib second s1 of (answer, s2) \<Rightarrow>
    status answer = 409
    \<and> read_object (body answer) = Some
        [(''code'', JString ''index_already_exists''),
         (''message'', JString (''Index `'' @ uid_value u @ ''` already exists.'')),
         (''type'', JString ''invalid_request'')]
    \<and> repository (services s2) = repository (services s1)"
proof -
  have "repository_holds (repository (services s1)) (A(uid_value u \<mapsto>
      (fst (target_entry A u (shd (clock (services s)))), snd (target_entry A u (shd (clock (services s)))) @ ds)))"
    using add_documents_response_accepts(2) [OF assms(1-4)] by (simp add: s1_def)
  from create_taken_answer [OF this assms(5)] show ?thesis
    by (simp add: assms(6) case_prod_beta status_error_response body_error_response wire error_members_def)
qed

theorem ingest_then_create_conflicts_witness:
  "status (fst (create_index_response in_memory_port text_reader ''{\"uid\":\"products\"}''
     (snd (add_documents_response in_memory_port text_reader ''products''
        ''[{\"title\":\"DDR5 kit\"}]'' start_routes)))) = 409"
proof -
  have "repository_holds (repository (services start_routes)) Map.empty" by (simp add: start_routes_def)
  moreover have "parse_create_index_request text_reader ''{\"uid\":\"products\"}''
      = Inr \<lparr>command_uid = IndexUid ''products'', command_primary_key = None\<rparr>"
    by code_simp
  ultimately show ?thesis
    using ingest_then_create_conflicts [OF _ room_for_batch_empty sample_batch]
    by (fastforce simp: case_prod_beta)
qed

end
